(* ===== verification/Go_Prelude.thy ===== *)
theory Go_Prelude
  imports Main "HOL-Library.Word" "HOL-Library.Sublist" "HOL-Library.Code_Target_Nat"
begin

text \<open>
  Prelude of the development: the type synonyms that name Go's basic types, the fact
  collections the component theories fill and use, and the generic facts on lists and
  options that several components share.

  A Go \<open>string\<close> and a Go \<open>[]byte\<close> are both sequences of bytes; the model writes both as
  HOL's \<open>string\<close> (a list of 8-bit \<open>char\<close>s), so that the conversions \<open>[]byte(s)\<close> and
  \<open>string(b)\<close> of the source are the identity. An \<open>error\<close> result is a value of an option
  type (\<open>None\<close> for Go's \<open>nil\<close>) or the left injection of a sum.
\<close>

section \<open>Names for Go's types\<close>

type_synonym bytes = string
type_synonym int32 = "32 word"
type_synonym int64 = "64 word"
type_synonym uint64 = "64 word"

section \<open>Fact collections\<close>

named_theorems go_path "facts that evaluate path.Clean, path.Join and path.Base"
named_theorems go_match "characterisations of the regular expressions of the source"
named_theorems zk_client "evaluation of the ZooKeeper client calls"
named_theorems store_path "the paths the store generates"

section \<open>Lists\<close>

lemma filter_ne_id: "list_all P xs \<Longrightarrow> filter P xs = xs"
  by (simp add: list_all_iff)

section \<open>Step relations that end\<close>

text \<open>
  The contract of a step relation whose steps keep an invariant and decrease a rank: every
  sequence of steps from a state of the invariant is bounded by the rank of that state.
\<close>

locale ranked =
  fixes step :: "'m \<Rightarrow> 'm \<Rightarrow> bool" and rank :: "'m \<Rightarrow> nat" and inv :: "'m \<Rightarrow> bool"
  assumes step_keeps: "inv m \<Longrightarrow> step m m' \<Longrightarrow> inv m'"
    and step_decreases: "inv m \<Longrightarrow> step m m' \<Longrightarrow> rank m' < rank m"
begin

lemma steps_bounded:
  assumes "inv m" "(step ^^ n) m m'"
  shows "n + rank m' \<le> rank m \<and> inv m'"
  using assms(2)
proof (induction n arbitrary: m')
  case 0
  with assms(1) show ?case by simp
next
  case (Suc n)
  then obtain m1 where "(step ^^ n) m m1" "step m1 m'" by auto
  with Suc.IH step_keeps step_decreases show ?case by fastforce
qed

end

section \<open>Bytes as numbers\<close>

definition byte :: "char \<Rightarrow> nat" where
  "byte c = of_char c"

lemma byte_less: "byte c < 256"
  by (simp add: byte_def)

lemma byte_inject [simp]: "byte c = byte d \<longleftrightarrow> c = d"
  by (simp add: byte_def)

lemma char_of_byte [simp]: "char_of (byte c) = c"
  by (simp add: byte_def)

lemma byte_char_of [simp]: "n < 256 \<Longrightarrow> byte (char_of n) = n"
  by (simp add: byte_def)

section \<open>Signed reading of 64-bit words\<close>

lemma sint64: "sint (w :: 64 word) = (if uint w < 2^63 then uint w else uint w - 2^64)"
proof -
  have b: "0 \<le> uint w" "uint w < 2^64" using uint_bounded [of w] by auto
  have "sint w = (uint w + 2^63) mod 2^64 - 2^63"
    by (simp add: sint_uint signed_take_bit_eq_take_bit_shift take_bit_eq_mod)
  also have "\<dots> = (if uint w < 2^63 then uint w else uint w - 2^64)"
  proof (cases "uint w < 2^63")
    case True
    then show ?thesis using b by simp
  next
    case False
    then have "(uint w + 2^63) mod 2^64 = uint w + 2^63 - 2^64"
      using b by (subst mod_pos_geq) (auto simp: mod_pos_pos_trivial)
    then show ?thesis using False by simp
  qed
  finally show ?thesis .
qed
lemma sint_mod_bounds:
  assumes "0 < sint (n :: 64 word)"
  shows "0 \<le> sint (x mod n) \<and> sint (x mod n) < sint n"
proof -
  have n: "sint n = uint n" "0 < uint n" "uint n < 2 ^ 63"
    using assms uint_bounded [of n] by (auto simp: sint64 split: if_splits)
  have "uint (x mod n) = uint x mod uint n" by (rule uint_mod)
  then have "0 \<le> uint (x mod n)" "uint (x mod n) < uint n" using n(2) by simp_all
  with n show ?thesis by (simp add: sint64)
qed

end
