(* ===== verification/Go_Strings.thy ===== *)
theory Go_Strings
  imports Go_Prelude
begin

text \<open>
  What the source uses of Go's packages \<open>strings\<close>, \<open>bytes\<close> and \<open>strconv\<close>: \<open>TrimSpace\<close>,
  \<open>HasPrefix\<close>, \<open>HasSuffix\<close>, \<open>Contains\<close>, \<open>Split\<close>, \<open>Join\<close>, \<open>Itoa\<close>, \<open>Atoi\<close>; and the character
  classes of the source's regular expressions. Everything computes.
\<close>

section \<open>Character classes\<close>

definition is_digit :: "char \<Rightarrow> bool" where
  "is_digit c \<longleftrightarrow> 48 \<le> byte c \<and> byte c \<le> 57"

definition is_upper :: "char \<Rightarrow> bool" where
  "is_upper c \<longleftrightarrow> 65 \<le> byte c \<and> byte c \<le> 90"

definition is_lower :: "char \<Rightarrow> bool" where
  "is_lower c \<longleftrightarrow> 97 \<le> byte c \<and> byte c \<le> 122"

definition is_word :: "char \<Rightarrow> bool" where
  \<comment> \<open>RE2's \<open>\\w\<close>: ASCII letters, digits and the underscore\<close>
  "is_word c \<longleftrightarrow> is_digit c \<or> is_upper c \<or> is_lower c \<or> c = CHR ''_''"

section \<open>strings.TrimSpace\<close>

text \<open>
  \<open>unicode.IsSpace\<close> holds for ten kinds of code points; \<open>space_runes\<close> lists their UTF-8
  encodings. UTF-8 is self-synchronising, so decoding the first (last) rune of a string and
  testing it is the same as testing for one of these byte sequences as a prefix (suffix).
\<close>

definition space_runes :: "string list" where
  "space_runes =
     map (map (char_of :: nat \<Rightarrow> char))
       ([[9], [10], [11], [12], [13], [32], [0xC2, 0x85], [0xC2, 0xA0], [0xE1, 0x9A, 0x80]]
        @ map (\<lambda>k. [0xE2, 0x80, k]) [0x80 ..< 0x8B]
        @ [[0xE2, 0x80, 0xA8], [0xE2, 0x80, 0xA9], [0xE2, 0x80, 0xAF], [0xE2, 0x81, 0x9F],
           [0xE3, 0x80, 0x80]])"

function trim_by :: "string list \<Rightarrow> string \<Rightarrow> string" where
  "trim_by ws s =
     (case find (\<lambda>w. w \<noteq> [] \<and> prefix w s) ws of
        None \<Rightarrow> s
      | Some w \<Rightarrow> trim_by ws (drop (length w) s))"
  by pat_completeness auto
termination
  by (relation "measure (\<lambda>(ws, s). length s)")
    (auto simp: find_Some_iff prefix_def)

declare trim_by.simps [simp del]

definition TrimSpace :: "string \<Rightarrow> string" where
  "TrimSpace s =
     rev (trim_by (map rev space_runes) (rev (trim_by space_runes s)))"

lemma trim_by_id:
  assumes "\<And>w. w \<in> set ws \<Longrightarrow> w \<noteq> [] \<Longrightarrow> \<not> prefix w s"
  shows "trim_by ws s = s"
proof -
  have "find (\<lambda>w. w \<noteq> [] \<and> prefix w s) ws = None"
    using assms by (auto simp: find_None_iff)
  then show ?thesis by (simp add: trim_by.simps)
qed

lemma trim_by_suffix: "suffix (trim_by ws s) s"
proof (induction ws s rule: trim_by.induct)
  case (1 ws s)
  show ?case
  proof (cases "find (\<lambda>w. w \<noteq> [] \<and> prefix w s) ws")
    case None
    then show ?thesis by (simp add: trim_by.simps)
  next
    case (Some w)
    then have "trim_by ws s = trim_by ws (drop (length w) s)"
      by (simp add: trim_by.simps)
    moreover have "suffix (trim_by ws (drop (length w) s)) (drop (length w) s)"
      using 1 Some by blast
    ultimately show ?thesis
      by (metis suffix_drop suffix_order.trans)
  qed
qed

lemma space_rune_ends:
  assumes "w \<in> set space_runes"
  shows "w \<noteq> [] \<and> \<not> is_word (hd w) \<and> hd w \<noteq> CHR ''-'' \<and> hd w \<noteq> CHR ''/''
       \<and> \<not> is_word (last w) \<and> last w \<noteq> CHR ''-'' \<and> last w \<noteq> CHR ''/''"
proof -
  have "list_all (\<lambda>w. w \<noteq> [] \<and> \<not> is_word (hd w) \<and> hd w \<noteq> CHR ''-'' \<and> hd w \<noteq> CHR ''/''
       \<and> \<not> is_word (last w) \<and> last w \<noteq> CHR ''-'' \<and> last w \<noteq> CHR ''/'') space_runes"
    by code_simp
  then show ?thesis using assms by (simp add: list_all_iff)
qed

lemma TrimSpace_id:
  assumes "\<And>w. w \<in> set space_runes \<Longrightarrow> \<not> prefix w s"
    and "\<And>w. w \<in> set space_runes \<Longrightarrow> \<not> suffix w s"
  shows "TrimSpace s = s"
proof -
  have "trim_by space_runes s = s"
    using assms(1) by (intro trim_by_id) blast
  moreover have "trim_by (map rev space_runes) (rev s) = rev s"
    using assms(2) by (intro trim_by_id) (auto simp: suffix_to_prefix)
  ultimately show ?thesis by (simp add: TrimSpace_def)
qed

lemma TrimSpace_word:
  assumes "list_all (\<lambda>c. is_word c \<or> c = CHR ''-'' \<or> c = CHR ''/'') s"
  shows "TrimSpace s = s"
proof (rule TrimSpace_id)
  fix w
  assume w: "w \<in> set space_runes"
  note ends = space_rune_ends [OF w]
  show "\<not> prefix w s"
  proof
    assume "prefix w s"
    with ends have "hd w \<in> set s"
      by (auto simp: prefix_def)
    with assms ends show False by (auto simp: list_all_iff)
  qed
  show "\<not> suffix w s"
  proof
    assume "suffix w s"
    with ends have "last w \<in> set s"
      by (auto simp: suffix_def)
    with assms ends show False by (auto simp: list_all_iff)
  qed
qed

section \<open>strings.HasPrefix, HasSuffix, Contains\<close>

definition HasPrefix :: "string \<Rightarrow> string \<Rightarrow> bool" where
  "HasPrefix s p \<longleftrightarrow> prefix p s"

definition HasSuffix :: "string \<Rightarrow> string \<Rightarrow> bool" where
  "HasSuffix s p \<longleftrightarrow> suffix p s"

fun Contains :: "string \<Rightarrow> string \<Rightarrow> bool" where
  "Contains [] sub = (sub = [])"
| "Contains (c # cs) sub = (prefix sub (c # cs) \<or> Contains cs sub)"

lemma Contains_sublist: "Contains s sub \<longleftrightarrow> sublist sub s"
proof (induction s)
  case Nil
  then show ?case by (auto simp: sublist_def)
next
  case (Cons c cs)
  then show ?case by (simp add: sublist_Cons_right)
qed

section \<open>strings.Split and strings.Join with a one-byte separator\<close>

fun Split :: "string \<Rightarrow> char \<Rightarrow> string list" where
  "Split [] sep = [[]]"
| "Split (c # cs) sep =
     (if c = sep then [] # Split cs sep
      else (c # hd (Split cs sep)) # tl (Split cs sep))"

fun Join :: "string list \<Rightarrow> string \<Rightarrow> string" where
  "Join [] sep = []"
| "Join [x] sep = x"
| "Join (x # y # ys) sep = x @ sep @ Join (y # ys) sep"

lemma Split_not_Nil [simp]: "Split s sep \<noteq> []"
  by (cases s) auto

text \<open>Evaluation splits the rest of the string once.\<close>

lemma Split_code [code]:
  "Split [] sep = [[]]"
  "Split (c # cs) sep =
     (case Split cs sep of
        [] \<Rightarrow> []
      | x # xs \<Rightarrow> if c = sep then [] # x # xs else (c # x) # xs)"
  by (auto split: list.split)

lemma Split_no_sep: "sep \<notin> set s \<Longrightarrow> Split s sep = [s]"
  by (induction s) auto

lemma Split_append_sep: "Split (s @ sep # t) sep = Split s sep @ Split t sep"
  by (induction s) (auto simp: hd_append tl_append split: list.splits)

lemma Split_parts: "x \<in> set (Split s sep) \<Longrightarrow> sep \<notin> set x"
proof (induction s arbitrary: x)
  case Nil
  then show ?case by simp
next
  case (Cons c cs)
  have hd: "hd (Split cs sep) \<in> set (Split cs sep)"
    by simp
  have tl: "y \<in> set (tl (Split cs sep)) \<Longrightarrow> y \<in> set (Split cs sep)" for y
    by (meson list.set_sel(2) Split_not_Nil)
  show ?case
    using Cons hd tl by (auto split: if_splits)
qed

lemma Split_chars: "x \<in> set (Split s sep) \<Longrightarrow> set x \<subseteq> set s"
proof (induction s arbitrary: x)
  case Nil
  then show ?case by simp
next
  case (Cons c cs)
  have hd: "set (hd (Split cs sep)) \<subseteq> set cs"
    using Cons.IH by simp
  have tl: "y \<in> set (tl (Split cs sep)) \<Longrightarrow> set y \<subseteq> set cs" for y
    using Cons.IH by (meson list.set_sel(2) Split_not_Nil)
  show ?case
    using Cons.prems Cons.IH tl subsetD [OF hd] by (fastforce split: if_splits)
qed

lemma Join_Cons: "ys \<noteq> [] \<Longrightarrow> Join (x # ys) sep = x @ sep @ Join ys sep"
  by (cases ys) auto

lemma Join_append:
  "xs \<noteq> [] \<Longrightarrow> ys \<noteq> [] \<Longrightarrow> Join (xs @ ys) sep = Join xs sep @ sep @ Join ys sep"
  by (induction xs rule: induct_list012) (auto simp: Join_Cons)

lemma Join_Split [simp]: "Join (Split s sep) [sep] = s"
proof (induction s)
  case Nil
  then show ?case by simp
next
  case (Cons c cs)
  obtain y ys where split: "Split cs sep = y # ys"
    by (cases "Split cs sep") auto
  with Cons show ?case
    by (cases ys) auto
qed

lemma Split_Join:
  assumes "xs \<noteq> []" "\<And>x. x \<in> set xs \<Longrightarrow> sep \<notin> set x"
  shows "Split (Join xs [sep]) sep = xs"
  using assms
proof (induction xs rule: induct_list012)
  case (2 x)
  then show ?case by (simp add: Split_no_sep)
next
  case (3 x y zs)
  then have "Split (Join (y # zs) [sep]) sep = y # zs" by simp
  with 3 show ?case by (simp add: Split_append_sep Split_no_sep)
qed simp

lemma Join_chars: "set (Join xs sep) \<subseteq> (\<Union>x \<in> set xs. set x) \<union> set sep"
  by (induction xs sep rule: Join.induct) auto

section \<open>strconv.Itoa and strconv.Atoi\<close>

definition digit_char :: "nat \<Rightarrow> char" where
  "digit_char d = char_of (48 + d)"

fun nat_str :: "nat \<Rightarrow> string" where
  "nat_str n = (if n < 10 then [digit_char n] else nat_str (n div 10) @ [digit_char (n mod 10)])"

declare nat_str.simps [simp del]

definition Itoa :: "int \<Rightarrow> string" where
  "Itoa i = (if i < 0 then CHR ''-'' # nat_str (nat (- i)) else nat_str (nat i))"

definition digits_value :: "string \<Rightarrow> nat" where
  "digits_value s = foldl (\<lambda>a c. 10 * a + (byte c - 48)) 0 s"

text \<open>
  \<open>strconv.Atoi\<close> on a 64-bit platform: an optional sign, then decimal digits; anything else
  is a syntax error, and a value outside the range of \<open>int\<close> is a range error.
\<close>

definition Atoi :: "string \<Rightarrow> int option" where
  "Atoi s =
     (let neg = (s \<noteq> [] \<and> hd s = CHR ''-'');
          ds = (if s \<noteq> [] \<and> (hd s = CHR ''-'' \<or> hd s = CHR ''+'') then tl s else s)
      in if ds = [] \<or> \<not> list_all is_digit ds then None
         else let v = int (digits_value ds);
                  r = (if neg then - v else v)
              in if - (2 ^ 63) \<le> r \<and> r < 2 ^ 63 then Some r else None)"

lemma digit_char_is_digit: "d < 10 \<Longrightarrow> is_digit (digit_char d)"
  by (simp add: is_digit_def digit_char_def)

lemma digit_char_byte: "d < 10 \<Longrightarrow> byte (digit_char d) = 48 + d"
  by (simp add: digit_char_def)

lemma nat_str_not_Nil [simp]: "nat_str n \<noteq> []"
  by (subst nat_str.simps) simp

lemma nat_str_digits: "list_all is_digit (nat_str n)"
proof (induction n rule: nat_str.induct)
  case (1 n)
  show ?case
  proof (cases "n < 10")
    case True
    then show ?thesis by (subst nat_str.simps) (simp add: digit_char_is_digit)
  next
    case False
    with 1 have "list_all is_digit (nat_str (n div 10))" by simp
    with False show ?thesis
      by (subst nat_str.simps) (simp add: digit_char_is_digit)
  qed
qed

lemma digits_value_snoc: "digits_value (s @ [c]) = 10 * digits_value s + (byte c - 48)"
  by (simp add: digits_value_def)

lemma digits_value_nat_str [simp]: "digits_value (nat_str n) = n"
proof (induction n rule: nat_str.induct)
  case (1 n)
  show ?case
  proof (cases "n < 10")
    case True
    then show ?thesis
      by (subst nat_str.simps) (simp add: digits_value_def digit_char_byte)
  next
    case False
    with 1 have "digits_value (nat_str (n div 10)) = n div 10" by simp
    with False show ?thesis
      by (subst nat_str.simps) (simp add: digits_value_snoc digit_char_byte)
  qed
qed

lemma minus_not_digit [simp]: "\<not> is_digit CHR ''-''" "\<not> is_digit CHR ''+''"
  by (simp_all add: is_digit_def byte_def)

lemma nat_str_hd: "is_digit (hd (nat_str n))"
  using nat_str_digits [of n] by (cases "nat_str n") (auto)

lemma Atoi_digits:
  assumes "list_all is_digit ds" "ds \<noteq> []" "digits_value ds < 2 ^ 63"
  shows "Atoi ds = Some (int (digits_value ds))"
proof -
  have "is_digit (hd ds)" using assms(1,2) by (cases ds) auto
  then have "hd ds \<noteq> CHR ''-''" "hd ds \<noteq> CHR ''+''" by auto
  with assms show ?thesis by (simp add: Atoi_def Let_def)
qed

lemma Atoi_neg_digits:
  assumes "list_all is_digit ds" "ds \<noteq> []" "digits_value ds \<le> 2 ^ 63"
  shows "Atoi (CHR ''-'' # ds) = Some (- int (digits_value ds))"
  using assms by (simp add: Atoi_def Let_def)

lemma Atoi_Itoa:
  assumes "- (2 ^ 63) \<le> i" "i < 2 ^ 63"
  shows "Atoi (Itoa i) = Some i"
proof (cases "i < 0")
  case True
  with assms have "nat (- i) \<le> 2 ^ 63" by (simp add: nat_le_iff)
  with True show ?thesis
    by (simp add: Itoa_def Atoi_neg_digits nat_str_digits)
next
  case False
  with assms have "nat i < 2 ^ 63" by (simp add: nat_less_iff)
  with False show ?thesis
    by (simp add: Itoa_def Atoi_digits nat_str_digits)
qed

lemma Itoa_inject: "Itoa i = Itoa j \<longleftrightarrow> i = j"
proof
  assume eq: "Itoa i = Itoa j"
  have hd: "hd (nat_str n) \<noteq> CHR ''-''" for n
    using nat_str_hd [of n] by auto
  from eq hd have "(i < 0) = (j < 0)"
    by (auto simp: Itoa_def split: if_splits) (metis list.sel(1))+
  with eq have "nat_str (nat \<bar>i\<bar>) = nat_str (nat \<bar>j\<bar>)"
    by (auto simp: Itoa_def split: if_splits)
  then have "nat \<bar>i\<bar> = nat \<bar>j\<bar>"
    by (metis digits_value_nat_str)
  with \<open>(i < 0) = (j < 0)\<close> show "i = j" by linarith
qed simp

lemma Itoa_chars: "c \<in> set (Itoa i) \<Longrightarrow> is_word c \<or> c = CHR ''-''"
  using nat_str_digits by (auto simp: Itoa_def list_all_iff is_word_def split: if_splits)

lemma Itoa_not_Nil [simp]: "Itoa i \<noteq> []"
  by (simp add: Itoa_def)

end
