(* ===== verification/Go_Path.thy ===== *)
theory Go_Path
  imports Go_Strings
begin

text \<open>
  Go's package \<open>path\<close>: \<open>Clean\<close>, \<open>Join\<close> and \<open>Base\<close>, by the lexical rules of its
  documentation (drop empty and \<open>.\<close> elements, let \<open>..\<close> remove the element before it, keep
  the leading slash). The facts below relate them to lists of elements: \<open>abs_path es\<close> is the
  rooted path with the elements \<open>es\<close>, and on lists of plain elements the three functions
  compute with \<open>es\<close> alone.
\<close>

section \<open>path.Clean, path.Join, path.Base\<close>

fun clean_elems :: "bool \<Rightarrow> string list \<Rightarrow> string list \<Rightarrow> string list" where
  "clean_elems rooted out [] = rev out"
| "clean_elems rooted out (e # es) =
     (if e = [] \<or> e = ''.'' then clean_elems rooted out es
      else if e = ''..'' then
        (if out \<noteq> [] \<and> hd out \<noteq> ''..'' then clean_elems rooted (tl out) es
         else if rooted then clean_elems rooted out es
         else clean_elems rooted (e # out) es)
      else clean_elems rooted (e # out) es)"

definition path_Clean :: "string \<Rightarrow> string" where
  "path_Clean p =
     (if p = [] then ''.''
      else let rooted = (hd p = CHR ''/'');
               body = Join (clean_elems rooted [] (Split p CHR ''/'')) ''/''
           in if rooted then CHR ''/'' # body
              else if body = [] then ''.'' else body)"

fun path_Join :: "string list \<Rightarrow> string" where
  "path_Join [] = []"
| "path_Join (e # es) = (if e = [] then path_Join es else path_Clean (Join (e # es) ''/''))"

definition path_Base :: "string \<Rightarrow> string" where
  "path_Base p =
     (if p = [] then ''.''
      else let q = rev (dropWhile (\<lambda>c. c = CHR ''/'') (rev p))
           in if q = [] then ''/'' else last (Split q CHR ''/''))"

section \<open>Plain elements and rooted paths\<close>

definition plain :: "string \<Rightarrow> bool" where
  "plain e \<longleftrightarrow> e \<noteq> [] \<and> CHR ''/'' \<notin> set e \<and> e \<noteq> ''.'' \<and> e \<noteq> ''..''"

definition abs_path :: "string list \<Rightarrow> string" where
  "abs_path es = CHR ''/'' # Join es ''/''"

lemma clean_elems_plain:
  "list_all plain es \<Longrightarrow> clean_elems r out (es @ rest) = clean_elems r (rev es @ out) rest"
  by (induction es arbitrary: out) (auto simp: plain_def)

lemma clean_elems_plain_end [go_path]:
  "list_all plain es \<Longrightarrow> clean_elems r out es = rev out @ es"
  using clean_elems_plain [of es r out "[]"] by simp

lemma clean_elems_empty_elem [go_path]: "clean_elems r out ([] # es) = clean_elems r out es"
  by simp

lemma clean_elems_rooted_plain:
  assumes "list_all plain out" "\<And>e. e \<in> set es \<Longrightarrow> CHR ''/'' \<notin> set e"
  shows "list_all plain (clean_elems True out es)"
  using assms
proof (induction es arbitrary: out)
  case Nil
  then show ?case by (simp add: list_all_iff)
next
  case (Cons e es)
  have tl: "list_all plain (tl out)"
    using Cons.prems(1) by (cases out) auto
  show ?case
    using Cons tl by (auto simp: plain_def [of e])
qed

lemma Join_plain_Nil_iff [simp]: "list_all plain es \<Longrightarrow> Join es ''/'' = [] \<longleftrightarrow> es = []"
  by (cases es rule: remdups_adj.cases) (auto simp: plain_def)

lemma Split_abs_path:
  assumes "list_all plain es"
  shows "Split (abs_path es) CHR ''/'' = [] # (if es = [] then [[]] else es)"
proof (cases "es = []")
  case False
  then have "Split (Join es [CHR ''/'']) CHR ''/'' = es"
    using assms by (intro Split_Join) (auto simp: list_all_iff plain_def)
  with False show ?thesis by (simp add: abs_path_def)
qed (simp add: abs_path_def)

lemma abs_path_inject:
  assumes "list_all plain es" "list_all plain fs"
  shows "abs_path es = abs_path fs \<longleftrightarrow> es = fs"
proof
  assume "abs_path es = abs_path fs"
  then have "Split (abs_path es) CHR ''/'' = Split (abs_path fs) CHR ''/''" by simp
  then show "es = fs"
    using assms by (auto simp: Split_abs_path plain_def split: if_splits)
qed simp

lemma path_Clean_abs [go_path]:
  assumes "list_all plain es"
  shows "path_Clean (abs_path es) = abs_path es"
proof -
  have "clean_elems True [] (Split (abs_path es) CHR ''/'') = es"
    using assms by (simp add: Split_abs_path clean_elems_plain_end)
  then show ?thesis by (simp add: path_Clean_def abs_path_def Let_def)
qed

lemma path_Clean_rooted_elems:
  assumes "p \<noteq> []" "hd p = CHR ''/''"
  obtains es where "list_all plain es" "path_Clean p = abs_path es"
    "es = clean_elems True [] (Split p CHR ''/'')"
proof
  let ?es = "clean_elems True [] (Split p CHR ''/'')"
  show "list_all plain ?es"
    by (rule clean_elems_rooted_plain) (auto dest: Split_parts)
  show "path_Clean p = abs_path ?es"
    using assms by (simp add: path_Clean_def abs_path_def Let_def)
qed simp

text \<open>A clean rooted path is the path of a list of plain elements, and only of that one.\<close>

lemma clean_rooted_iff:
  "path_Clean p = p \<and> p \<noteq> [] \<and> hd p = CHR ''/'' \<longleftrightarrow> (\<exists>es. list_all plain es \<and> p = abs_path es)"
proof
  assume "path_Clean p = p \<and> p \<noteq> [] \<and> hd p = CHR ''/''"
  then show "\<exists>es. list_all plain es \<and> p = abs_path es"
    by (metis path_Clean_rooted_elems)
next
  assume "\<exists>es. list_all plain es \<and> p = abs_path es"
  then show "path_Clean p = p \<and> p \<noteq> [] \<and> hd p = CHR ''/''"
    by (auto simp: path_Clean_abs) (simp_all add: abs_path_def)
qed

section \<open>Relative paths without dots\<close>

lemma clean_elems_no_dots:
  assumes "\<And>e. e \<in> set es \<Longrightarrow> CHR ''.'' \<notin> set e"
  shows "clean_elems r out es = rev out @ filter (\<lambda>e. e \<noteq> []) es"
  using assms
proof (induction es arbitrary: out)
  case (Cons e es)
  have "CHR ''.'' \<notin> set e" using Cons.prems by simp
  then have "e \<noteq> ''.''" "e \<noteq> ''..''" by auto
  with Cons show ?case by simp
qed simp

lemma clean_relative_elems:
  assumes "path_Clean p = p" "p \<noteq> []" "hd p \<noteq> CHR ''/''" "CHR ''.'' \<notin> set p"
  shows "\<exists>es. es \<noteq> [] \<and> list_all plain es \<and> p = Join es ''/''"
proof -
  let ?es = "filter (\<lambda>e. e \<noteq> []) (Split p CHR ''/'')"
  have nodot: "e \<in> set (Split p CHR ''/'') \<Longrightarrow> CHR ''.'' \<notin> set e" for e
    using Split_chars assms(4) by blast
  then have ce: "clean_elems False [] (Split p CHR ''/'') = ?es"
    by (simp add: clean_elems_no_dots)
  have "p \<noteq> ''.''" using assms(4) by auto
  then have p: "p = Join ?es ''/''" and "?es \<noteq> []"
    using assms(1-3) ce by (auto simp: path_Clean_def Let_def split: if_splits)
  moreover have "list_all plain ?es"
    using nodot [of "''.''"] nodot [of "''..''"]
    by (auto simp: list_all_iff plain_def dest: Split_parts)
  ultimately show ?thesis by blast
qed

section \<open>Joining\<close>

lemma Split_Join_concat:
  "xs \<noteq> [] \<Longrightarrow> Split (Join xs ''/'') CHR ''/'' = concat (map (\<lambda>x. Split x CHR ''/'') xs)"
  by (induction xs rule: induct_list012) (auto simp: Split_append_sep)

lemma path_Join_rooted:
  assumes "x \<noteq> []" "hd x = CHR ''/''"
  shows "path_Join (x # xs) =
    abs_path (clean_elems True [] (concat (map (\<lambda>x. Split x CHR ''/'') (x # xs))))"
proof -
  have ne: "Join (x # xs) ''/'' \<noteq> []" and hd: "hd (Join (x # xs) ''/'') = CHR ''/''"
    using assms by (cases xs; simp)+
  show ?thesis
    using assms(1) ne hd
    by (simp add: path_Clean_def abs_path_def Let_def Split_Join_concat del: Join.simps)
qed

lemma Split_plain: "plain e \<Longrightarrow> Split e CHR ''/'' = [e]"
  by (simp add: plain_def Split_no_sep)

lemma Split_plains: "list_all plain es \<Longrightarrow> map (\<lambda>x. Split x CHR ''/'') es = map (\<lambda>e. [e]) es"
  by (induction es) (auto simp: Split_plain)

lemma concat_Split_plains:
  "list_all plain es \<Longrightarrow> concat (map (\<lambda>x. Split x CHR ''/'') es) = es"
  by (simp add: Split_plains concat_map_singleton [where f = id, simplified])

lemma path_Join_abs [go_path]:
  assumes "list_all plain es" "list_all plain fs"
  shows "path_Join (abs_path es # fs) = abs_path (es @ fs)"
proof -
  have "path_Join (abs_path es # fs) =
      abs_path (clean_elems True [] (Split (abs_path es) CHR ''/'' @ fs))"
    using assms by (subst path_Join_rooted) (simp_all add: abs_path_def concat_Split_plains)
  also have "clean_elems True [] (Split (abs_path es) CHR ''/'' @ fs) = es @ fs"
    using assms by (auto simp: Split_abs_path clean_elems_plain clean_elems_plain_end)
  finally show ?thesis .
qed

text \<open>Joining a root with a relative or a rooted part that has only plain elements.\<close>

lemma clean_elems_Split_abs:
  "list_all plain es \<Longrightarrow>
   clean_elems True out (Split (abs_path es) CHR ''/'' @ rest) = clean_elems True (rev es @ out) rest"
  by (auto simp: Split_abs_path clean_elems_plain)

lemma path_Join_abs_blank [go_path]:
  assumes "list_all plain es" "list_all plain fs"
  shows "path_Join (abs_path es # fs @ [[]]) = abs_path (es @ fs)"
proof -
  have "path_Join (abs_path es # fs @ [[]]) =
      abs_path (clean_elems True [] (Split (abs_path es) CHR ''/'' @ fs @ [[]]))"
    using assms by (subst path_Join_rooted) (simp_all add: abs_path_def concat_Split_plains)
  also have "clean_elems True [] (Split (abs_path es) CHR ''/'' @ fs @ [[]]) = es @ fs"
    using assms by (simp add: clean_elems_Split_abs clean_elems_plain)
  finally show ?thesis .
qed

lemma clean_elems_Split_rel:
  assumes "list_all plain es"
  shows "clean_elems True out (Split (Join es ''/'') CHR ''/'' @ rest) =
    clean_elems True (rev es @ out) rest"
proof (cases "es = []")
  case False
  then have "Split (Join es [CHR ''/'']) CHR ''/'' = es"
    using assms by (intro Split_Join) (auto simp: list_all_iff plain_def)
  with assms show ?thesis by (simp add: clean_elems_plain)
qed simp

lemma path_Join_root_elem [go_path]: "plain e \<Longrightarrow> path_Join [''/'', e] = abs_path [e]"
  using path_Join_abs [of "[]" "[e]"] by (simp add: abs_path_def)

lemma path_Base_plain [go_path]:
  assumes "plain e"
  shows "path_Base e = e"
proof -
  from assms have "last e \<noteq> CHR ''/''"
    by (auto simp: plain_def) (metis last_in_set)
  then have "dropWhile (\<lambda>c. c = CHR ''/'') (rev e) = rev e"
    using assms by (cases e rule: rev_cases) (auto simp: plain_def)
  with assms show ?thesis
    by (simp add: path_Base_def Let_def plain_def Split_no_sep)
qed

lemma path_Base_Join_last:
  assumes "list_all plain es" "es \<noteq> []" "p = Join es ''/'' \<or> p = abs_path es"
  shows "path_Base p = last es"
proof -
  obtain fs e where es: "es = fs @ [e]" using assms(2) by (cases es rule: rev_cases) auto
  have e: "plain e" using assms(1) es by simp
  then have last: "e \<noteq> []" "last e \<noteq> CHR ''/''"
    by (auto simp: plain_def) (metis last_in_set)
  have p: "\<exists>q. p = q @ e"
    using assms(3) es by (cases "fs = []") (auto simp: abs_path_def Join_append)
  then have "p \<noteq> []" "last p \<noteq> CHR ''/''" using last by auto
  then have "rev (dropWhile (\<lambda>c. c = CHR ''/'') (rev p)) = p"
    by (cases p rule: rev_cases) auto
  moreover have "last (Split p CHR ''/'') = e"
  proof (cases "p = abs_path es")
    case True
    then show ?thesis using assms(1,2) es by (simp add: Split_abs_path)
  next
    case False
    then have "p = Join es [CHR ''/'']" using assms(3) by simp
    then have "Split p CHR ''/'' = es"
      using assms(1,2) by (auto intro!: Split_Join simp: list_all_iff plain_def)
    then show ?thesis using es by simp
  qed
  ultimately show ?thesis
    using es \<open>p \<noteq> []\<close> by (simp add: path_Base_def Let_def)
qed

section \<open>The elements of a path\<close>

definition path_elems :: "string \<Rightarrow> string list" where
  "path_elems p = filter (\<lambda>e. e \<noteq> []) (Split p CHR ''/'')"

lemma path_elems_abs [simp]: "list_all plain es \<Longrightarrow> path_elems (abs_path es) = es"
  by (auto simp: path_elems_def Split_abs_path list_all_iff plain_def)

lemma path_elems_rel:
  assumes "list_all plain es"
  shows "path_elems (Join es ''/'') = es"
proof (cases "es = []")
  case False
  then have "Split (Join es [CHR ''/'']) CHR ''/'' = es"
    using assms by (intro Split_Join) (auto simp: list_all_iff plain_def)
  with assms show ?thesis by (simp add: path_elems_def list_all_iff plain_def)
qed (simp add: path_elems_def)

lemma path_elems_Nil [simp]: "path_elems [] = []"
  by (simp add: path_elems_def)

lemma clean_rooted_elems:
  assumes "path_Clean p = p" "p \<noteq> []" "hd p = CHR ''/''"
  shows "list_all plain (path_elems p)" "p = abs_path (path_elems p)"
proof -
  obtain es where "list_all plain es" "p = abs_path es"
    using assms clean_rooted_iff by blast
  then show "list_all plain (path_elems p)" "p = abs_path (path_elems p)" by auto
qed

lemma path_Join_root [go_path]:
  assumes "list_all plain bs" "b = [] \<and> bs = [] \<or> b = abs_path bs"
    and "list_all plain cs" "c = abs_path cs \<or> c = Join cs ''/''"
    and "list_all plain es"
  shows "path_Join (''/'' # b # c # es) = abs_path (bs @ cs @ es)"
proof -
  let ?sp = "\<lambda>x. Split x CHR ''/''"
  have "path_Join (''/'' # b # c # es) =
      abs_path (clean_elems True [] (?sp ''/'' @ ?sp b @ ?sp c @ es))"
    using assms(5) by (subst path_Join_rooted) (simp_all add: concat_Split_plains)
  moreover have "clean_elems True [] (?sp ''/'' @ ?sp b @ rest) = clean_elems True (rev bs) rest" for rest
    using assms(1,2) clean_elems_Split_abs [of bs "[]"] by auto
  moreover have "clean_elems True (rev bs) (?sp c @ rest) = clean_elems True (rev cs @ rev bs) rest" for rest
    using assms(3,4) clean_elems_Split_abs clean_elems_Split_rel by blast
  ultimately show ?thesis
    using assms(5) by (simp add: clean_elems_plain_end)
qed

end
