(* ===== verification/Zk_Client.thy ===== *)
theory Zk_Client
  imports Go_Path
begin

text \<open>
  The vendored ZooKeeper client (\<open>vendor/github.com/samuel/go-zookeeper/zk\<close>), as far as
  \<open>zkstore\<close> and \<open>elector\<close> call it: error values and codes, session states, ACLs, \<open>Stat\<close>,
  \<open>Event\<close>, the path check \<open>validatePath\<close>, and the methods of \<open>Conn\<close>. A method validates
  its path and then sends one request and waits for the reply; what the network and the
  servers do between sending and receiving (\<open>Conn.request\<close>) is not under \<open>src/\<close> and is the
  parameter \<open>session\<close>: one function per kind of request over an unspecified state.

  The integers of the wire format keep their width: a znode version is a \<open>32 word\<close>.
\<close>

section \<open>Errors and constants\<close>

datatype zk_error =
    ErrConnectionClosed
  | ErrUnknown
  | ErrAPIError
  | ErrNoNode
  | ErrNoAuth
  | ErrBadVersion
  | ErrNoChildrenForEphemerals
  | ErrNodeExists
  | ErrNotEmpty
  | ErrSessionExpired
  | ErrInvalidACL
  | ErrAuthFailed
  | ErrClosing
  | ErrNothing
  | ErrSessionMoved
  | ErrNoServer
  | ErrInvalidPath
  | ErrIO string \<comment> \<open>any other error of the network or of decoding a reply\<close>

definition errCodeToError :: "(int \<times> zk_error option) list" where
  "errCodeToError =
     [(0, None), (-100, Some ErrAPIError), (-101, Some ErrNoNode), (-102, Some ErrNoAuth),
      (-103, Some ErrBadVersion), (-108, Some ErrNoChildrenForEphemerals),
      (-110, Some ErrNodeExists), (-111, Some ErrNotEmpty), (-112, Some ErrSessionExpired),
      (-114, Some ErrInvalidACL), (-115, Some ErrAuthFailed), (-116, Some ErrClosing),
      (-117, Some ErrNothing), (-118, Some ErrSessionMoved)]"

definition toError :: "int \<Rightarrow> zk_error option" where
  "toError e = (case map_of errCodeToError e of Some err \<Rightarrow> err | None \<Rightarrow> Some ErrUnknown)"

type_synonym zk_state = int

definition StateUnknown :: zk_state where "StateUnknown = -1"
definition StateDisconnected :: zk_state where "StateDisconnected = 0"
definition StateAuthFailed :: zk_state where "StateAuthFailed = 4"
definition StateExpired :: zk_state where "StateExpired = -112"
definition StateConnecting :: zk_state where "StateConnecting = 1"
definition StateConnectedReadOnly :: zk_state where "StateConnectedReadOnly = 5"
definition StateSaslAuthenticated :: zk_state where "StateSaslAuthenticated = 6"
definition StateConnected :: zk_state where "StateConnected = 100"
definition StateHasSession :: zk_state where "StateHasSession = 101"

definition stateNames :: "(zk_state \<times> string) list" where
  "stateNames =
     [(StateUnknown, ''StateUnknown''), (StateDisconnected, ''StateDisconnected''),
      (StateConnectedReadOnly, ''StateConnectedReadOnly''),
      (StateSaslAuthenticated, ''StateSaslAuthenticated''), (StateExpired, ''StateExpired''),
      (StateAuthFailed, ''StateAuthFailed''), (StateConnecting, ''StateConnecting''),
      (StateConnected, ''StateConnected''), (StateHasSession, ''StateHasSession'')]"

definition State_String :: "zk_state \<Rightarrow> string" where
  "State_String st = (case map_of stateNames st of Some name \<Rightarrow> name | None \<Rightarrow> ''Unknown'')"

definition FlagEphemeral :: int32 where "FlagEphemeral = 1"
definition FlagSequence :: int32 where "FlagSequence = 2"

definition PermAll :: int where "PermAll = 0x1f"

record ACL =
  Perms :: int
  Scheme :: string
  ID :: string

definition WorldACL :: "int \<Rightarrow> ACL list" where
  "WorldACL perms = [\<lparr>Perms = perms, Scheme = ''world'', ID = ''anyone''\<rparr>]"

record Stat =
  Czxid :: int64
  Mzxid :: int64
  Ctime :: int64
  Mtime :: int64
  StatVersion :: int32
  Cversion :: int32
  Aversion :: int32
  EphemeralOwner :: int64
  DataLength :: int32
  NumChildren :: int32
  Pzxid :: int64

definition zero_Stat :: Stat where
  "zero_Stat = \<lparr>Czxid = 0, Mzxid = 0, Ctime = 0, Mtime = 0, StatVersion = 0, Cversion = 0,
     Aversion = 0, EphemeralOwner = 0, DataLength = 0, NumChildren = 0, Pzxid = 0\<rparr>"

record zk_event =
  EventType :: int
  EventState :: zk_state
  EventPath :: string
  EventErr :: "zk_error option"
  EventServer :: string

section \<open>UTF-8 decoding\<close>

definition rune_error :: "nat \<times> nat" where
  "rune_error = (0xFFFD, 1)"

definition cont_in :: "nat \<Rightarrow> nat \<Rightarrow> string \<Rightarrow> nat \<Rightarrow> bool" where
  "cont_in lo hi cs k \<longleftrightarrow> k < length cs \<and> lo \<le> byte (cs ! k) \<and> byte (cs ! k) \<le> hi"

fun DecodeRune :: "string \<Rightarrow> nat \<times> nat" where
  "DecodeRune [] = (0xFFFD, 0)"
| "DecodeRune (c # cs) =
     (let b0 = byte c;
          six = (\<lambda>k. byte (cs ! k) - 0x80);
          lo = (if b0 = 0xE0 then 0xA0 else if b0 = 0xF0 then 0x90 else 0x80);
          hi = (if b0 = 0xED then 0x9F else if b0 = 0xF4 then 0x8F else 0xBF)
      in if b0 < 0x80 then (b0, 1)
         else if 0xC2 \<le> b0 \<and> b0 \<le> 0xDF then
           (if cont_in 0x80 0xBF cs 0 then ((b0 - 0xC0) * 64 + six 0, 2) else rune_error)
         else if 0xE0 \<le> b0 \<and> b0 \<le> 0xEF then
           (if cont_in lo hi cs 0 \<and> cont_in 0x80 0xBF cs 1
            then (((b0 - 0xE0) * 64 + six 0) * 64 + six 1, 3) else rune_error)
         else if 0xF0 \<le> b0 \<and> b0 \<le> 0xF4 then
           (if cont_in lo hi cs 0 \<and> cont_in 0x80 0xBF cs 1 \<and> cont_in 0x80 0xBF cs 2
            then ((((b0 - 0xF0) * 64 + six 0) * 64 + six 1) * 64 + six 2, 4) else rune_error)
         else rune_error)"

definition rune_start :: "char \<Rightarrow> bool" where
  "rune_start c \<longleftrightarrow> byte c < 0x80 \<or> 0xC0 \<le> byte c"

definition DecodeLastRune :: "string \<Rightarrow> nat \<times> nat" where
  "DecodeLastRune s =
     (if s = [] then (0xFFFD, 0)
      else if byte (last s) < 0x80 then (byte (last s), 1)
      else let n = length s;
               back = [k \<leftarrow> [2, 3, 4]. k \<le> n \<and> rune_start (s ! (n - k))];
               start = (if back \<noteq> [] then n - hd back else if n < 5 then 0 else n - 5);
               (r, size) = DecodeRune (drop start s)
           in if start + size = n then (r, size) else rune_error)"

lemma DecodeRune_width: "s \<noteq> [] \<Longrightarrow> 0 < snd (DecodeRune s)"
  by (cases s) (auto simp: Let_def rune_error_def)

lemma DecodeRune_shrinks:
  assumes "i < length path" "(r, width) = DecodeRune (drop i path)"
  shows "length path - (i + width) < length path - i"
proof -
  have "0 < width"
    using DecodeRune_width [of "drop i path"] assms by (metis drop_eq_Nil2 linorder_not_le snd_conv)
  with assms(1) show ?thesis by simp
qed

lemma DecodeRune_ascii [zk_client]: "byte c < 0x80 \<Longrightarrow> DecodeRune (c # cs) = (byte c, 1)"
  by (simp add: Let_def)

lemma DecodeLastRune_ascii [zk_client]:
  "byte c < 0x80 \<Longrightarrow> DecodeLastRune (cs @ [c]) = (byte c, 1)"
  by (simp add: DecodeLastRune_def)

declare DecodeRune.simps [simp del]

section \<open>validatePath\<close>

function validate_from :: "string \<Rightarrow> nat \<Rightarrow> nat \<Rightarrow> zk_error option" where
  "validate_from path i w =
     (if i < length path then
        (let (r, width) = DecodeRune (drop i path) in
         if r = 0 then Some ErrInvalidPath
         else if r = 0x2F then
           (if fst (DecodeLastRune (take i path)) = 0x2F then Some ErrInvalidPath
            else validate_from path (i + width) width)
         else if r = 0x2E then
           (let (last, lastWidth) = DecodeLastRune (take i path);
                last' = (if last = 0x2E then fst (DecodeLastRune (take (i - lastWidth) path)) else last)
            in if last' = 0x2F \<and> (i + 1 = length path \<or> fst (DecodeRune (drop (i + w) path)) = 0x2F)
               then Some ErrInvalidPath
               else validate_from path (i + width) width)
         else if (0 \<le> r \<and> r \<le> 0x1F) \<or> (0x7F \<le> r \<and> r \<le> 0x9F) \<or> (0xF000 \<le> r \<and> r \<le> 0xF8FF)
              \<or> (0xFFF0 \<le> r \<and> r < 0xFFFF) then Some ErrInvalidPath
         else validate_from path (i + width) width)
      else None)"
  by pat_completeness auto
termination
  by (relation "measure (\<lambda>(path, i, w). length path - i)") (simp_all add: DecodeRune_shrinks)

declare validate_from.simps [simp del]

definition validatePath :: "string \<Rightarrow> bool \<Rightarrow> zk_error option" where
  "validatePath path isSequential =
     (if path = [] then Some ErrInvalidPath
      else if hd path \<noteq> CHR ''/'' then Some ErrInvalidPath
      else if length path = 1 then None
      else if \<not> isSequential \<and> last path = CHR ''/'' then Some ErrInvalidPath
      else validate_from path 1 0)"

text \<open>
  Every path whose characters are printable ASCII and whose elements are plain passes: the
  check refuses empty elements, \<open>.\<close> and \<open>..\<close>, control characters and a trailing slash.
\<close>

definition printable :: "char \<Rightarrow> bool" where
  "printable c \<longleftrightarrow> 0x20 \<le> byte c \<and> byte c < 0x7F"

lemma byte_slash [simp]: "byte c = 0x2F \<longleftrightarrow> c = CHR ''/''"
  using byte_inject [of c "CHR ''/''"] by (simp add: byte_def)

lemma byte_dot [simp]: "byte c = 0x2E \<longleftrightarrow> c = CHR ''.''"
  using byte_inject [of c "CHR ''.''"] by (simp add: byte_def)

lemma Split_abs_middle:
  assumes "list_all plain es" "abs_path es = u @ CHR ''/'' # e @ v" "CHR ''/'' \<notin> set e"
    "v = [] \<or> (\<exists>v'. v = CHR ''/'' # v')" "es \<noteq> []"
  shows "plain e"
proof -
  have "e \<in> set (Split (e @ v) CHR ''/'')"
    using assms(3,4) by (auto simp: Split_no_sep Split_append_sep)
  moreover have "Split (abs_path es) CHR ''/'' = Split u CHR ''/'' @ Split (e @ v) CHR ''/''"
    using assms(2) by (simp add: Split_append_sep)
  then have "set (Split (e @ v) CHR ''/'') \<subseteq> set es"
    using assms(1,5) by (cases "Split u CHR ''/''") (auto simp: Split_abs_path)
  ultimately show ?thesis using assms(1) by (auto simp: list_all_iff)
qed

lemma validate_from_ascii:
  assumes "list_all printable p" "1 \<le> i" "i < length p"
  shows "validate_from p i w =
    (if p ! i = CHR ''/'' \<and> p ! (i - 1) = CHR ''/'' then Some ErrInvalidPath
     else if p ! i = CHR ''.'' \<and>
       (if p ! (i - 1) = CHR ''.'' then fst (DecodeLastRune (take (i - 1) p)) = 0x2F
        else p ! (i - 1) = CHR ''/'') \<and>
       (i + 1 = length p \<or> fst (DecodeRune (drop (i + w) p)) = 0x2F) then Some ErrInvalidPath
     else validate_from p (i + 1) 1)"
proof -
  have pr: "k < length p \<Longrightarrow> 0x20 \<le> byte (p ! k) \<and> byte (p ! k) < 0x7F" for k
    using assms(1) by (simp add: list_all_length printable_def)
  have "drop i p = p ! i # drop (Suc i) p"
    using assms(3) by (simp add: Cons_nth_drop_Suc)
  then have dec: "DecodeRune (drop i p) = (byte (p ! i), 1)"
    using pr [of i] assms(3) by (simp add: DecodeRune_ascii)
  have "take i p = take (i - 1) p @ [p ! (i - 1)]"
    using assms(2,3) take_Suc_conv_app_nth [of "i - 1" p] by simp
  then have last: "DecodeLastRune (take i p) = (byte (p ! (i - 1)), 1)"
    using pr [of "i - 1"] less_imp_diff_less [OF assms(3), of 1] by (simp add: DecodeLastRune_ascii)
  show ?thesis
    using pr [of i] assms(2,3)
    by (subst validate_from.simps) (auto simp: dec last)
qed

lemma validate_from_plain:
  assumes es: "list_all plain es" "es \<noteq> []" and p: "p = abs_path es"
    and ascii: "list_all printable p"
    and i: "1 \<le> i" "i \<le> length p" and w: "w = 1 \<or> i = 1 \<and> w = 0"
  shows "validate_from p i w = None"
  using i w
proof (induction "length p - i" arbitrary: i w)
  case 0
  then show ?case by (simp add: validate_from.simps)
next
  case (Suc n)
  then have lt: "i < length p" by simp
  then have rec: "validate_from p (i + 1) 1 = None"
    using Suc by simp
  have nth: "drop i p = p ! i # drop (i + 1) p"
    using lt by (simp add: Cons_nth_drop_Suc)
  have prev: "drop (i - 1) p = p ! (i - 1) # drop i p"
    using lt Suc.prems(1) Cons_nth_drop_Suc [of "i - 1" p] by simp
  have rest: "drop (i + 1) p = [] \<or> (\<exists>v. drop (i + 1) p = CHR ''/'' # v)"
    if "i + 1 = length p \<or> fst (DecodeRune (drop (i + w) p)) = 0x2F" "p ! i = CHR ''.''"
  proof (cases "i + 1 = length p \<or> w = 0")
    case True
    with that nth show ?thesis by (auto simp: DecodeRune_ascii byte_def)
  next
    case False
    then have w1: "w = 1" "i + 1 < length p" using Suc.prems(3) lt by auto
    then have "drop (i + 1) p = p ! (i + 1) # drop (i + 2) p"
      by (simp add: Cons_nth_drop_Suc)
    moreover have "byte (p ! (i + 1)) < 0x7F"
      using ascii w1 by (simp add: list_all_length printable_def)
    ultimately show ?thesis
      using that w1 False by (auto simp: DecodeRune_ascii)
  qed
  have bad: "plain e" if "p = u @ CHR ''/'' # e @ v" "CHR ''/'' \<notin> set e"
    "v = [] \<or> (\<exists>v'. v = CHR ''/'' # v')" for u e v
    using Split_abs_middle es p that by metis
  have slash: "\<not> (p ! i = CHR ''/'' \<and> p ! (i - 1) = CHR ''/'')"
  proof
    assume "p ! i = CHR ''/'' \<and> p ! (i - 1) = CHR ''/''"
    then have "p = take (i - 1) p @ CHR ''/'' # [] @ CHR ''/'' # drop (i + 1) p"
      using prev nth by (metis append_Nil append_take_drop_id)
    then show False using bad by (fastforce simp: plain_def)
  qed
  have dot: "\<not> (p ! i = CHR ''.'' \<and> p ! (i - 1) = CHR ''/'' \<and>
       (i + 1 = length p \<or> fst (DecodeRune (drop (i + w) p)) = 0x2F))"
  proof
    assume a: "p ! i = CHR ''.'' \<and> p ! (i - 1) = CHR ''/'' \<and>
       (i + 1 = length p \<or> fst (DecodeRune (drop (i + w) p)) = 0x2F)"
    then have "p = take (i - 1) p @ CHR ''/'' # ''.'' @ drop (i + 1) p"
      using prev nth by (metis append_Cons append_Nil append_take_drop_id)
    then show False using bad rest a by (fastforce simp: plain_def)
  qed
  have dots: "\<not> (p ! i = CHR ''.'' \<and> p ! (i - 1) = CHR ''.'' \<and>
       fst (DecodeLastRune (take (i - 1) p)) = 0x2F \<and>
       (i + 1 = length p \<or> fst (DecodeRune (drop (i + w) p)) = 0x2F))"
  proof
    assume a: "p ! i = CHR ''.'' \<and> p ! (i - 1) = CHR ''.'' \<and>
       fst (DecodeLastRune (take (i - 1) p)) = 0x2F \<and>
       (i + 1 = length p \<or> fst (DecodeRune (drop (i + w) p)) = 0x2F)"
    then have i2: "2 \<le> i"
      using Suc.prems(1) by (cases "i = 1") (auto simp: DecodeLastRune_def)
    then have tk: "take (i - 1) p = take (i - 2) p @ [p ! (i - 2)]"
      using lt take_Suc_conv_app_nth [of "i - 2" p] by (simp add: numeral_2_eq_2 Suc_diff_Suc)
    moreover have "printable (p ! (i - 2))"
      using ascii less_imp_diff_less [OF lt, of 2] by (simp add: list_all_length)
    then have "byte (p ! (i - 2)) < 0x80" by (simp add: printable_def)
    ultimately have "p ! (i - 2) = CHR ''/''"
      using a by (auto simp: DecodeLastRune_ascii)
    then have "p = (take (i - 2) p @ [CHR ''/'']) @ drop (i - 1) p"
      using tk by (metis append_take_drop_id)
    then have "p = take (i - 2) p @ CHR ''/'' # ''..'' @ drop (i + 1) p"
      using prev nth a by simp
    then show False using bad rest a by (fastforce simp: plain_def)
  qed
  show ?case
    using validate_from_ascii [OF ascii Suc.prems(1) lt] slash dot dots rec by auto
qed

lemma validatePath_plain [zk_client]:
  assumes "list_all plain es" "list_all (list_all printable) es"
  shows "validatePath (abs_path es) b = None"
proof (cases "es = []")
  case False
  let ?p = "abs_path es"
  have "set ?p \<subseteq> (\<Union>e \<in> set es. set e) \<union> {CHR ''/''}"
    using Join_chars [of es "''/''"] by (auto simp: abs_path_def)
  moreover have "printable CHR ''/''" by (simp add: printable_def byte_def)
  ultimately have ascii: "list_all printable ?p"
    using assms(2) by (fastforce simp: list_all_iff)
  obtain fs e where fe: "es = fs @ [e]" "plain e"
    using False assms(1) by (cases es rule: rev_cases) auto
  then have "\<exists>q. ?p = q @ e"
    by (cases "fs = []") (auto simp: abs_path_def Join_append)
  then have "last ?p \<noteq> CHR ''/''"
    using fe(2) by (auto simp: plain_def) (metis last_in_set)
  then show ?thesis
    using validate_from_plain [OF assms(1) False refl ascii, of 1 0] assms(1) False
    by (auto simp: validatePath_def abs_path_def)
qed (simp add: validatePath_def abs_path_def)

definition good_elems :: "string list \<Rightarrow> bool" where
  "good_elems es \<longleftrightarrow> list_all plain es \<and> list_all (list_all printable) es"

lemma good_elems_append [simp]: "good_elems (es @ fs) \<longleftrightarrow> good_elems es \<and> good_elems fs"
  by (auto simp: good_elems_def)

lemma good_elems_Cons [simp]:
  "good_elems []" "good_elems (e # es) \<longleftrightarrow> plain e \<and> list_all printable e \<and> good_elems es"
  by (auto simp: good_elems_def)

lemma good_elems_butlast [simp]: "good_elems es \<Longrightarrow> good_elems (butlast es)"
  by (auto simp: good_elems_def list_all_iff dest: in_set_butlastD)

lemma good_elems_valid: "good_elems es \<Longrightarrow> validatePath (abs_path es) b = None"
  by (simp add: good_elems_def validatePath_plain)

lemma good_elems_plain: "good_elems es \<Longrightarrow> list_all plain es"
  by (simp add: good_elems_def)

section \<open>A session\<close>

text \<open>
  One function per request that \<open>Conn.request\<close> sends, over the state \<open>'s\<close> of everything
  behind the connection (the servers, the network, the other clients). A reply is an error
  or the fields of the response struct of \<open>structs.go\<close>.
\<close>

record 's session =
  req_create :: "string \<Rightarrow> bytes \<Rightarrow> int32 \<Rightarrow> ACL list \<Rightarrow> 's \<Rightarrow> (zk_error + string) \<times> 's"
  req_delete :: "string \<Rightarrow> int32 \<Rightarrow> 's \<Rightarrow> (zk_error + unit) \<times> 's"
  req_exists :: "string \<Rightarrow> 's \<Rightarrow> (zk_error + Stat) \<times> 's"
  req_getData :: "string \<Rightarrow> 's \<Rightarrow> (zk_error + bytes \<times> Stat) \<times> 's"
  req_setData :: "string \<Rightarrow> bytes \<Rightarrow> int32 \<Rightarrow> 's \<Rightarrow> (zk_error + Stat) \<times> 's"
  req_getChildren2 :: "string \<Rightarrow> 's \<Rightarrow> (zk_error + string list \<times> Stat) \<times> 's"

section \<open>Methods of Conn\<close>

text \<open>
  Results are Go's result tuples: an error does not replace the other results, which are
  the zero values of the response struct then. A pointer is an option (\<open>None\<close> for \<open>nil\<close>).
\<close>

definition Conn_Children ::
  "'s session \<Rightarrow> string \<Rightarrow> 's \<Rightarrow> (string list \<times> Stat option \<times> zk_error option) \<times> 's" where
  "Conn_Children S path s =
     (case validatePath path False of
        Some e \<Rightarrow> (([], None, Some e), s)
      | None \<Rightarrow>
          (case req_getChildren2 S path s of
             (Inl e, s') \<Rightarrow> (([], Some zero_Stat, Some e), s')
           | (Inr (cs, st), s') \<Rightarrow> ((cs, Some st, None), s')))"

definition Conn_Get ::
  "'s session \<Rightarrow> string \<Rightarrow> 's \<Rightarrow> (bytes \<times> Stat option \<times> zk_error option) \<times> 's" where
  "Conn_Get S path s =
     (case validatePath path False of
        Some e \<Rightarrow> (([], None, Some e), s)
      | None \<Rightarrow>
          (case req_getData S path s of
             (Inl e, s') \<Rightarrow> (([], Some zero_Stat, Some e), s')
           | (Inr (d, st), s') \<Rightarrow> ((d, Some st, None), s')))"

definition Conn_Set ::
  "'s session \<Rightarrow> string \<Rightarrow> bytes \<Rightarrow> int32 \<Rightarrow> 's \<Rightarrow> (Stat option \<times> zk_error option) \<times> 's" where
  "Conn_Set S path data version s =
     (case validatePath path False of
        Some e \<Rightarrow> ((None, Some e), s)
      | None \<Rightarrow>
          (case req_setData S path data version s of
             (Inl e, s') \<Rightarrow> ((Some zero_Stat, Some e), s')
           | (Inr st, s') \<Rightarrow> ((Some st, None), s')))"

definition Conn_Create ::
  "'s session \<Rightarrow> string \<Rightarrow> bytes \<Rightarrow> int32 \<Rightarrow> ACL list \<Rightarrow> 's \<Rightarrow> (string \<times> zk_error option) \<times> 's" where
  "Conn_Create S path data flags acl s =
     (case validatePath path (and flags FlagSequence = FlagSequence) of
        Some e \<Rightarrow> (([], Some e), s)
      | None \<Rightarrow>
          (case req_create S path data flags acl s of
             (Inl e, s') \<Rightarrow> (([], Some e), s')
           | (Inr p, s') \<Rightarrow> ((p, None), s')))"

definition Conn_Delete :: "'s session \<Rightarrow> string \<Rightarrow> int32 \<Rightarrow> 's \<Rightarrow> zk_error option \<times> 's" where
  "Conn_Delete S path version s =
     (case validatePath path False of
        Some e \<Rightarrow> (Some e, s)
      | None \<Rightarrow>
          (case req_delete S path version s of
             (Inl e, s') \<Rightarrow> (Some e, s')
           | (Inr _, s') \<Rightarrow> (None, s')))"

definition Conn_Exists ::
  "'s session \<Rightarrow> string \<Rightarrow> 's \<Rightarrow> (bool \<times> Stat option \<times> zk_error option) \<times> 's" where
  "Conn_Exists S path s =
     (case validatePath path False of
        Some e \<Rightarrow> ((False, None, Some e), s)
      | None \<Rightarrow>
          (case req_exists S path s of
             (Inl e, s') \<Rightarrow>
               (if e = ErrNoNode then ((False, Some zero_Stat, None), s')
                else ((True, Some zero_Stat, Some e), s'))
           | (Inr st, s') \<Rightarrow> ((True, Some st, None), s')))"

section \<open>CreateProtectedEphemeralSequential\<close>

definition protectedPrefix :: string where
  "protectedPrefix = ''_c_''"

definition hex_digit :: "nat \<Rightarrow> char" where
  "hex_digit d = (if d < 10 then char_of (48 + d) else char_of (87 + d))"

definition Sprintf_x :: "bytes \<Rightarrow> string" where
  \<comment> \<open>the verb \<open>%x\<close> on a byte array\<close>
  "Sprintf_x bs = concat (map (\<lambda>c. [hex_digit (byte c div 16), hex_digit (byte c mod 16)]) bs)"

text \<open>
  The search for the node that an interrupted attempt may have created. A child whose name
  has the prefix but not 32 more bytes makes the slice expression panic: that is \<open>None\<close>.
\<close>

fun find_protected :: "string \<Rightarrow> string list \<Rightarrow> string option option" where
  "find_protected guidStr [] = Some None"
| "find_protected guidStr (p # ps) =
     (let pth = last (Split p CHR ''/'') in
      if HasPrefix pth protectedPrefix then
        (if length pth < length protectedPrefix + 32 then None
         else if take 32 (drop (length protectedPrefix) pth) = guidStr then Some (Some p)
         else find_protected guidStr ps)
      else find_protected guidStr ps)"

fun create_protected ::
  "'s session \<Rightarrow> string \<Rightarrow> string \<Rightarrow> string \<Rightarrow> bytes \<Rightarrow> ACL list \<Rightarrow> nat \<Rightarrow> zk_error option \<Rightarrow> 's
   \<Rightarrow> (string \<times> zk_error option) option \<times> 's" where
  "create_protected S guidStr rootPath protectedPath data acl 0 err s = (Some ([], err), s)"
| "create_protected S guidStr rootPath protectedPath data acl (Suc n) _ s =
     (case Conn_Create S protectedPath data (or FlagEphemeral FlagSequence) acl s of
        ((newPath, None), s1) \<Rightarrow> (Some (newPath, None), s1)
      | ((newPath, Some e), s1) \<Rightarrow>
          (if e = ErrSessionExpired then
             create_protected S guidStr rootPath protectedPath data acl n (Some e) s1
           else if e = ErrConnectionClosed then
             (case Conn_Children S rootPath s1 of
                ((children, _, Some e'), s2) \<Rightarrow> (Some ([], Some e'), s2)
              | ((children, _, None), s2) \<Rightarrow>
                  (case find_protected guidStr children of
                     None \<Rightarrow> (None, s2)
                   | Some (Some p) \<Rightarrow> (Some (rootPath @ ''/'' @ p, None), s2)
                   | Some None \<Rightarrow>
                       create_protected S guidStr rootPath protectedPath data acl n (Some e) s2))
           else (Some ([], Some e), s1)))"

text \<open>
  \<open>guid\<close> is what \<open>io.ReadFull(rand.Reader, guid[:16])\<close> delivers: sixteen bytes or an error.
  The outer \<open>None\<close> of the result is a panic.
\<close>

definition Conn_CreateProtectedEphemeralSequential ::
  "'s session \<Rightarrow> (zk_error + bytes) \<Rightarrow> string \<Rightarrow> bytes \<Rightarrow> ACL list \<Rightarrow> 's
   \<Rightarrow> (string \<times> zk_error option) option \<times> 's" where
  "Conn_CreateProtectedEphemeralSequential S guid path data acl s =
     (case validatePath path True of
        Some e \<Rightarrow> (Some ([], Some e), s)
      | None \<Rightarrow>
          (case guid of
             Inl e \<Rightarrow> (Some ([], Some e), s)
           | Inr g \<Rightarrow>
               (let guidStr = Sprintf_x g;
                    parts = Split path CHR ''/'';
                    parts' = butlast parts @ [protectedPrefix @ guidStr @ ''-'' @ last parts];
                    rootPath = Join (butlast parts') ''/'';
                    protectedPath = Join parts' ''/''
                in create_protected S guidStr rootPath protectedPath data acl 3 None s)))"

end
