(* ===== verification/Go_Regexp.thy ===== *)
theory Go_Regexp
  imports Go_Strings
begin

text \<open>
  The part of Go's package \<open>regexp\<close> the source uses: expressions built from one-byte
  classes, sequencing, alternatives and repetition, with or without the anchors \<open>^\<close> and \<open>$\<close>
  (which, outside multi-line mode, stand for the two ends of the text). The meaning of an
  expression is a set of strings (\<open>lang\<close>); matching is executable by derivatives and proved
  to decide that set. All classes of the source are ASCII classes or contain every
  non-newline byte, for which matching bytes and matching UTF-8 runes agree.
\<close>

section \<open>Expressions and their languages\<close>

datatype rexp =
    RZero
  | ROne
  | RChar "char \<Rightarrow> bool"
  | RSeq rexp rexp
  | RAlt rexp rexp
  | RStar rexp

inductive_set star :: "string set \<Rightarrow> string set" for A where
  star_Nil [simp, intro]: "[] \<in> star A"
| star_app [intro]: "u \<in> A \<Longrightarrow> v \<in> star A \<Longrightarrow> u @ v \<in> star A"

fun lang :: "rexp \<Rightarrow> string set" where
  "lang RZero = {}"
| "lang ROne = {[]}"
| "lang (RChar P) = {[c] | c. P c}"
| "lang (RSeq r s) = {u @ v | u v. u \<in> lang r \<and> v \<in> lang s}"
| "lang (RAlt r s) = lang r \<union> lang s"
| "lang (RStar r) = star (lang r)"

definition RPlus :: "rexp \<Rightarrow> rexp" where
  "RPlus r = RSeq r (RStar r)"

definition ROpt :: "rexp \<Rightarrow> rexp" where
  "ROpt r = RAlt ROne r"

fun RRep :: "nat \<Rightarrow> rexp \<Rightarrow> rexp" where
  "RRep 0 r = ROne"
| "RRep (Suc n) r = RSeq r (RRep n r)"

definition RLit :: "char \<Rightarrow> rexp" where
  "RLit c = RChar (\<lambda>d. d = c)"

fun RString :: "string \<Rightarrow> rexp" where
  "RString [] = ROne"
| "RString (c # cs) = RSeq (RLit c) (RString cs)"

definition RAny :: rexp where
  "RAny = RChar (\<lambda>_. True)"

section \<open>Matching by derivatives\<close>

fun nullable :: "rexp \<Rightarrow> bool" where
  "nullable RZero = False"
| "nullable ROne = True"
| "nullable (RChar P) = False"
| "nullable (RSeq r s) = (nullable r \<and> nullable s)"
| "nullable (RAlt r s) = (nullable r \<or> nullable s)"
| "nullable (RStar r) = True"

fun mkSeq :: "rexp \<Rightarrow> rexp \<Rightarrow> rexp" where
  "mkSeq RZero s = RZero"
| "mkSeq ROne s = s"
| "mkSeq r s = RSeq r s"

fun mkAlt :: "rexp \<Rightarrow> rexp \<Rightarrow> rexp" where
  "mkAlt RZero s = s"
| "mkAlt r RZero = r"
| "mkAlt r s = RAlt r s"

fun deriv :: "rexp \<Rightarrow> char \<Rightarrow> rexp" where
  "deriv RZero c = RZero"
| "deriv ROne c = RZero"
| "deriv (RChar P) c = (if P c then ROne else RZero)"
| "deriv (RSeq r s) c =
     (if nullable r then mkAlt (mkSeq (deriv r c) s) (deriv s c) else mkSeq (deriv r c) s)"
| "deriv (RAlt r s) c = mkAlt (deriv r c) (deriv s c)"
| "deriv (RStar r) c = mkSeq (deriv r c) (RStar r)"

fun rmatches :: "rexp \<Rightarrow> string \<Rightarrow> bool" where
  "rmatches r [] = nullable r"
| "rmatches r (c # cs) = rmatches (deriv r c) cs"

lemma lang_mkSeq [simp]: "lang (mkSeq r s) = lang (RSeq r s)"
  by (cases "(r, s)" rule: mkSeq.cases) auto

lemma lang_mkAlt [simp]: "lang (mkAlt r s) = lang (RAlt r s)"
  by (cases "(r, s)" rule: mkAlt.cases) auto

lemma nullable_iff: "nullable r \<longleftrightarrow> [] \<in> lang r"
  by (induction r) auto

lemma star_Cons_decomp:
  assumes "w \<in> star A" "w = c # cs"
  shows "\<exists>u v. c # u \<in> A \<and> v \<in> star A \<and> cs = u @ v"
  using assms
proof (induction arbitrary: c cs rule: star.induct)
  case (star_app u v)
  then show ?case by (cases u) auto
qed simp

lemma lang_deriv: "cs \<in> lang (deriv r c) \<longleftrightarrow> c # cs \<in> lang r"
proof (induction r arbitrary: cs)
  case (RSeq r s)
  have "c # cs \<in> lang (RSeq r s) \<longleftrightarrow>
      (\<exists>u v. c # u \<in> lang r \<and> v \<in> lang s \<and> cs = u @ v) \<or> ([] \<in> lang r \<and> c # cs \<in> lang s)"
    by (auto simp: Cons_eq_append_conv)
  then show ?case
    using RSeq by (auto simp: nullable_iff)
next
  case (RStar r)
  have "c # cs \<in> star (lang r) \<longleftrightarrow> (\<exists>u v. c # u \<in> lang r \<and> v \<in> star (lang r) \<and> cs = u @ v)"
  proof
    assume "c # cs \<in> star (lang r)"
    then show "\<exists>u v. c # u \<in> lang r \<and> v \<in> star (lang r) \<and> cs = u @ v"
      using star_Cons_decomp by blast
  next
    assume "\<exists>u v. c # u \<in> lang r \<and> v \<in> star (lang r) \<and> cs = u @ v"
    then show "c # cs \<in> star (lang r)"
      by (metis append_Cons star.star_app)
  qed
  then show ?case using RStar by auto
qed auto

theorem rmatches_lang: "rmatches r s \<longleftrightarrow> s \<in> lang r"
  by (induction s arbitrary: r) (simp_all add: nullable_iff lang_deriv)

section \<open>regexp.MatchString\<close>

record go_regexp =
  at_begin :: bool \<comment> \<open>the expression starts with \<open>^\<close>\<close>
  at_end :: bool \<comment> \<open>the expression ends with \<open>$\<close>\<close>
  body :: rexp

definition search_rexp :: "go_regexp \<Rightarrow> rexp" where
  "search_rexp re =
     RSeq (if at_begin re then ROne else RStar RAny)
       (RSeq (body re) (if at_end re then ROne else RStar RAny))"

definition MatchString :: "go_regexp \<Rightarrow> string \<Rightarrow> bool" where
  "MatchString re s = rmatches (search_rexp re) s"

lemma star_all: "star {[c] | c. P c} = {s. list_all P s}"
proof (intro set_eqI iffI)
  fix s
  assume "s \<in> star {[c] | c. P c}"
  then show "s \<in> {s. list_all P s}" by (induction rule: star.induct) auto
next
  fix s
  assume "s \<in> {s. list_all P s}"
  then show "s \<in> star {[c] | c. P c}"
  proof (induction s)
    case (Cons c s)
    then have "[c] @ s \<in> star {[c] | c. P c}" by (intro star.star_app) auto
    then show ?case by simp
  qed simp
qed

lemma star_any [simp]: "star (lang RAny) = UNIV"
  using star_all [of "\<lambda>_. True"] by (simp add: RAny_def list_all_iff)

lemma lang_RSeq_RChar: "lang (RSeq (RChar P) r) = {c # v | c v. P c \<and> v \<in> lang r}"
proof (rule set_eqI)
  fix s
  have "(\<exists>u v. s = u @ v \<and> (\<exists>c. u = [c] \<and> P c) \<and> v \<in> lang r) \<longleftrightarrow>
        (\<exists>c v. s = c # v \<and> P c \<and> v \<in> lang r)"
    by (metis append_Cons append_Nil)
  then show "s \<in> lang (RSeq (RChar P) r) \<longleftrightarrow> s \<in> {c # v | c v. P c \<and> v \<in> lang r}"
    by simp
qed

lemma lang_RPlus_RChar [go_match]: "lang (RPlus (RChar P)) = {s. s \<noteq> [] \<and> list_all P s}"
  by (auto simp: RPlus_def lang_RSeq_RChar star_all neq_Nil_conv simp del: lang.simps(4))

lemma lang_RString [simp]: "lang (RString w) = {w}"
  by (induction w) (auto simp: RLit_def lang_RSeq_RChar simp del: lang.simps(4))

lemma lang_ROpt [simp]: "lang (ROpt r) = insert [] (lang r)"
  by (simp add: ROpt_def)

lemma in_lang_RRep [go_match]:
  "s \<in> lang (RRep n (RChar P)) \<longleftrightarrow> length s = n \<and> list_all P s"
proof (induction n arbitrary: s)
  case (Suc n)
  have "s \<in> lang (RRep (Suc n) (RChar P)) \<longleftrightarrow>
      (\<exists>c v. s = c # v \<and> P c \<and> v \<in> lang (RRep n (RChar P)))"
    unfolding RRep.simps lang_RSeq_RChar by simp
  also have "\<dots> \<longleftrightarrow> length s = Suc n \<and> list_all P s"
    unfolding Suc.IH by (cases s) auto
  finally show ?case .
qed auto

lemma MatchString_anchored [go_match]:
  "MatchString \<lparr>at_begin = True, at_end = True, body = r\<rparr> s \<longleftrightarrow> s \<in> lang r"
  by (simp add: MatchString_def rmatches_lang search_rexp_def)

lemma MatchString_unanchored [go_match]:
  "MatchString \<lparr>at_begin = False, at_end = False, body = r\<rparr> s \<longleftrightarrow>
   (\<exists>pre m post. s = pre @ m @ post \<and> m \<in> lang r)"
  by (simp add: MatchString_def rmatches_lang search_rexp_def) blast

lemma MatchString_at_end [go_match]:
  "MatchString \<lparr>at_begin = False, at_end = True, body = r\<rparr> s \<longleftrightarrow>
   (\<exists>pre m. s = pre @ m \<and> m \<in> lang r)"
  by (simp add: MatchString_def rmatches_lang search_rexp_def)

end
