(* ===== verification/Zkstore_Types.thy ===== *)
theory Zkstore_Types
  imports Zk_Client Go_Regexp
begin

text \<open>
  Package \<open>zkstore\<close>, its data and its pure functions: errors (\<open>errors.go\<close>), validation
  (\<open>validate.go\<close>), \<open>Location\<close>, \<open>Version\<close>, \<open>Ident\<close>, \<open>Item\<close> and their \<open>Validate\<close> methods, and
  the mapping of names to buckets (\<open>hash.go\<close>). The hash functions of Go's \<open>crypto\<close> packages
  are parameters: a hasher takes the bytes written to it to an error of \<open>Write\<close> or the digest
  \<open>Sum(nil)\<close>.
\<close>

section \<open>Errors\<close>

datatype store_error =
    ErrIllegalOption
  | ErrVersionConflict
  | ErrNotFound
  | errHashOverflow
  | errBadCategory
  | ZkErr zk_error \<comment> \<open>an error of the ZooKeeper client, returned as it is\<close>
  | ErrNew string \<comment> \<open>errors.New, errors.Errorf, fmt.Errorf\<close>
  | Wrapped string store_error \<comment> \<open>errors.Wrap, errors.Wrapf\<close>
  | Panic string \<comment> \<open>not an error value: the goroutine panics\<close>

definition Wrap :: "store_error option \<Rightarrow> string \<Rightarrow> store_error option" where
  "Wrap err msg = map_option (Wrapped msg) err"

section \<open>Validation\<close>

definition name_char :: "char \<Rightarrow> bool" where
  "name_char c \<longleftrightarrow> is_word c \<or> is_digit c \<or> c = CHR ''_'' \<or> c = CHR ''-''"

definition validNameRE :: go_regexp where
  "validNameRE = \<lparr>at_begin = True, at_end = True, body = RPlus (RChar name_char)\<rparr>"

definition category_char :: "char \<Rightarrow> bool" where
  "category_char c \<longleftrightarrow> c = CHR ''/'' \<or> is_word c \<or> is_digit c \<or> c = CHR ''_'' \<or> c = CHR ''-''"

definition validCategoryRE :: go_regexp where
  "validCategoryRE = \<lparr>at_begin = True, at_end = True, body = RPlus (RChar category_char)\<rparr>"

definition backslash :: string where
  "backslash = [CHR 0x5C]"

definition validNameRE_String :: string where
  "validNameRE_String = ''^['' @ backslash @ ''w'' @ backslash @ ''d_-]+$''"

definition validCategoryRE_String :: string where
  "validCategoryRE_String = ''^[/'' @ backslash @ ''w'' @ backslash @ ''d_-]+$''"

definition ValidateNamed :: "string \<Rightarrow> bool \<Rightarrow> store_error option" where
  "ValidateNamed name required =
     (if TrimSpace name \<noteq> name then Some (ErrNew ''leader or trailing spaces not allowed'')
      else if name = [] then
        (if required then Some (ErrNew ''cannot be blank'') else None)
      else if \<not> MatchString validNameRE name then
        Some (ErrNew (''must match '' @ validNameRE_String))
      else None)"

definition ValidateCategory :: "string \<Rightarrow> store_error option" where
  "ValidateCategory name =
     (if TrimSpace name = [] then Some errBadCategory
      else if \<not> MatchString validCategoryRE name then
        Some (ErrNew (''must match '' @ validCategoryRE_String))
      else if path_Clean name \<noteq> name then Some errBadCategory
      else None)"

section \<open>Location, Version, Ident, Item\<close>

record Location =
  Category :: string
  Name :: string

definition Location_Validate :: "Location \<Rightarrow> store_error option" where
  "Location_Validate l =
     (case ValidateNamed (Name l) True of
        Some e \<Rightarrow> Wrap (Some e) ''invalid name''
      | None \<Rightarrow>
          (case ValidateCategory (Category l) of
             Some e \<Rightarrow> Wrap (Some e) ''invalid category''
           | None \<Rightarrow> None))"

record Version =
  version_int32 :: int32
  hasVersion :: bool

definition Version_Value :: "Version \<Rightarrow> int32 \<times> bool" where
  "Version_Value v = (version_int32 v, hasVersion v)"

definition Version_Clear :: "Version \<Rightarrow> Version" where
  "Version_Clear v = v\<lparr>hasVersion := False\<rparr>"

definition NewVersion :: "int32 \<Rightarrow> Version" where
  "NewVersion v = \<lparr>version_int32 = v, hasVersion = True\<rparr>"

definition zero_Version :: Version where
  \<comment> \<open>the composite literal \<open>Version{}\<close>\<close>
  "zero_Version = \<lparr>version_int32 = 0, hasVersion = False\<rparr>"

record Ident =
  IdentLocation :: Location
  Variant :: string
  IdentVersion :: Version

definition Ident_Validate :: "Ident \<Rightarrow> store_error option" where
  "Ident_Validate i =
     (case Location_Validate (IdentLocation i) of
        Some e \<Rightarrow> Wrap (Some e) ''invalid location''
      | None \<Rightarrow>
          (case ValidateNamed (Variant i) False of
             Some e \<Rightarrow> Wrap (Some e) ''invalid variant''
           | None \<Rightarrow> None))"

definition actualVersion :: "Ident \<Rightarrow> int32" where
  "actualVersion i = (let (v, ok) = Version_Value (IdentVersion i) in if \<not> ok then -1 else v)"

definition MaxDataSize :: nat where
  "MaxDataSize = 1024 * 1024"

record Item =
  ItemIdent :: Ident
  Data :: bytes

definition Item_Validate :: "Item \<Rightarrow> store_error option" where
  "Item_Validate i =
     (case Ident_Validate (ItemIdent i) of
        Some e \<Rightarrow> Some e
      | None \<Rightarrow>
          if length (Data i) > MaxDataSize then Some (ErrNew ''data is greater than 1MB'')
          else None)"

section \<open>Hashing names to buckets\<close>

type_synonym HashProviderFunc = "string \<Rightarrow> store_error + uint64"

text \<open>
  \<open>binary.Uvarint\<close>: seven bits per byte, least significant group first; the second result is
  the number of bytes read, 0 when the buffer ends too early, negative on overflow.
\<close>

fun Uvarint_from :: "nat \<Rightarrow> uint64 \<Rightarrow> nat \<Rightarrow> bytes \<Rightarrow> uint64 \<times> int" where
  "Uvarint_from i x s [] = (0, 0)"
| "Uvarint_from i x s (b # bs) =
     (if byte b < 0x80 then
        (if i > 9 \<or> (i = 9 \<and> byte b > 1) then (0, - (int i + 1))
         else (or x (push_bit s (of_nat (byte b))), int i + 1))
      else Uvarint_from (i + 1) (or x (push_bit s (of_nat (byte b mod 0x80)))) (s + 7) bs)"

definition Uvarint :: "bytes \<Rightarrow> uint64 \<times> int" where
  "Uvarint buf = Uvarint_from 0 0 0 buf"

definition HashProvider :: "(bytes \<Rightarrow> store_error + bytes) option \<Rightarrow> HashProviderFunc option" where
  "HashProvider f =
     (case f of
        None \<Rightarrow> None
      | Some hasher \<Rightarrow>
          Some (\<lambda>s.
            case hasher s of
              Inl err \<Rightarrow> Inl err
            | Inr hash \<Rightarrow>
                (let hash' = (if length hash > 8 then take 8 hash else hash);
                     (y, z) = Uvarint hash'
                 in if z < 0 then Inl errHashOverflow else Inr y)))"

text \<open>
  \<open>int\<close> is 64 bits wide. \<open>%\<close> on \<open>uint64\<close> panics for a zero divisor; the conversion \<open>int(mod)\<close>
  keeps the bits.
\<close>

definition hashBytesToBucket :: "int64 \<Rightarrow> uint64 \<Rightarrow> store_error + int" where
  "hashBytesToBucket bucketCount res =
     (if bucketCount = 0 then Inl (Panic ''integer divide by zero'')
      else Inr (sint (res mod bucketCount)))"

definition bucketFunc :: "int64 \<Rightarrow> HashProviderFunc \<Rightarrow> string \<Rightarrow> store_error + int" where
  "bucketFunc bucketCount f name =
     (case f name of
        Inl err \<Rightarrow> Inl err
      | Inr hash \<Rightarrow> hashBytesToBucket bucketCount hash)"

section \<open>Facts on validation\<close>

lemma name_char_iff: "name_char c \<longleftrightarrow> is_word c \<or> c = CHR ''-''"
  by (auto simp: name_char_def is_word_def)

lemma category_char_iff: "category_char c \<longleftrightarrow> name_char c \<or> c = CHR ''/''"
  by (auto simp: category_char_def name_char_def)

lemma MatchString_validNameRE [go_match]:
  "MatchString validNameRE s \<longleftrightarrow> s \<noteq> [] \<and> list_all name_char s"
  by (simp add: validNameRE_def go_match)

lemma MatchString_validCategoryRE [go_match]:
  "MatchString validCategoryRE s \<longleftrightarrow> s \<noteq> [] \<and> list_all category_char s"
  by (simp add: validCategoryRE_def go_match)

lemma TrimSpace_category_chars: "list_all category_char s \<Longrightarrow> TrimSpace s = s"
  by (intro TrimSpace_word) (auto simp: list_all_iff category_char_iff name_char_iff)

lemma TrimSpace_name_chars: "list_all name_char s \<Longrightarrow> TrimSpace s = s"
  by (intro TrimSpace_category_chars) (auto simp: list_all_iff category_char_iff)

lemma name_char_not_special:
  "\<not> name_char CHR ''/''" "\<not> name_char CHR ''.''" "\<not> category_char CHR ''.''"
  by (simp_all add: category_char_def name_char_def is_word_def is_digit_def is_upper_def is_lower_def byte_def)

lemma name_char_printable: "name_char c \<Longrightarrow> printable c"
  by (auto simp: name_char_iff is_word_def is_digit_def is_upper_def is_lower_def printable_def byte_def)

lemma ValidateNamed_None:
  "ValidateNamed s req = None \<longleftrightarrow> list_all name_char s \<and> (s = [] \<longrightarrow> \<not> req)"
proof (cases "list_all name_char s")
  case True
  then show ?thesis
    by (auto simp: ValidateNamed_def MatchString_validNameRE TrimSpace_name_chars)
next
  case False
  then have "s \<noteq> []" by auto
  with False show ?thesis by (simp add: ValidateNamed_def MatchString_validNameRE)
qed

lemma plain_name: "list_all name_char s \<Longrightarrow> s \<noteq> [] \<Longrightarrow> plain s"
  using name_char_not_special by (auto simp: plain_def list_all_iff)

lemma ValidateCategory_None:
  "ValidateCategory s = None \<longleftrightarrow> s \<noteq> [] \<and> list_all category_char s \<and> path_Clean s = s"
  by (auto simp: ValidateCategory_def MatchString_validCategoryRE TrimSpace_category_chars)

text \<open>The elements of a valid category: it is rooted or relative, and its elements are names.\<close>

lemma valid_category_elems:
  assumes "ValidateCategory c = None"
  shows "list_all plain (path_elems c)" "list_all (list_all name_char) (path_elems c)"
    and "c = abs_path (path_elems c) \<or> c = Join (path_elems c) ''/'' \<and> path_elems c \<noteq> []"
proof -
  have c: "c \<noteq> []" "list_all category_char c" "path_Clean c = c"
    using assms by (auto simp: ValidateCategory_None)
  have nodot: "CHR ''.'' \<notin> set c"
    using c(2) name_char_not_special by (auto simp: list_all_iff)
  obtain es where es: "list_all plain es" "c = abs_path es \<or> c = Join es ''/'' \<and> es \<noteq> []"
  proof (cases "hd c = CHR ''/''")
    case True
    with c clean_rooted_iff [of c] that show ?thesis by blast
  next
    case False
    with c nodot clean_relative_elems [of c] that show ?thesis by blast
  qed
  then have ce: "path_elems c = es" by (auto simp: path_elems_rel)
  with es show "list_all plain (path_elems c)"
    and "c = abs_path (path_elems c) \<or> c = Join (path_elems c) ''/'' \<and> path_elems c \<noteq> []"
    by auto
  show "list_all (list_all name_char) (path_elems c)"
    using c(2) by (fastforce simp: path_elems_def list_all_iff category_char_iff
        dest: Split_chars Split_parts)
qed

section \<open>Facts on hashing\<close>

text \<open>Eight bytes never overflow a varint: the error \<open>errHashOverflow\<close> is unreachable.\<close>

lemma Uvarint_from_short:
  "i + length bs \<le> 9 \<Longrightarrow> 0 \<le> snd (Uvarint_from i x s bs)"
  by (induction i x s bs rule: Uvarint_from.induct) auto

lemma Uvarint_short: "length bs \<le> 8 \<Longrightarrow> 0 \<le> snd (Uvarint bs)"
  unfolding Uvarint_def by (rule Uvarint_from_short) simp

text \<open>
  A digest whose first byte is below 128 is a complete varint: the other bytes do not count.
\<close>

lemma Uvarint_one_byte: "byte b < 0x80 \<Longrightarrow> Uvarint (b # bs) = (of_nat (byte b), 1)"
  by (simp add: Uvarint_def)

lemma HashProvider_no_overflow:
  assumes "HashProvider (Some hasher) = Some f" "f s = Inl e"
  shows "hasher s = Inl e"
proof (cases "hasher s")
  case (Inl e')
  with assms show ?thesis by (auto simp: HashProvider_def)
next
  case (Inr h)
  let ?h = "if length h > 8 then take 8 h else h"
  have "0 \<le> snd (Uvarint ?h)" by (rule Uvarint_short) auto
  with Inr assms show ?thesis
    by (auto simp: HashProvider_def Let_def split: prod.splits if_splits)
qed

lemma bucketFunc_range:
  assumes "0 < sint n" "f name = Inr h"
  shows "\<exists>b. bucketFunc n f name = Inr b \<and> 0 \<le> b \<and> b < sint n"
  using assms sint_mod_bounds [of n h] by (auto simp: bucketFunc_def hashBytesToBucket_def)

end
