(* ===== verification/Zkstore_Store.thy ===== *)
theory Zkstore_Store
  imports Zkstore_Types
begin

text \<open>
  Package \<open>zkstore\<close>, the store: \<open>store.go\<close> and \<open>options.go\<close>. A \<open>Store\<close> holds the session of
  its ZooKeeper connection; every operation takes the state behind the session and returns
  Go's results with the new state. Results that carry an error return the other results
  with it, as the Go code does.
\<close>

section \<open>Store, options and construction\<close>

record 's Store =
  conn :: "'s session"
  basePath :: string
  bucketsZnodeName :: string
  acls :: "ACL list"
  store_bucketFunc :: "string \<Rightarrow> store_error + int"
  hashProviderFunc :: HashProviderFunc
  hashBuckets :: int64
  closeFunc :: "'s \<Rightarrow> store_error option \<times> 's"

record 's Connector =
  Connector_Connect :: "'s \<Rightarrow> (store_error + 's session) \<times> 's"
  Connector_Close :: "'s \<Rightarrow> store_error option \<times> 's"

definition DefaultNumHashBuckets :: int64 where
  "DefaultNumHashBuckets = 256"

definition DefaultBucketsZnodeName :: string where
  "DefaultBucketsZnodeName = ''buckets''"

definition DefaultZKACL :: "ACL list" where
  "DefaultZKACL = WorldACL PermAll"

text \<open>\<open>crypto/md5\<close> is the parameter \<open>md5\<close>: its \<open>Write\<close> never fails.\<close>

definition DefaultHashProviderFunc :: "(bytes \<Rightarrow> bytes) \<Rightarrow> HashProviderFunc" where
  "DefaultHashProviderFunc md5 =
     (case HashProvider (Some (\<lambda>b. Inr (md5 b))) of
        Some f \<Rightarrow> f
      | None \<Rightarrow> (\<lambda>_. Inl (Panic ''call of a nil function'')))"

type_synonym 's StoreOpt = "('s Store \<Rightarrow> store_error option \<times> 's Store) option"

definition StoreOpt_Apply :: "'s StoreOpt \<Rightarrow> 's Store \<Rightarrow> store_error option \<times> 's Store" where
  "StoreOpt_Apply f store = (case f of Some g \<Rightarrow> g store | None \<Rightarrow> (None, store))"

definition optError :: "'s Store \<Rightarrow> store_error option \<times> 's Store" where
  "optError store = (Some ErrIllegalOption, store)"

definition optBucketFunc :: "(string \<Rightarrow> store_error + int) option \<Rightarrow> 's StoreOpt" where
  "optBucketFunc f =
     (case f of
        None \<Rightarrow> None
      | Some g \<Rightarrow> Some (\<lambda>store. (None, store\<lparr>store_bucketFunc := g\<rparr>)))"

definition OptBasePath :: "string \<Rightarrow> 's StoreOpt" where
  "OptBasePath p =
     (if p = [] then None
      else if \<not> HasPrefix p ''/'' then Some optError
      else if path_Clean p \<noteq> p then Some optError
      else Some (\<lambda>store. (None, store\<lparr>basePath := p\<rparr>)))"

definition OptNumHashBuckets :: "int64 \<Rightarrow> 's StoreOpt" where
  "OptNumHashBuckets numBuckets =
     (if numBuckets = 0 then None
      else if sint numBuckets < 0 then Some optError
      else Some (\<lambda>store.
        let store' = store\<lparr>hashBuckets := numBuckets\<rparr>
        in StoreOpt_Apply (optBucketFunc (Some (bucketFunc numBuckets (hashProviderFunc store')))) store'))"

definition OptACL :: "ACL list \<Rightarrow> 's StoreOpt" where
  "OptACL acl = (if length acl = 0 then None else Some (\<lambda>store. (None, store\<lparr>acls := acl\<rparr>)))"

definition OptHashProviderFunc :: "HashProviderFunc option \<Rightarrow> 's StoreOpt" where
  "OptHashProviderFunc f =
     (case f of
        None \<Rightarrow> None
      | Some g \<Rightarrow>
          Some (\<lambda>store.
            let store' = store\<lparr>hashProviderFunc := g\<rparr>
            in StoreOpt_Apply (optBucketFunc (Some (bucketFunc (hashBuckets store') g))) store'))"

definition OptBucketsZnodeName :: "string \<Rightarrow> 's StoreOpt" where
  "OptBucketsZnodeName name =
     (case ValidateNamed name True of
        Some _ \<Rightarrow> Some optError
      | None \<Rightarrow> Some (\<lambda>store. (None, store\<lparr>bucketsZnodeName := name\<rparr>)))"

fun apply_opts :: "'s StoreOpt list \<Rightarrow> 's Store \<Rightarrow> store_error + 's Store" where
  "apply_opts [] store = Inr store"
| "apply_opts (opt # opts) store =
     (case StoreOpt_Apply opt store of
        (Some err, _) \<Rightarrow> Inl err
      | (None, store') \<Rightarrow> apply_opts opts store')"

definition NewStore ::
  "(bytes \<Rightarrow> bytes) \<Rightarrow> 's Connector \<Rightarrow> 's StoreOpt list \<Rightarrow> 's \<Rightarrow> (store_error + 's Store) \<times> 's" where
  "NewStore md5 connector opts s =
     (case Connector_Connect connector s of
        (Inl err, s') \<Rightarrow> (Inl err, s')
      | (Inr c, s') \<Rightarrow>
          (apply_opts opts
             \<lparr>conn = c, basePath = [], bucketsZnodeName = DefaultBucketsZnodeName,
              acls = DefaultZKACL,
              store_bucketFunc = bucketFunc DefaultNumHashBuckets (DefaultHashProviderFunc md5),
              hashProviderFunc = DefaultHashProviderFunc md5,
              hashBuckets = DefaultNumHashBuckets,
              closeFunc = Connector_Close connector\<rparr>, s'))"

definition Store_Close :: "'s Store \<Rightarrow> 's \<Rightarrow> store_error option \<times> 's" where
  "Store_Close st s = closeFunc st s"

section \<open>Paths\<close>

definition bucketsPath :: "'s Store \<Rightarrow> string \<Rightarrow> store_error + string" where
  "bucketsPath st category =
     (if path_Base (path_Clean category) = bucketsZnodeName st then Inl errBadCategory
      else Inr (path_Join [''/'', basePath st, category, bucketsZnodeName st]))"

definition identPath :: "'s Store \<Rightarrow> Ident \<Rightarrow> store_error + string" where
  "identPath st ident =
     (case store_bucketFunc st (Name (IdentLocation ident)) of
        Inl err \<Rightarrow> Inl err
      | Inr bucket \<Rightarrow>
          (case bucketsPath st (Category (IdentLocation ident)) of
             Inl err \<Rightarrow> Inl err
           | Inr bp \<Rightarrow>
               Inr (path_Join [bp, Itoa bucket, Name (IdentLocation ident), Variant ident])))"

section \<open>Put\<close>

definition NoPriorVersion :: int32 where
  "NoPriorVersion = -1"

definition creatingNewItem :: "Item \<Rightarrow> bool" where
  "creatingNewItem item =
     (let (v, isSet) = Version_Value (IdentVersion (ItemIdent item)) in isSet \<and> v = NoPriorVersion)"

definition mustExist :: "'s Store \<Rightarrow> string \<Rightarrow> 's \<Rightarrow> (Stat option \<times> store_error option) \<times> 's" where
  "mustExist st path s =
     (case Conn_Exists (conn st) path s of
        ((ex, stat, err), s') \<Rightarrow>
          ((stat,
            (case err of
               Some e \<Rightarrow> Some (ZkErr e)
             | None \<Rightarrow>
                 if \<not> ex then Some (ErrNew (path @ '' did not exist ''))
                 else if stat = None then Some (ErrNew (''got nil stat for path '' @ path))
                 else None)), s'))"

text \<open>
  The loop of \<open>setFully\<close> over the segments of the path: \<open>n\<close> is the number of segments, \<open>i\<close>
  the index of the first segment of the list and \<open>current\<close> the path before it.
\<close>

fun setFully_loop ::
  "'s Store \<Rightarrow> Item \<Rightarrow> nat \<Rightarrow> nat \<Rightarrow> string \<Rightarrow> string list \<Rightarrow> 's \<Rightarrow> store_error option \<times> 's" where
  "setFully_loop st item n i current [] s = (None, s)"
| "setFully_loop st item n i current (segment # segments) s =
     (let isLast = (i + 1 = n);
          current' = path_Join [current, segment]
      in case Conn_Exists (conn st) current' s of
           ((ex, _, Some e), s1) \<Rightarrow> (Some (Wrapped (''could not check '' @ current') (ZkErr e)), s1)
         | ((ex, _, None), s1) \<Rightarrow>
             if ex then setFully_loop st item n (i + 1) current' segments s1
             else if isLast \<and> 0 \<le> sint (actualVersion (ItemIdent item)) then (Some ErrVersionConflict, s1)
             else
               let isParentOfVersion = (Variant (ItemIdent item) \<noteq> [] \<and> i + 2 = n);
                   nodeData = (if isLast \<or> isParentOfVersion then Data item else [])
               in case Conn_Create (conn st) current' nodeData 0 (acls st) s1 of
                    ((_, err), s2) \<Rightarrow>
                      if err \<noteq> None \<and> err \<noteq> Some ErrNodeExists then (map_option ZkErr err, s2)
                      else setFully_loop st item n (i + 1) current' segments s2)"

definition setFully :: "'s Store \<Rightarrow> Item \<Rightarrow> 's \<Rightarrow> (Stat option \<times> store_error option) \<times> 's" where
  "setFully st item s =
     (case identPath st (ItemIdent item) of
        Inl err \<Rightarrow> ((None, Some err), s)
      | Inr p \<Rightarrow>
          (let segments = Split p CHR ''/'' in
           case setFully_loop st item (length segments) 0 ''/'' segments s of
             (Some err, s1) \<Rightarrow> ((None, Some err), s1)
           | (None, s1) \<Rightarrow>
               (case mustExist st p s1 of
                  ((stat, err), s2) \<Rightarrow> ((stat, Wrap err (p @ '' was not created'')), s2))))"

definition with_version :: "Ident \<Rightarrow> Stat option \<Rightarrow> Ident \<times> store_error option" where
  \<comment> \<open>\<open>item.Ident.Version = NewVersion(stat.Version); return nil\<close>\<close>
  "with_version ident stat =
     (case stat of
        Some st \<Rightarrow> (ident\<lparr>IdentVersion := NewVersion (StatVersion st)\<rparr>, None)
      | None \<Rightarrow> (ident, Some (Panic ''nil pointer dereference'')))"

definition Store_Put :: "'s Store \<Rightarrow> Item \<Rightarrow> 's \<Rightarrow> (Ident \<times> store_error option) \<times> 's" where
  "Store_Put st item s =
     (let ident = ItemIdent item in
      case Item_Validate item of
        Some err \<Rightarrow> ((ident, Some err), s)
      | None \<Rightarrow>
        (case identPath st ident of
           Inl err \<Rightarrow> ((ident, Some err), s)
         | Inr p \<Rightarrow>
           if creatingNewItem item then
             (case Conn_Exists (conn st) p s of
                ((ex, _, Some e), s1) \<Rightarrow> ((ident, Some (ZkErr e)), s1)
              | ((ex, _, None), s1) \<Rightarrow>
                  if ex then ((ident, Some ErrVersionConflict), s1)
                  else (case setFully st item s1 of
                          ((stat, Some err), s2) \<Rightarrow> ((ident, Some err), s2)
                        | ((stat, None), s2) \<Rightarrow> (with_version ident stat, s2)))
           else
             (case Conn_Set (conn st) p (Data item) (actualVersion ident) s of
                ((stat, Some e), s1) \<Rightarrow>
                  if e = ErrNoNode then
                    (case setFully st item s1 of
                       ((stat, Some err), s2) \<Rightarrow> ((ident, Some err), s2)
                     | ((stat, None), s2) \<Rightarrow> (with_version ident stat, s2))
                  else if e = ErrBadVersion then ((ident, Some ErrVersionConflict), s1)
                  else ((ident, Some (ZkErr e)), s1)
              | ((None, None), s1) \<Rightarrow> ((ident, Some (ErrNew (''could not stat '' @ p))), s1)
              | ((Some stat, None), s1) \<Rightarrow> (with_version ident (Some stat), s1))))"

section \<open>Get, Variants, Delete, List\<close>

definition zero_Location :: Location where
  "zero_Location = \<lparr>Category = [], Name = []\<rparr>"

definition zero_Ident :: Ident where
  "zero_Ident = \<lparr>IdentLocation = zero_Location, Variant = [], IdentVersion = zero_Version\<rparr>"

definition zero_Item :: Item where
  "zero_Item = \<lparr>ItemIdent = zero_Ident, Data = []\<rparr>"

definition Store_Get :: "'s Store \<Rightarrow> Ident \<Rightarrow> 's \<Rightarrow> (Item \<times> store_error option) \<times> 's" where
  "Store_Get st ident s =
     (case Ident_Validate ident of
        Some err \<Rightarrow> ((zero_Item, Some err), s)
      | None \<Rightarrow>
        (case identPath st ident of
           Inl err \<Rightarrow> ((zero_Item, Some err), s)
         | Inr p \<Rightarrow>
           (case Conn_Get (conn st) p s of
              ((_, _, Some e), s1) \<Rightarrow>
                ((zero_Item, Some (if e = ErrNoNode then ErrNotFound else ZkErr e)), s1)
            | ((data, None, None), s1) \<Rightarrow>
                ((\<lparr>ItemIdent = ident, Data = data\<rparr>, Some (Panic ''nil pointer dereference'')), s1)
            | ((data, Some stat, None), s1) \<Rightarrow>
                ((\<lparr>ItemIdent = ident\<lparr>IdentVersion := NewVersion (StatVersion stat)\<rparr>, Data = data\<rparr>, None),
                 s1))))"

definition Store_Variants :: "'s Store \<Rightarrow> Location \<Rightarrow> 's \<Rightarrow> (string list \<times> store_error option) \<times> 's" where
  "Store_Variants st location s =
     (case Location_Validate location of
        Some err \<Rightarrow> (([], Some err), s)
      | None \<Rightarrow>
        (case identPath st \<lparr>IdentLocation = location, Variant = [], IdentVersion = zero_Version\<rparr> of
           Inl err \<Rightarrow> (([], Some err), s)
         | Inr p \<Rightarrow>
           (case Conn_Children (conn st) p s of
              ((variants, _, Some e), s1) \<Rightarrow>
                ((variants, Some (if e = ErrNoNode then ErrNotFound else ZkErr e)), s1)
            | ((variants, _, None), s1) \<Rightarrow> ((variants, None), s1))))"

definition delete_result :: "zk_error option \<Rightarrow> store_error option" where
  \<comment> \<open>the \<open>switch err\<close> at the end of \<open>deleteItem\<close> and \<open>deleteVariant\<close>\<close>
  "delete_result err =
     (case err of
        None \<Rightarrow> None
      | Some e \<Rightarrow>
          if e = ErrNoNode then None
          else if e = ErrBadVersion then Some ErrVersionConflict
          else Some (ZkErr e))"

definition deleteVariant :: "'s Store \<Rightarrow> Ident \<Rightarrow> 's \<Rightarrow> store_error option \<times> 's" where
  "deleteVariant st ident s =
     (case identPath st ident of
        Inl err \<Rightarrow> (Some err, s)
      | Inr p \<Rightarrow>
          (case Conn_Delete (conn st) p (actualVersion ident) s of
             (err, s1) \<Rightarrow> (delete_result err, s1)))"

fun deleteVariants :: "'s Store \<Rightarrow> Ident \<Rightarrow> string list \<Rightarrow> 's \<Rightarrow> store_error option \<times> 's" where
  \<comment> \<open>the loop of \<open>deleteItem\<close>\<close>
  "deleteVariants st ident [] s = (None, s)"
| "deleteVariants st ident (v # vs) s =
     (case deleteVariant st (ident\<lparr>Variant := v, IdentVersion := zero_Version\<rparr>) s of
        (Some err, s1) \<Rightarrow> (Some err, s1)
      | (None, s1) \<Rightarrow> deleteVariants st ident vs s1)"

definition deleteItem :: "'s Store \<Rightarrow> Ident \<Rightarrow> 's \<Rightarrow> store_error option \<times> 's" where
  "deleteItem st ident s =
     (case Store_Variants st (IdentLocation ident) s of
        ((variants, Some err), s1) \<Rightarrow>
          if err = ErrNotFound then (None, s1) else (Some err, s1)
      | ((variants, None), s1) \<Rightarrow>
          (case deleteVariants st ident variants s1 of
             (Some err, s2) \<Rightarrow> (Some err, s2)
           | (None, s2) \<Rightarrow>
               (case identPath st ident of
                  Inl err \<Rightarrow> (Some err, s2)
                | Inr p \<Rightarrow>
                    (case Conn_Delete (conn st) p (actualVersion ident) s2 of
                       (err, s3) \<Rightarrow> (delete_result err, s3)))))"

definition Store_Delete :: "'s Store \<Rightarrow> Ident \<Rightarrow> 's \<Rightarrow> store_error option \<times> 's" where
  "Store_Delete st ident s =
     (case Ident_Validate ident of
        Some err \<Rightarrow> (Some err, s)
      | None \<Rightarrow> if Variant ident \<noteq> [] then deleteVariant st ident s else deleteItem st ident s)"

text \<open>The loop of \<open>List\<close> over the buckets; the locations found before an error are returned with it.\<close>

fun List_loop ::
  "'s Store \<Rightarrow> string \<Rightarrow> string \<Rightarrow> Location list \<Rightarrow> string list \<Rightarrow> 's
   \<Rightarrow> (Location list \<times> store_error option) \<times> 's" where
  "List_loop st category bp locations [] s = ((locations, None), s)"
| "List_loop st category bp locations (bucket # buckets) s =
     (case Conn_Children (conn st) (path_Join [bp, bucket]) s of
        ((_, _, Some e), s1) \<Rightarrow>
          if e = ErrNoNode then List_loop st category bp locations buckets s1
          else ((locations, Some (ZkErr e)), s1)
      | ((children, _, None), s1) \<Rightarrow>
          List_loop st category bp
            (locations @ map (\<lambda>child. \<lparr>Category = category, Name = path_Base child\<rparr>) children) buckets s1)"

definition Store_List :: "'s Store \<Rightarrow> string \<Rightarrow> 's \<Rightarrow> (Location list \<times> store_error option) \<times> 's" where
  "Store_List st category s =
     (case ValidateCategory category of
        Some err \<Rightarrow> (([], Wrap (Some err) ''invalid category''), s)
      | None \<Rightarrow>
        (case bucketsPath st category of
           Inl err \<Rightarrow> (([], Some err), s)
         | Inr bp \<Rightarrow>
           (case Conn_Children (conn st) bp s of
              ((_, _, Some e), s1) \<Rightarrow>
                (([], Some (if e = ErrNoNode then ErrNotFound else ZkErr e)), s1)
            | ((buckets, _, None), s1) \<Rightarrow>
                if length buckets = 0 then (([], None), s1)
                else List_loop st category bp [] buckets s1)))"

end
