(* ===== verification/Zkstore_Paths.thy ===== *)
theory Zkstore_Paths
  imports Zkstore_Store
begin

text \<open>
  The configuration invariant of a store and the znode paths it generates. \<open>wf_store\<close> is what
  \<open>NewStore\<close> establishes for every list of exported options. Under it, the path of a valid
  ident is described by a list of elements, and different idents have different paths.
\<close>

section \<open>The configuration invariant\<close>

definition wf_store :: "'s Store \<Rightarrow> bool" where
  "wf_store st \<longleftrightarrow>
     0 < sint (hashBuckets st) \<and>
     store_bucketFunc st = bucketFunc (hashBuckets st) (hashProviderFunc st) \<and>
     ValidateNamed (bucketsZnodeName st) True = None \<and>
     (basePath st = [] \<or> HasPrefix (basePath st) ''/'' \<and> path_Clean (basePath st) = basePath st) \<and>
     acls st \<noteq> []"

text \<open>The options a client of the package can build.\<close>

definition exported_opt :: "'s StoreOpt \<Rightarrow> bool" where
  "exported_opt opt \<longleftrightarrow>
     opt = None \<or> (\<exists>p. opt = OptBasePath p) \<or> (\<exists>n. opt = OptNumHashBuckets n) \<or>
     (\<exists>acl. opt = OptACL acl) \<or> (\<exists>f. opt = OptHashProviderFunc f) \<or>
     (\<exists>name. opt = OptBucketsZnodeName name)"

lemma sint_pos: "n \<noteq> 0 \<Longrightarrow> \<not> sint n < 0 \<Longrightarrow> 0 < sint (n :: int64)"
  by (metis linorder_neqE_linordered_idom signed_eq_0_iff)

lemma exported_opt_wf:
  assumes "exported_opt opt" "wf_store st" "StoreOpt_Apply opt st = (None, st')"
  shows "wf_store st' \<and> conn st' = conn st \<and> closeFunc st' = closeFunc st"
  using assms
  by (auto simp: exported_opt_def OptBasePath_def OptNumHashBuckets_def OptACL_def
      OptHashProviderFunc_def OptBucketsZnodeName_def StoreOpt_Apply_def optBucketFunc_def
      optError_def wf_store_def Let_def
      intro: sint_pos split: if_splits option.splits)

lemma apply_opts_wf:
  assumes "list_all exported_opt opts" "wf_store st" "apply_opts opts st = Inr st'"
  shows "wf_store st' \<and> conn st' = conn st \<and> closeFunc st' = closeFunc st"
  using assms
proof (induction opts arbitrary: st)
  case (Cons opt opts)
  obtain st1 where st1: "StoreOpt_Apply opt st = (None, st1)" "apply_opts opts st1 = Inr st'"
    using Cons.prems(3) by (auto split: prod.splits option.splits)
  with Cons.prems have "wf_store st1 \<and> conn st1 = conn st \<and> closeFunc st1 = closeFunc st"
    by (intro exported_opt_wf) auto
  with Cons.IH [of st1] Cons.prems(1) st1(2) show ?case by auto
qed simp

lemma default_store_wf:
  "wf_store \<lparr>conn = c, basePath = [], bucketsZnodeName = DefaultBucketsZnodeName,
     acls = DefaultZKACL, store_bucketFunc = bucketFunc DefaultNumHashBuckets f,
     hashProviderFunc = f, hashBuckets = DefaultNumHashBuckets, closeFunc = cl\<rparr>"
proof -
  have "list_all name_char ''buckets''" by code_simp
  then show ?thesis
    by (simp add: wf_store_def DefaultNumHashBuckets_def DefaultBucketsZnodeName_def DefaultZKACL_def
        WorldACL_def ValidateNamed_None)
qed

lemma NewStore_wf:
  assumes "list_all exported_opt opts" "NewStore md5 connector opts s = (Inr st, s')"
  shows "wf_store st \<and> closeFunc st = Connector_Close connector"
  using assms apply_opts_wf [OF _ default_store_wf]
  by (fastforce simp: NewStore_def split: prod.splits sum.splits)

section \<open>The elements of the generated paths\<close>

definition base_elems :: "'s Store \<Rightarrow> string list" where
  "base_elems st = path_elems (basePath st)"

definition buckets_elems :: "'s Store \<Rightarrow> string \<Rightarrow> string list" where
  "buckets_elems st category = base_elems st @ path_elems category @ [bucketsZnodeName st]"

definition item_elems :: "'s Store \<Rightarrow> Location \<Rightarrow> int \<Rightarrow> string list" where
  "item_elems st l bucket = buckets_elems st (Category l) @ [Itoa bucket, Name l]"

definition ident_elems :: "'s Store \<Rightarrow> Ident \<Rightarrow> int \<Rightarrow> string list" where
  "ident_elems st ident bucket =
     item_elems st (IdentLocation ident) bucket @ (if Variant ident = [] then [] else [Variant ident])"

lemma wf_store_base:
  assumes "wf_store st"
  shows "list_all plain (base_elems st)"
    and "basePath st = [] \<and> base_elems st = [] \<or> basePath st = abs_path (base_elems st)"
proof -
  have "basePath st = [] \<or> basePath st \<noteq> [] \<and> hd (basePath st) = CHR ''/'' \<and>
      path_Clean (basePath st) = basePath st"
    using assms by (cases "basePath st") (auto simp: wf_store_def HasPrefix_def)
  then show "list_all plain (base_elems st)"
    "basePath st = [] \<and> base_elems st = [] \<or> basePath st = abs_path (base_elems st)"
    using clean_rooted_elems [of "basePath st"] by (auto simp: base_elems_def)
qed

lemma wf_store_buckets_name: "wf_store st \<Longrightarrow> list_all name_char (bucketsZnodeName st) \<and> bucketsZnodeName st \<noteq> []"
  by (auto simp: wf_store_def ValidateNamed_None)

lemma Base_Clean_category:
  assumes "ValidateCategory c = None" "list_all name_char b" "b \<noteq> []"
  shows "path_Base (path_Clean c) = b \<longleftrightarrow> path_elems c \<noteq> [] \<and> last (path_elems c) = b"
proof -
  have clean: "path_Clean c = c" using assms(1) by (simp add: ValidateCategory_None)
  note ce = valid_category_elems [OF assms(1)]
  show ?thesis
  proof (cases "path_elems c = []")
    case True
    with ce(3) have "c = ''/''" by (auto simp: abs_path_def)
    then have "path_Base c = ''/''" by (simp add: path_Base_def)
    moreover have "b \<noteq> ''/''" using assms(2) name_char_not_special by auto
    ultimately show ?thesis using True clean by auto
  next
    case False
    then have "path_Base c = last (path_elems c)"
      using path_Base_Join_last [of "path_elems c" c] ce by blast
    with False clean show ?thesis by simp
  qed
qed

lemma bucketsPath_elems [store_path]:
  assumes "wf_store st" "ValidateCategory c = None"
  shows "bucketsPath st c =
    (if path_elems c \<noteq> [] \<and> last (path_elems c) = bucketsZnodeName st then Inl errBadCategory
     else Inr (abs_path (buckets_elems st c)))"
proof -
  have B: "list_all name_char (bucketsZnodeName st)" "bucketsZnodeName st \<noteq> []"
    using wf_store_buckets_name [OF assms(1)] by auto
  have "path_Join [''/'', basePath st, c, bucketsZnodeName st] = abs_path (buckets_elems st c)"
    unfolding buckets_elems_def
    using wf_store_base [OF assms(1)] valid_category_elems [OF assms(2)] plain_name [OF B]
    by (intro path_Join_root) auto
  then show ?thesis
    by (auto simp: bucketsPath_def Base_Clean_category [OF assms(2) B])
qed

lemma Itoa_name_chars: "list_all name_char (Itoa i)"
  by (auto simp: list_all_iff name_char_iff dest: Itoa_chars)

lemma plain_Itoa: "plain (Itoa i)"
  by (rule plain_name) (simp_all add: Itoa_name_chars)

lemma valid_location_parts:
  assumes "Location_Validate l = None"
  shows "ValidateCategory (Category l) = None" "list_all name_char (Name l)" "Name l \<noteq> []"
  using assms
  by (auto simp: Location_Validate_def ValidateNamed_None Wrap_def split: option.splits)

lemma valid_ident_location: "Ident_Validate ident = None \<Longrightarrow> Location_Validate (IdentLocation ident) = None"
  by (auto simp: Ident_Validate_def Wrap_def split: option.splits)

lemma valid_ident_parts:
  assumes "Ident_Validate ident = None"
  shows "ValidateCategory (Category (IdentLocation ident)) = None"
    "list_all name_char (Name (IdentLocation ident))" "Name (IdentLocation ident) \<noteq> []"
    "list_all name_char (Variant ident)"
  using assms
  by (auto simp: Ident_Validate_def Location_Validate_def ValidateNamed_None Wrap_def
      split: option.splits)

lemma plain_buckets_elems:
  assumes "wf_store st" "ValidateCategory c = None"
  shows "list_all plain (buckets_elems st c)"
  unfolding buckets_elems_def
  using wf_store_base [OF assms(1)] valid_category_elems [OF assms(2)]
    plain_name wf_store_buckets_name [OF assms(1)] by auto

lemma plain_ident_elems:
  assumes "wf_store st" "Ident_Validate ident = None"
  shows "list_all plain (ident_elems st ident b)"
  using plain_buckets_elems [OF assms(1)] valid_ident_parts [OF assms(2)] plain_name plain_Itoa
  by (auto simp: ident_elems_def item_elems_def)

definition bad_category :: "'s Store \<Rightarrow> string \<Rightarrow> bool" where
  "bad_category st c \<longleftrightarrow> path_elems c \<noteq> [] \<and> last (path_elems c) = bucketsZnodeName st"

lemma identPath_plain:
  assumes "wf_store st" "Location_Validate (IdentLocation ident) = None"
    and variant: "Variant ident = [] \<or> plain (Variant ident)"
  shows "identPath st ident =
    (case store_bucketFunc st (Name (IdentLocation ident)) of
       Inl err \<Rightarrow> Inl err
     | Inr b \<Rightarrow>
         if bad_category st (Category (IdentLocation ident)) then Inl errBadCategory
         else Inr (abs_path (ident_elems st ident b)))"
proof -
  let ?l = "IdentLocation ident"
  note v = valid_location_parts [OF assms(2)]
  have n: "plain (Name ?l)" using v plain_name by blast
  have pj: "path_Join [abs_path (buckets_elems st (Category ?l)), Itoa b, Name ?l, Variant ident]
      = abs_path (ident_elems st ident b)" for b
  proof (cases "Variant ident = []")
    case True
    have "path_Join (abs_path (buckets_elems st (Category ?l)) # [Itoa b, Name ?l] @ [[]])
        = abs_path (buckets_elems st (Category ?l) @ [Itoa b, Name ?l])"
      using n plain_Itoa plain_buckets_elems assms(1) v(1) by (intro path_Join_abs_blank) auto
    then show ?thesis by (simp add: True ident_elems_def item_elems_def)
  next
    case False
    then have "plain (Variant ident)" using variant by blast
    then show ?thesis
      using path_Join_abs [of "buckets_elems st (Category ?l)" "[Itoa b, Name ?l, Variant ident]"]
        plain_buckets_elems [OF assms(1) v(1)] n plain_Itoa False
      by (simp add: ident_elems_def item_elems_def)
  qed
  show ?thesis
    by (simp add: identPath_def bucketsPath_elems [OF assms(1) v(1)] pj bad_category_def
        split: sum.splits del: path_Join.simps)
qed

lemma identPath_elems [store_path]:
  assumes "wf_store st" "Ident_Validate ident = None"
  shows "identPath st ident =
    (case store_bucketFunc st (Name (IdentLocation ident)) of
       Inl err \<Rightarrow> Inl err
     | Inr b \<Rightarrow>
         if bad_category st (Category (IdentLocation ident)) then Inl errBadCategory
         else Inr (abs_path (ident_elems st ident b)))"
  using assms valid_ident_location [OF assms(2)] valid_ident_parts(4) [OF assms(2)] plain_name
  by (intro identPath_plain) blast+

section \<open>The node of an ident\<close>

text \<open>
  The elements of the znode that holds an ident, \<open>None\<close> when the hash function fails on the
  name or the category ends in the name of the buckets node.
\<close>

definition store_node :: "'s Store \<Rightarrow> Ident \<Rightarrow> string list option" where
  "store_node st ident =
     (case store_bucketFunc st (Name (IdentLocation ident)) of
        Inl err \<Rightarrow> None
      | Inr b \<Rightarrow>
          if bad_category st (Category (IdentLocation ident)) then None
          else Some (ident_elems st ident b))"

lemma store_node_path:
  assumes "wf_store st" "Location_Validate (IdentLocation ident) = None"
    and "Variant ident = [] \<or> plain (Variant ident)" "store_node st ident = Some es"
  shows "identPath st ident = Inr (abs_path es)"
  using assms(4) identPath_plain [OF assms(1-3)]
  by (auto simp: store_node_def split: sum.splits if_splits)

lemma store_node_good:
  assumes "wf_store st" "list_all printable (basePath st)" "Ident_Validate ident = None"
    and "store_node st ident = Some es"
  shows "identPath st ident = Inr (abs_path es)" "good_elems es" "es \<noteq> []"
proof -
  obtain b where es: "es = ident_elems st ident b"
    using assms(4) by (auto simp: store_node_def split: sum.splits if_splits)
  note v = valid_ident_parts [OF assms(3)]
  have names: "list_all (list_all name_char) (path_elems (Category (IdentLocation ident)) @
      [bucketsZnodeName st, Itoa b, Name (IdentLocation ident)] @ (if Variant ident = [] then [] else [Variant ident]))"
    using v valid_category_elems(2) [OF v(1)] wf_store_buckets_name [OF assms(1)] Itoa_name_chars by simp
  then have "list_all (list_all printable) (path_elems (Category (IdentLocation ident)) @
      [bucketsZnodeName st, Itoa b, Name (IdentLocation ident)] @ (if Variant ident = [] then [] else [Variant ident]))"
    by (auto simp: list_all_iff name_char_printable)
  moreover have "list_all (list_all printable) (base_elems st)"
    using assms(2) Split_chars [of _ "basePath st" "CHR ''/''"]
    by (auto simp: base_elems_def path_elems_def list_all_iff)
  ultimately show "good_elems es"
    using plain_ident_elems [OF assms(1,3)]
    by (simp add: good_elems_def es) (simp add: ident_elems_def item_elems_def buckets_elems_def)
  show "identPath st ident = Inr (abs_path es)"
    using assms valid_ident_location [OF assms(3)] v(4) plain_name
    by (intro store_node_path) blast+
  show "es \<noteq> []" by (simp add: es ident_elems_def item_elems_def)
qed

section \<open>Different idents have different paths\<close>

lemma tail_shift: "x @ [m, p, q, r] = y @ [m, p', q'] \<Longrightarrow> y = x @ [m]"
  using append_eq_append_conv [of "[p, q, r]" "[m, p', q']" "x @ [m]" y] by auto

lemma tail_same: "x @ [m, p, q] @ v = y @ [m, p', q'] @ v' \<Longrightarrow> length v = length v' \<Longrightarrow>
    x = y \<and> p = p' \<and> q = q' \<and> v = v'"
  using append_eq_append_conv [of "[m, p, q] @ v" "[m, p', q'] @ v'" x y] by auto

lemma tail_variants:
  assumes eq: "x @ [m, p, q] @ (if v = [] then [] else [v]) = y @ [m, p', q'] @ (if v' = [] then [] else [v'])"
    and x: "\<not> (x \<noteq> [] \<and> last x = m)" and y: "\<not> (y \<noteq> [] \<and> last y = m)"
  shows "x = y \<and> p = p' \<and> q = q' \<and> v = v'"
proof (cases "v = []"; cases "v' = []")
  assume "v = []" "v' \<noteq> []"
  with eq tail_shift [of y m p' q' v' x p q] x show ?thesis by auto
next
  assume "v \<noteq> []" "v' = []"
  with eq tail_shift [of x m p q v y p' q'] y show ?thesis by auto
next
  assume "v = []" "v' = []"
  with tail_same [OF eq] show ?thesis by simp
next
  assume "v \<noteq> []" "v' \<noteq> []"
  with tail_same [OF eq] show ?thesis by simp
qed

lemma ident_elems_inject:
  assumes "ident_elems st i b = ident_elems st j c"
    and "\<not> bad_category st (Category (IdentLocation i))" "\<not> bad_category st (Category (IdentLocation j))"
  shows "path_elems (Category (IdentLocation i)) = path_elems (Category (IdentLocation j)) \<and>
    Itoa b = Itoa c \<and> Name (IdentLocation i) = Name (IdentLocation j) \<and> Variant i = Variant j"
proof (rule tail_variants [where m = "bucketsZnodeName st"])
  show "path_elems (Category (IdentLocation i)) @ [bucketsZnodeName st, Itoa b, Name (IdentLocation i)] @
      (if Variant i = [] then [] else [Variant i]) =
    path_elems (Category (IdentLocation j)) @ [bucketsZnodeName st, Itoa c, Name (IdentLocation j)] @
      (if Variant j = [] then [] else [Variant j])"
    using assms(1) unfolding ident_elems_def item_elems_def buckets_elems_def append_assoc same_append_eq
      append_Cons append_Nil .
qed (use assms(2,3) in \<open>auto simp: bad_category_def\<close>)

lemma identPath_Inr:
  assumes "wf_store st" "Ident_Validate i = None" "identPath st i = Inr p"
  shows "\<exists>b. store_bucketFunc st (Name (IdentLocation i)) = Inr b \<and>
    \<not> bad_category st (Category (IdentLocation i)) \<and> p = abs_path (ident_elems st i b)"
  using assms(3) unfolding identPath_elems [OF assms(1,2)] by (auto split: sum.splits if_splits)

lemma identPath_inject:
  assumes "wf_store st" "Ident_Validate i = None" "Ident_Validate j = None"
    and "identPath st i = Inr p" "identPath st j = Inr p"
  shows "path_elems (Category (IdentLocation i)) = path_elems (Category (IdentLocation j)) \<and>
    Name (IdentLocation i) = Name (IdentLocation j) \<and> Variant i = Variant j"
proof -
  obtain b c where b: "\<not> bad_category st (Category (IdentLocation i))" "p = abs_path (ident_elems st i b)"
    and c: "\<not> bad_category st (Category (IdentLocation j))" "p = abs_path (ident_elems st j c)"
    using identPath_Inr [OF assms(1,2,4)] identPath_Inr [OF assms(1,3,5)] by blast
  then have "ident_elems st i b = ident_elems st j c"
    using abs_path_inject plain_ident_elems assms(1-3) by blast
  then show ?thesis using ident_elems_inject b(1) c(1) by blast
qed

end
