(* ===== verification/Zk_Service.thy ===== *)
theory Zk_Service
  imports Zk_Client
begin

text \<open>
  What the ZooKeeper service promises its clients, as a contract. The service is not part of
  the repository, so nothing here models code of \<open>src/\<close>: \<open>zk_service\<close> states, as the
  assumptions of a locale, the documented behaviour of the six requests a session sends, and
  \<open>zk_quiet\<close> the special case without other writers and without lost connections. The
  clients' theorems are proved under these contracts.

  The contents of the service is a tree of znodes: a finite partial map from lists of path
  elements to data and data version. A request takes effect at one point in time; before and
  after that point other clients may change the tree (\<open>env\<close>). A request may also end in a
  fault (a lost connection, an expired session, a missing permission): then the client does
  not know whether the request took effect.
\<close>

section \<open>Trees of znodes\<close>

type_synonym znode = "bytes \<times> int32"
type_synonym ztree = "string list \<rightharpoonup> znode"

definition wf_tree :: "ztree \<Rightarrow> bool" where
  "wf_tree t \<longleftrightarrow> [] \<in> dom t \<and> (\<forall>es \<in> dom t. list_all plain es \<and> (es \<noteq> [] \<longrightarrow> butlast es \<in> dom t))"

definition znode_children :: "ztree \<Rightarrow> string list \<Rightarrow> string set" where
  "znode_children t es = {e. es @ [e] \<in> dom t}"

definition fault :: "zk_error \<Rightarrow> bool" where
  "fault e \<longleftrightarrow> e \<notin> {ErrNoNode, ErrNodeExists, ErrBadVersion, ErrNotEmpty}"

section \<open>The effect of a request, as documented\<close>

definition create_spec :: "string list \<Rightarrow> bytes \<Rightarrow> ztree \<Rightarrow> zk_error + string \<Rightarrow> ztree \<Rightarrow> bool" where
  "create_spec es d t r t' \<longleftrightarrow>
     (if es \<in> dom t then r = Inl ErrNodeExists \<and> t' = t
      else if butlast es \<notin> dom t then r = Inl ErrNoNode \<and> t' = t
      else r = Inr (abs_path es) \<and> t' = t(es \<mapsto> (d, 0)))"

definition delete_spec :: "string list \<Rightarrow> int32 \<Rightarrow> ztree \<Rightarrow> zk_error + unit \<Rightarrow> ztree \<Rightarrow> bool" where
  "delete_spec es v t r t' \<longleftrightarrow>
     (case t es of
        None \<Rightarrow> r = Inl ErrNoNode \<and> t' = t
      | Some (d, u) \<Rightarrow>
          if v \<noteq> -1 \<and> v \<noteq> u then r = Inl ErrBadVersion \<and> t' = t
          else if znode_children t es \<noteq> {} then r = Inl ErrNotEmpty \<and> t' = t
          else r = Inr () \<and> t' = t(es := None))"

definition exists_spec :: "string list \<Rightarrow> ztree \<Rightarrow> zk_error + Stat \<Rightarrow> ztree \<Rightarrow> bool" where
  "exists_spec es t r t' \<longleftrightarrow> t' = t \<and>
     (case t es of
        None \<Rightarrow> r = Inl ErrNoNode
      | Some (d, u) \<Rightarrow> \<exists>st. r = Inr st \<and> StatVersion st = u)"

definition getData_spec :: "string list \<Rightarrow> ztree \<Rightarrow> zk_error + bytes \<times> Stat \<Rightarrow> ztree \<Rightarrow> bool" where
  "getData_spec es t r t' \<longleftrightarrow> t' = t \<and>
     (case t es of
        None \<Rightarrow> r = Inl ErrNoNode
      | Some (d, u) \<Rightarrow> \<exists>st. r = Inr (d, st) \<and> StatVersion st = u)"

definition setData_spec ::
  "string list \<Rightarrow> bytes \<Rightarrow> int32 \<Rightarrow> ztree \<Rightarrow> zk_error + Stat \<Rightarrow> ztree \<Rightarrow> bool" where
  "setData_spec es d v t r t' \<longleftrightarrow>
     (case t es of
        None \<Rightarrow> r = Inl ErrNoNode \<and> t' = t
      | Some (d0, u) \<Rightarrow>
          if v \<noteq> -1 \<and> v \<noteq> u then r = Inl ErrBadVersion \<and> t' = t
          else (\<exists>st. r = Inr st \<and> StatVersion st = u + 1) \<and> t' = t(es \<mapsto> (d, u + 1)))"

definition children_spec ::
  "string list \<Rightarrow> ztree \<Rightarrow> zk_error + string list \<times> Stat \<Rightarrow> ztree \<Rightarrow> bool" where
  "children_spec es t r t' \<longleftrightarrow> t' = t \<and>
     (if es \<in> dom t then \<exists>cs st. r = Inr (cs, st) \<and> set cs = znode_children t es \<and> distinct cs
      else r = Inl ErrNoNode)"

text \<open>A request as a client sees it: other clients, the request or a fault, other clients.\<close>

definition served ::
  "(ztree \<Rightarrow> ztree \<Rightarrow> bool) \<Rightarrow> (ztree \<Rightarrow> zk_error + 'r \<Rightarrow> ztree \<Rightarrow> bool) \<Rightarrow> ztree \<Rightarrow> zk_error + 'r \<Rightarrow> ztree \<Rightarrow> bool"
  where
  "served env P t r t' \<longleftrightarrow>
     (\<exists>t1 t2. env t t1 \<and> env t2 t' \<and>
        (P t1 r t2 \<or> (\<exists>e. r = Inl e \<and> fault e \<and> (t2 = t1 \<or> (\<exists>r'. P t1 r' t2)))))"

lemma servedI: "env t t1 \<Longrightarrow> P t1 r t2 \<Longrightarrow> env t2 t' \<Longrightarrow> served env P t r t'"
  by (auto simp: served_def)

lemma served_faultI:
  "env t ta \<Longrightarrow> fault e \<Longrightarrow> tb = ta \<or> P ta r' tb \<Longrightarrow> env tb t' \<Longrightarrow> served env P t (Inl e) t'"
  by (auto simp: served_def)

section \<open>The contracts\<close>

locale zk_service =
  fixes S :: "'s session"
    and view :: "'s \<Rightarrow> ztree"
    and invar :: "'s \<Rightarrow> bool"
    and env :: "ztree \<Rightarrow> ztree \<Rightarrow> bool"
  assumes view_wf: "invar s \<Longrightarrow> wf_tree (view s)"
    and env_refl: "env t t"
    and env_trans: "env t t1 \<Longrightarrow> env t1 t2 \<Longrightarrow> env t t2"
    and create_law: "\<lbrakk>invar s; list_all plain es; req_create S (abs_path es) d 0 acl s = (r, s')\<rbrakk>
      \<Longrightarrow> invar s' \<and> served env (create_spec es d) (view s) r (view s')"
    and delete_law: "\<lbrakk>invar s; list_all plain es; es \<noteq> []; req_delete S (abs_path es) v s = (r', s')\<rbrakk>
      \<Longrightarrow> invar s' \<and> served env (delete_spec es v) (view s) r' (view s')"
    and exists_law: "\<lbrakk>invar s; list_all plain es; req_exists S (abs_path es) s = (rs, s')\<rbrakk>
      \<Longrightarrow> invar s' \<and> served env (exists_spec es) (view s) rs (view s')"
    and getData_law: "\<lbrakk>invar s; list_all plain es; req_getData S (abs_path es) s = (rd, s')\<rbrakk>
      \<Longrightarrow> invar s' \<and> served env (getData_spec es) (view s) rd (view s')"
    and setData_law: "\<lbrakk>invar s; list_all plain es; req_setData S (abs_path es) d v s = (rs, s')\<rbrakk>
      \<Longrightarrow> invar s' \<and> served env (setData_spec es d v) (view s) rs (view s')"
    and children_law: "\<lbrakk>invar s; list_all plain es; req_getChildren2 S (abs_path es) s = (rc, s')\<rbrakk>
      \<Longrightarrow> invar s' \<and> served env (children_spec es) (view s) rc (view s')"

locale zk_quiet = zk_service +
  assumes env_eq: "env t u \<longleftrightarrow> t = u"
    and create_nofault: "invar s \<Longrightarrow> req_create S p d fl acl s = (Inl e, s') \<Longrightarrow> \<not> fault e"
    and delete_nofault: "invar s \<Longrightarrow> req_delete S p v s = (Inl e, s') \<Longrightarrow> \<not> fault e"
    and exists_nofault: "invar s \<Longrightarrow> req_exists S p s = (Inl e, s') \<Longrightarrow> \<not> fault e"
    and getData_nofault: "invar s \<Longrightarrow> req_getData S p s = (Inl e, s') \<Longrightarrow> \<not> fault e"
    and setData_nofault: "invar s \<Longrightarrow> req_setData S p d v s = (Inl e, s') \<Longrightarrow> \<not> fault e"
    and children_nofault: "invar s \<Longrightarrow> req_getChildren2 S p s = (Inl e, s') \<Longrightarrow> \<not> fault e"
begin

lemma served_quiet:
  assumes "served env P t r t'" "\<And>e. r = Inl e \<Longrightarrow> \<not> fault e"
  shows "P t r t'"
  using assms by (auto simp: served_def env_eq)

lemma create_quiet:
  assumes "invar s" "list_all plain es" "req_create S (abs_path es) d 0 acl s = (r, s')"
  shows "invar s' \<and> create_spec es d (view s) r (view s')"
  using create_law [OF assms] create_nofault assms by (blast intro: served_quiet)

lemma delete_quiet:
  assumes "invar s" "list_all plain es" "es \<noteq> []" "req_delete S (abs_path es) v s = (r, s')"
  shows "invar s' \<and> delete_spec es v (view s) r (view s')"
  using delete_law [OF assms] delete_nofault assms by (blast intro: served_quiet)

lemma exists_quiet:
  assumes "invar s" "list_all plain es" "req_exists S (abs_path es) s = (r, s')"
  shows "invar s' \<and> exists_spec es (view s) r (view s')"
  using exists_law [OF assms] exists_nofault assms by (blast intro: served_quiet)

lemma getData_quiet:
  assumes "invar s" "list_all plain es" "req_getData S (abs_path es) s = (r, s')"
  shows "invar s' \<and> getData_spec es (view s) r (view s')"
  using getData_law [OF assms] getData_nofault assms by (blast intro: served_quiet)

lemma setData_quiet:
  assumes "invar s" "list_all plain es" "req_setData S (abs_path es) d v s = (r, s')"
  shows "invar s' \<and> setData_spec es d v (view s) r (view s')"
  using setData_law [OF assms] setData_nofault assms by (blast intro: served_quiet)

lemma children_quiet:
  assumes "invar s" "list_all plain es" "req_getChildren2 S (abs_path es) s = (r, s')"
  shows "invar s' \<and> children_spec es (view s) r (view s')"
  using children_law [OF assms] children_nofault assms by (blast intro: served_quiet)

end

section \<open>A server that keeps the contracts\<close>

text \<open>
  An executable server over association lists, against which concrete runs of the clients
  are evaluated. Every request consumes one directive of a script: serve it, let other
  clients replace the tree first, or answer with a fault, before or after the effect. With
  an empty script it keeps the quiet contract.
\<close>

type_synonym ztable = "(string list \<times> znode) list"

datatype directive =
    Serve
  | Others ztable
  | Fail zk_error bool \<comment> \<open>the error, and whether the request takes effect\<close>

record server =
  table :: ztable
  script :: "directive list"

definition tab_keys :: "ztable \<Rightarrow> string list list" where
  "tab_keys tb = remdups (map fst tb)"

definition wf_table :: "ztable \<Rightarrow> bool" where
  "wf_table tb \<longleftrightarrow> [] \<in> set (map fst tb) \<and>
     list_all (\<lambda>es. list_all plain es \<and> (es \<noteq> [] \<longrightarrow> butlast es \<in> set (map fst tb))) (map fst tb)"

definition tab_children :: "ztable \<Rightarrow> string list \<Rightarrow> string list" where
  "tab_children tb es = map last (filter (\<lambda>k. k \<noteq> [] \<and> butlast k = es) (tab_keys tb))"

definition tab_stat :: "int32 \<Rightarrow> Stat" where
  "tab_stat v = zero_Stat\<lparr>StatVersion := v\<rparr>"

definition tab_create :: "string \<Rightarrow> bytes \<Rightarrow> ztable \<Rightarrow> (zk_error + string) \<times> ztable" where
  "tab_create p d tb =
     (let es = path_elems p in
      if es \<in> set (map fst tb) then (Inl ErrNodeExists, tb)
      else if butlast es \<notin> set (map fst tb) then (Inl ErrNoNode, tb)
      else (Inr p, (es, (d, 0)) # tb))"

definition tab_delete :: "string \<Rightarrow> int32 \<Rightarrow> ztable \<Rightarrow> (zk_error + unit) \<times> ztable" where
  "tab_delete p v tb =
     (let es = path_elems p in
      case map_of tb es of
        None \<Rightarrow> (Inl ErrNoNode, tb)
      | Some (d, u) \<Rightarrow>
          if v \<noteq> -1 \<and> v \<noteq> u then (Inl ErrBadVersion, tb)
          else if tab_children tb es \<noteq> [] then (Inl ErrNotEmpty, tb)
          else (Inr (), filter (\<lambda>(k, _). k \<noteq> es) tb))"

definition tab_exists :: "string \<Rightarrow> ztable \<Rightarrow> (zk_error + Stat) \<times> ztable" where
  "tab_exists p tb =
     (case map_of tb (path_elems p) of
        None \<Rightarrow> (Inl ErrNoNode, tb)
      | Some (d, u) \<Rightarrow> (Inr (tab_stat u), tb))"

definition tab_getData :: "string \<Rightarrow> ztable \<Rightarrow> (zk_error + bytes \<times> Stat) \<times> ztable" where
  "tab_getData p tb =
     (case map_of tb (path_elems p) of
        None \<Rightarrow> (Inl ErrNoNode, tb)
      | Some (d, u) \<Rightarrow> (Inr (d, tab_stat u), tb))"

definition tab_setData :: "string \<Rightarrow> bytes \<Rightarrow> int32 \<Rightarrow> ztable \<Rightarrow> (zk_error + Stat) \<times> ztable" where
  "tab_setData p d v tb =
     (let es = path_elems p in
      case map_of tb es of
        None \<Rightarrow> (Inl ErrNoNode, tb)
      | Some (d0, u) \<Rightarrow>
          if v \<noteq> -1 \<and> v \<noteq> u then (Inl ErrBadVersion, tb)
          else (Inr (tab_stat (u + 1)), (es, (d, u + 1)) # tb))"

definition tab_getChildren :: "string \<Rightarrow> ztable \<Rightarrow> (zk_error + string list \<times> Stat) \<times> ztable" where
  "tab_getChildren p tb =
     (let es = path_elems p in
      if es \<in> set (map fst tb) then (Inr (tab_children tb es, zero_Stat), tb)
      else (Inl ErrNoNode, tb))"

definition answer :: "(ztable \<Rightarrow> (zk_error + 'r) \<times> ztable) \<Rightarrow> server \<Rightarrow> (zk_error + 'r) \<times> server" where
  "answer f sv =
     (case script sv of
        [] \<Rightarrow> (case f (table sv) of (r, tb) \<Rightarrow> (r, sv\<lparr>table := tb\<rparr>))
      | Serve # ds \<Rightarrow> (case f (table sv) of (r, tb) \<Rightarrow> (r, \<lparr>table = tb, script = ds\<rparr>))
      | Others tb0 # ds \<Rightarrow> (case f tb0 of (r, tb) \<Rightarrow> (r, \<lparr>table = tb, script = ds\<rparr>))
      | Fail e applied # ds \<Rightarrow>
          (Inl e, \<lparr>table = (if applied then snd (f (table sv)) else table sv), script = ds\<rparr>))"

definition server_session :: "server session" where
  "server_session =
     \<lparr>req_create = (\<lambda>p d fl acl. answer (tab_create p d)),
      req_delete = (\<lambda>p v. answer (tab_delete p v)),
      req_exists = (\<lambda>p. answer (tab_exists p)),
      req_getData = (\<lambda>p. answer (tab_getData p)),
      req_setData = (\<lambda>p d v. answer (tab_setData p d v)),
      req_getChildren2 = (\<lambda>p. answer (tab_getChildren p))\<rparr>"

definition server_view :: "server \<Rightarrow> ztree" where
  "server_view sv = map_of (table sv)"

fun wf_directive :: "directive \<Rightarrow> bool" where
  "wf_directive Serve = True"
| "wf_directive (Others tb) = wf_table tb"
| "wf_directive (Fail e applied) = fault e"

definition server_invar :: "server \<Rightarrow> bool" where
  "server_invar sv \<longleftrightarrow> wf_table (table sv) \<and> list_all wf_directive (script sv)"

definition quiet_invar :: "server \<Rightarrow> bool" where
  "quiet_invar sv \<longleftrightarrow> wf_table (table sv) \<and> script sv = []"

lemma wf_table_tree: "wf_table tb \<longleftrightarrow> wf_tree (map_of tb)"
  by (auto simp: wf_table_def wf_tree_def dom_map_of_conv_image_fst list_all_iff)

lemma map_of_ne_None: "k \<in> set (map fst tb) \<longleftrightarrow> k \<in> dom (map_of tb)"
  by (simp add: dom_map_of_conv_image_fst)

lemma set_tab_children: "set (tab_children tb es) = znode_children (map_of tb) es"
proof -
  have "e \<in> set (tab_children tb es) \<longleftrightarrow> es @ [e] \<in> fst ` set tb" for e
    by (force simp: tab_children_def tab_keys_def snoc_eq_iff_butlast image_iff)
  then show ?thesis
    by (auto simp: znode_children_def dom_map_of_conv_image_fst)
qed

lemma distinct_tab_children: "distinct (tab_children tb es)"
  unfolding tab_children_def tab_keys_def
  by (auto simp: distinct_map inj_on_def) (metis append_butlast_last_id)

lemma wf_tree_upd: "wf_tree t \<Longrightarrow> es \<in> dom t \<Longrightarrow> wf_tree (t(es \<mapsto> n))"
  by (auto simp: wf_tree_def)

lemma wf_tree_new:
  "wf_tree t \<Longrightarrow> list_all plain es \<Longrightarrow> butlast es \<in> dom t \<Longrightarrow> wf_tree (t(es \<mapsto> n))"
  by (auto simp: wf_tree_def)

lemma wf_tree_del:
  assumes "wf_tree t" "es \<noteq> []" "znode_children t es = {}"
  shows "wf_tree (t(es := None))"
proof -
  have "butlast fs \<noteq> es" if "fs \<in> dom t" "fs \<noteq> []" for fs
  proof
    assume "butlast fs = es"
    with that have "last fs \<in> znode_children t es" by (auto simp: znode_children_def)
    with assms(3) show False by simp
  qed
  with assms(1,2) show ?thesis by (auto simp: wf_tree_def)
qed

text \<open>Each table operation keeps its documented effect.\<close>

lemma tab_create_spec:
  assumes "wf_table tb" "list_all plain es" "tab_create (abs_path es) d tb = (r, tb')"
  shows "wf_table tb' \<and> create_spec es d (map_of tb) r (map_of tb')"
  using assms wf_tree_new [of "map_of tb" es]
  by (auto simp: tab_create_def create_spec_def map_of_ne_None wf_table_tree Let_def
      split: if_splits simp del: set_map)

lemma tab_delete_map: "map_of (filter (\<lambda>(k, _). k \<noteq> es) tb) = (map_of tb)(es := None)"
  by (induction tb) auto

lemma tab_delete_spec:
  assumes "wf_table tb" "list_all plain es" "tab_delete (abs_path es) v tb = (r, tb')"
    "es \<noteq> []"
  shows "wf_table tb' \<and> delete_spec es v (map_of tb) r (map_of tb')"
proof -
  have emp: "tab_children tb es = [] \<longleftrightarrow> znode_children (map_of tb) es = {}"
    by (metis set_tab_children set_empty)
  show ?thesis
    using assms wf_tree_del [of "map_of tb" es]
    by (auto simp: tab_delete_def delete_spec_def emp wf_table_tree tab_delete_map Let_def
        split: if_splits option.splits)
qed

lemma tab_exists_spec:
  assumes "wf_table tb" "list_all plain es" "tab_exists (abs_path es) tb = (r, tb')"
  shows "wf_table tb' \<and> exists_spec es (map_of tb) r (map_of tb')"
  using assms by (auto simp: tab_exists_def exists_spec_def tab_stat_def split: option.splits)

lemma tab_getData_spec:
  assumes "wf_table tb" "list_all plain es" "tab_getData (abs_path es) tb = (r, tb')"
  shows "wf_table tb' \<and> getData_spec es (map_of tb) r (map_of tb')"
  using assms by (auto simp: tab_getData_def getData_spec_def tab_stat_def split: option.splits)

lemma tab_setData_spec:
  assumes "wf_table tb" "list_all plain es" "tab_setData (abs_path es) d v tb = (r, tb')"
  shows "wf_table tb' \<and> setData_spec es d v (map_of tb) r (map_of tb')"
  using assms
  by (auto simp: tab_setData_def setData_spec_def tab_stat_def wf_table_tree Let_def
      intro!: wf_tree_upd split: option.splits if_splits)

lemma tab_getChildren_spec:
  assumes "wf_table tb" "list_all plain es" "tab_getChildren (abs_path es) tb = (r, tb')"
  shows "wf_table tb' \<and> children_spec es (map_of tb) r (map_of tb')"
  using assms
  by (auto simp: tab_getChildren_def children_spec_def map_of_ne_None set_tab_children
      distinct_tab_children Let_def split: if_splits simp del: set_map)

lemmas tab_specs =
  tab_create_spec tab_delete_spec tab_exists_spec tab_getData_spec tab_setData_spec
  tab_getChildren_spec

text \<open>The other clients of the scripted server: they may leave any well-formed tree.\<close>

definition others_env :: "ztree \<Rightarrow> ztree \<Rightarrow> bool" where
  "others_env t u \<longleftrightarrow> u = t \<or> wf_tree u"

lemma answer_served:
  assumes "server_invar sv" "answer f sv = (r, sv')"
    and f: "\<And>tb r tb'. wf_table tb \<Longrightarrow> f tb = (r, tb') \<Longrightarrow> wf_table tb' \<and> P (map_of tb) r (map_of tb')"
  shows "server_invar sv' \<and> served others_env P (server_view sv) r (server_view sv')"
proof -
  have refl: "others_env t t" for t by (simp add: others_env_def)
  have step: "served others_env P t r1 (map_of tb1) \<and> wf_table tb1"
    if "wf_table tb" "f tb = (r1, tb1)" "others_env t (map_of tb)" for t tb r1 tb1
    using f [OF that(1,2)] that(3) refl
    by (intro conjI servedI [of others_env t "map_of tb" P r1 "map_of tb1" "map_of tb1"]) auto
  have wf: "wf_table (table sv)" "list_all wf_directive (script sv)"
    using assms(1) by (auto simp: server_invar_def)
  note defs = answer_def server_invar_def server_view_def
  show ?thesis
  proof (cases "script sv")
    case Nil
    with assms(2) wf step [OF wf(1) _ refl] show ?thesis
      by (auto simp: defs split: prod.splits)
  next
    case (Cons dir ds)
    show ?thesis
    proof (cases dir)
      case Serve
      with Cons assms(2) wf step [OF wf(1) _ refl] show ?thesis
        by (auto simp: defs split: prod.splits)
    next
      case (Others tb)
      with Cons wf have tb: "wf_table tb" "others_env t (map_of tb)" for t
        by (auto simp: wf_table_tree others_env_def)
      with Others Cons assms(2) wf step [OF tb(1) _ tb(2)] show ?thesis
        by (auto simp: defs split: prod.splits)
    next
      case (Fail e applied)
      obtain r1 tb1 where f1: "f (table sv) = (r1, tb1)" by fastforce
      with wf f have "wf_table tb1" "P (map_of (table sv)) r1 (map_of tb1)" by blast+
      moreover have "fault e" using Fail Cons wf by simp
      ultimately show ?thesis
        using Fail assms(2) Cons wf f1
        by (auto simp: defs
            intro!: served_faultI [where ta = "map_of (table sv)" and tb = "map_of (table sv')" and r' = r1] refl)
    qed
  qed
qed

lemma answer_quiet:
  assumes "quiet_invar sv" "answer f sv = (r, sv')"
    and f: "\<And>tb r tb'. wf_table tb \<Longrightarrow> f tb = (r, tb') \<Longrightarrow> wf_table tb' \<and> P (map_of tb) r (map_of tb')"
  shows "quiet_invar sv' \<and> served (=) P (server_view sv) r (server_view sv')"
proof -
  obtain r1 tb1 where f1: "f (table sv) = (r1, tb1)" by fastforce
  have "wf_table (table sv)" using assms(1) by (simp add: quiet_invar_def)
  with f f1 have P: "wf_table tb1" "P (map_of (table sv)) r1 (map_of tb1)" by blast+
  have "r = r1" "sv' = sv\<lparr>table := tb1\<rparr>"
    using assms(1,2) f1 by (auto simp: answer_def quiet_invar_def)
  with P assms(1) servedI [of "(=)" _ "map_of (table sv)" P r "map_of tb1"] show ?thesis
    by (simp add: quiet_invar_def server_view_def)
qed

lemma answer_no_fault:
  assumes "quiet_invar sv" "answer f sv = (Inl e, sv')" "\<And>tb tb'. f tb = (Inl e, tb') \<Longrightarrow> \<not> fault e"
  shows "\<not> fault e"
proof -
  obtain r1 tb1 where f1: "f (table sv) = (r1, tb1)" by fastforce
  with assms(1,2) have "r1 = Inl e" by (auto simp: answer_def quiet_invar_def)
  with f1 assms(3) show ?thesis by blast
qed

lemmas server_session_simps = server_session_def session.simps

text \<open>The scripted server keeps the general contract.\<close>

interpretation scripted: zk_service server_session server_view server_invar others_env
proof (unfold_locales, goal_cases)
  case (1 s)
  then show ?case by (simp add: server_invar_def server_view_def wf_table_tree)
next
  case (4 s es d acl r s')
  then have "answer (tab_create (abs_path es) d) s = (r, s')" by (simp add: server_session_simps)
  then show ?case using 4 tab_create_spec by (intro answer_served [of s "tab_create (abs_path es) d"]) blast+
next
  case (5 s es v r s')
  then have "answer (tab_delete (abs_path es) v) s = (r, s')" by (simp add: server_session_simps)
  then show ?case using 5 tab_delete_spec by (intro answer_served [of s "tab_delete (abs_path es) v"]) blast+
next
  case (6 s es r s')
  then have "answer (tab_exists (abs_path es)) s = (r, s')" by (simp add: server_session_simps)
  then show ?case using 6 tab_exists_spec by (intro answer_served [of s "tab_exists (abs_path es)"]) blast+
next
  case (7 s es r s')
  then have "answer (tab_getData (abs_path es)) s = (r, s')" by (simp add: server_session_simps)
  then show ?case using 7 tab_getData_spec by (intro answer_served [of s "tab_getData (abs_path es)"]) blast+
next
  case (8 s es d v r s')
  then have "answer (tab_setData (abs_path es) d v) s = (r, s')" by (simp add: server_session_simps)
  then show ?case using 8 tab_setData_spec by (intro answer_served [of s "tab_setData (abs_path es) d v"]) blast+
next
  case (9 s es r s')
  then have "answer (tab_getChildren (abs_path es)) s = (r, s')" by (simp add: server_session_simps)
  then show ?case using 9 tab_getChildren_spec by (intro answer_served [of s "tab_getChildren (abs_path es)"]) blast+
qed (auto simp: others_env_def)

text \<open>With an empty script it keeps the quiet contract.\<close>

interpretation quiet_service: zk_service server_session server_view quiet_invar "(=)"
proof (unfold_locales, goal_cases)
  case (1 s)
  then show ?case by (simp add: quiet_invar_def server_view_def wf_table_tree)
next
  case (4 s es d acl r s')
  then have "answer (tab_create (abs_path es) d) s = (r, s')" by (simp add: server_session_simps)
  then show ?case using 4 tab_create_spec by (intro answer_quiet [of s "tab_create (abs_path es) d"]) blast+
next
  case (5 s es v r s')
  then have "answer (tab_delete (abs_path es) v) s = (r, s')" by (simp add: server_session_simps)
  then show ?case using 5 tab_delete_spec by (intro answer_quiet [of s "tab_delete (abs_path es) v"]) blast+
next
  case (6 s es r s')
  then have "answer (tab_exists (abs_path es)) s = (r, s')" by (simp add: server_session_simps)
  then show ?case using 6 tab_exists_spec by (intro answer_quiet [of s "tab_exists (abs_path es)"]) blast+
next
  case (7 s es r s')
  then have "answer (tab_getData (abs_path es)) s = (r, s')" by (simp add: server_session_simps)
  then show ?case using 7 tab_getData_spec by (intro answer_quiet [of s "tab_getData (abs_path es)"]) blast+
next
  case (8 s es d v r s')
  then have "answer (tab_setData (abs_path es) d v) s = (r, s')" by (simp add: server_session_simps)
  then show ?case using 8 tab_setData_spec by (intro answer_quiet [of s "tab_setData (abs_path es) d v"]) blast+
next
  case (9 s es r s')
  then have "answer (tab_getChildren (abs_path es)) s = (r, s')" by (simp add: server_session_simps)
  then show ?case using 9 tab_getChildren_spec by (intro answer_quiet [of s "tab_getChildren (abs_path es)"]) blast+
qed auto

lemma tab_no_fault:
  "tab_create p d tb = (Inl e, tb') \<Longrightarrow> \<not> fault e"
  "tab_delete p v tb = (Inl e, tb') \<Longrightarrow> \<not> fault e"
  "tab_exists p tb = (Inl e, tb') \<Longrightarrow> \<not> fault e"
  "tab_getData p tb = (Inl e, tb') \<Longrightarrow> \<not> fault e"
  "tab_setData p d v tb = (Inl e, tb') \<Longrightarrow> \<not> fault e"
  "tab_getChildren p tb = (Inl e, tb') \<Longrightarrow> \<not> fault e"
  by (auto simp: tab_create_def tab_delete_def tab_exists_def tab_getData_def tab_setData_def
      tab_getChildren_def fault_def Let_def split: if_splits option.splits)

lemma answer_tab_no_fault:
  assumes "quiet_invar s"
  shows "answer (tab_create p d) s = (Inl e, s') \<Longrightarrow> \<not> fault e"
    "answer (tab_delete p v) s = (Inl e, s') \<Longrightarrow> \<not> fault e"
    "answer (tab_exists p) s = (Inl e, s') \<Longrightarrow> \<not> fault e"
    "answer (tab_getData p) s = (Inl e, s') \<Longrightarrow> \<not> fault e"
    "answer (tab_setData p d v) s = (Inl e, s') \<Longrightarrow> \<not> fault e"
    "answer (tab_getChildren p) s = (Inl e, s') \<Longrightarrow> \<not> fault e"
  by (erule answer_no_fault [OF assms], erule tab_no_fault)+

interpretation quiet: zk_quiet server_session server_view quiet_invar "(=)"
  by unfold_locales (auto simp: server_session_simps dest: answer_tab_no_fault)

end
