(* ===== verification/Zkstore_Quiet.thy ===== *)
theory Zkstore_Quiet
  imports Zkstore_Paths Zk_Service
begin

text \<open>
  The store's operations against a service that keeps the quiet contract: the exact result
  and the exact tree after each operation.
\<close>

section \<open>The client's methods on well-formed paths\<close>

context zk_quiet
begin

lemma Conn_Exists_quiet:
  assumes "invar s" "good_elems es" "Conn_Exists S (abs_path es) s = (r, s')"
  shows "invar s' \<and> view s' = view s \<and>
    (case view s es of
       None \<Rightarrow> r = (False, Some zero_Stat, None)
     | Some (d, u) \<Rightarrow> \<exists>stat. r = (True, Some stat, None) \<and> StatVersion stat = u)"
proof -
  obtain q where q: "req_exists S (abs_path es) s = (q, s')"
    using assms good_elems_valid by (fastforce simp: Conn_Exists_def split: prod.splits sum.splits if_splits)
  then show ?thesis
    using exists_quiet [OF assms(1) good_elems_plain [OF assms(2)] q] assms
    by (auto simp: Conn_Exists_def good_elems_valid exists_spec_def split: option.splits)
qed

lemma Conn_Get_quiet:
  assumes "invar s" "good_elems es" "Conn_Get S (abs_path es) s = (r, s')"
  shows "invar s' \<and> view s' = view s \<and>
    (case view s es of
       None \<Rightarrow> r = ([], Some zero_Stat, Some ErrNoNode)
     | Some (d, u) \<Rightarrow> \<exists>stat. r = (d, Some stat, None) \<and> StatVersion stat = u)"
proof -
  obtain q where q: "req_getData S (abs_path es) s = (q, s')"
    using assms good_elems_valid by (fastforce simp: Conn_Get_def split: prod.splits sum.splits)
  then show ?thesis
    using getData_quiet [OF assms(1) good_elems_plain [OF assms(2)] q] assms
    by (auto simp: Conn_Get_def good_elems_valid getData_spec_def split: option.splits)
qed

lemma Conn_Set_quiet:
  assumes "invar s" "good_elems es" "Conn_Set S (abs_path es) d v s = (r, s')"
  shows "invar s' \<and>
    (case view s es of
       None \<Rightarrow> r = (Some zero_Stat, Some ErrNoNode) \<and> view s' = view s
     | Some (d0, u) \<Rightarrow>
         if v \<noteq> -1 \<and> v \<noteq> u then r = (Some zero_Stat, Some ErrBadVersion) \<and> view s' = view s
         else \<exists>stat. r = (Some stat, None) \<and> StatVersion stat = u + 1 \<and> view s' = (view s)(es \<mapsto> (d, u + 1)))"
proof -
  obtain q where q: "req_setData S (abs_path es) d v s = (q, s')"
    using assms good_elems_valid by (fastforce simp: Conn_Set_def split: prod.splits sum.splits)
  then show ?thesis
    using setData_quiet [OF assms(1) good_elems_plain [OF assms(2)] q] assms
    by (auto simp: Conn_Set_def good_elems_valid setData_spec_def split: option.splits if_splits)
qed

lemma Conn_Create_quiet:
  assumes "invar s" "good_elems es" "Conn_Create S (abs_path es) d 0 acl s = (r, s')"
  shows "invar s' \<and>
    (if es \<in> dom (view s) then r = ([], Some ErrNodeExists) \<and> view s' = view s
     else if butlast es \<notin> dom (view s) then r = ([], Some ErrNoNode) \<and> view s' = view s
     else r = (abs_path es, None) \<and> view s' = (view s)(es \<mapsto> (d, 0)))"
proof -
  obtain q where q: "req_create S (abs_path es) d 0 acl s = (q, s')"
    using assms good_elems_valid by (fastforce simp: Conn_Create_def split: prod.splits sum.splits)
  then show ?thesis
    using create_quiet [OF assms(1) good_elems_plain [OF assms(2)] q] assms
    by (auto simp: Conn_Create_def good_elems_valid create_spec_def split: if_splits)
qed

lemma Conn_Delete_quiet:
  assumes "invar s" "good_elems es" "es \<noteq> []" "Conn_Delete S (abs_path es) v s = (r, s')"
  shows "invar s' \<and>
    (case view s es of
       None \<Rightarrow> r = Some ErrNoNode \<and> view s' = view s
     | Some (d, u) \<Rightarrow>
         if v \<noteq> -1 \<and> v \<noteq> u then r = Some ErrBadVersion \<and> view s' = view s
         else if znode_children (view s) es \<noteq> {} then r = Some ErrNotEmpty \<and> view s' = view s
         else r = None \<and> view s' = (view s)(es := None))"
proof -
  obtain q where q: "req_delete S (abs_path es) v s = (q, s')"
    using assms good_elems_valid by (fastforce simp: Conn_Delete_def split: prod.splits sum.splits)
  then show ?thesis
    using delete_quiet [OF assms(1) good_elems_plain [OF assms(2)] assms(3) q] assms
    by (auto simp: Conn_Delete_def good_elems_valid delete_spec_def split: option.splits if_splits)
qed

lemma Conn_Children_quiet:
  assumes "invar s" "good_elems es" "Conn_Children S (abs_path es) s = (r, s')"
  shows "invar s' \<and> view s' = view s \<and>
    (if es \<in> dom (view s)
     then \<exists>cs stat. r = (cs, Some stat, None) \<and> set cs = znode_children (view s) es \<and> distinct cs
     else r = ([], Some zero_Stat, Some ErrNoNode))"
proof -
  obtain q where q: "req_getChildren2 S (abs_path es) s = (q, s')"
    using assms good_elems_valid by (fastforce simp: Conn_Children_def split: prod.splits sum.splits)
  then show ?thesis
    using children_quiet [OF assms(1) good_elems_plain [OF assms(2)] q] assms
    by (auto simp: Conn_Children_def good_elems_valid children_spec_def split: if_splits)
qed

end

section \<open>Creating a node with its ancestors\<close>

text \<open>
  \<open>fill f es t\<close> is \<open>t\<close> with every missing node on the way to \<open>es\<close>, and \<open>es\<close> itself, created in
  version 0 with the data \<open>f\<close> gives for it.
\<close>

definition fill :: "(string list \<Rightarrow> bytes) \<Rightarrow> string list \<Rightarrow> ztree \<Rightarrow> ztree" where
  "fill f es t = (\<lambda>p. if p \<notin> dom t \<and> prefix p es then Some (f p, 0) else t p)"

definition node_data :: "Item \<Rightarrow> string list \<Rightarrow> string list \<Rightarrow> bytes" where
  "node_data item es p =
     (if p = es \<or> Variant (ItemIdent item) \<noteq> [] \<and> p = butlast es then Data item else [])"

lemma wf_tree_parent: "wf_tree t \<Longrightarrow> es @ [e] \<in> dom t \<Longrightarrow> es \<in> dom t"
  unfolding wf_tree_def by (metis butlast_snoc snoc_eq_iff_butlast)

lemma wf_tree_plain: "wf_tree t \<Longrightarrow> es \<in> dom t \<Longrightarrow> list_all plain es"
  unfolding wf_tree_def by blast

lemma prefix_in_tree:
  assumes "wf_tree t" "es \<in> dom t" "prefix p es"
  shows "p \<in> dom t"
  using assms(2,3)
proof (induction es rule: rev_induct)
  case (snoc e es)
  then have "es \<in> dom t" using wf_tree_parent [OF assms(1)] by fastforce
  with snoc show ?case by (auto simp: prefix_snoc)
qed (auto simp: prefix_def)

lemma fill_id [simp]: "wf_tree t \<Longrightarrow> es \<in> dom t \<Longrightarrow> fill f es t = t"
  using prefix_in_tree [of t es] by (simp add: fill_def fun_eq_iff) blast

lemma fill_step: "p \<notin> dom t \<Longrightarrow> prefix p es \<Longrightarrow> fill f es (t(p \<mapsto> (f p, 0))) = fill f es t"
  by (auto simp: fill_def fun_eq_iff)

lemma fill_self [simp]: "es \<notin> dom t \<Longrightarrow> fill f es t es = Some (f es, 0)"
  by (auto simp: fill_def)

context zk_quiet
begin

lemma setFully_loop_quiet:
  assumes "invar s" "good_elems (pre @ suf)" "pre \<in> dom (view s)" "conn st = S"
    "setFully_loop st item (Suc (length (pre @ suf))) (Suc (length pre)) (abs_path pre) suf s = (r, s')"
  shows "invar s' \<and>
    (if pre @ suf \<notin> dom (view s) \<and> 0 \<le> sint (actualVersion (ItemIdent item))
     then r = Some ErrVersionConflict \<and>
       view s' = fill (node_data item (pre @ suf)) (butlast (pre @ suf)) (view s)
     else r = None \<and> view s' = fill (node_data item (pre @ suf)) (pre @ suf) (view s))"
  using assms
proof (induction suf arbitrary: pre s)
  case Nil
  then show ?case using view_wf by auto
next
  case (Cons e suf)
  let ?p = "pre @ [e]" and ?es = "pre @ e # suf" and ?t = "view s"
  let ?f = "node_data item ?es"
  have es: "?es = ?p @ suf" by simp
  have good: "good_elems ?p" "good_elems (?p @ suf)"
    using Cons.prems(2) by auto
  have join: "path_Join [abs_path pre, e] = abs_path ?p"
    using good(1) path_Join_abs [of pre "[e]"] good_elems_plain [of pre] by simp
  obtain q s1 where q: "Conn_Exists S (abs_path ?p) s = (q, s1)" by fastforce
  note ex = Conn_Exists_quiet [OF Cons.prems(1) good(1) q]
  then have s1: "invar s1" "view s1 = ?t" by auto
  note loop = Cons.prems(5) [unfolded setFully_loop.simps join Cons.prems(4) q Let_def]
  show ?case
  proof (cases "?p \<in> dom ?t")
    case True
    then obtain stat where "q = (True, Some stat, None)" using ex by (auto split: option.splits)
    with loop have "setFully_loop st item (Suc (length (?p @ suf))) (Suc (length ?p)) (abs_path ?p) suf s1 = (r, s')"
      by simp
    from Cons.IH [OF s1(1) good(2) _ Cons.prems(4) this] True s1(2) show ?thesis by simp
  next
    case False
    then have q': "q = (False, Some zero_Stat, None)" using ex by (auto split: option.splits)
    show ?thesis
    proof (cases "suf = [] \<and> 0 \<le> sint (actualVersion (ItemIdent item))")
      case True
      with loop q' have "r = Some ErrVersionConflict" "s' = s1" by auto
      with True False s1 Cons.prems(1,3) view_wf show ?thesis by simp
    next
      case go: False
      obtain c s2 where c: "Conn_Create S (abs_path ?p) (?f ?p) 0 (acls st) s1 = (c, s2)" by fastforce
      have "(if Suc (length pre) + 1 = Suc (length ?es) \<or>
          Variant (ItemIdent item) \<noteq> [] \<and> Suc (length pre) + 2 = Suc (length ?es) then Data item else []) = ?f ?p"
        by (cases suf) (auto simp: node_data_def butlast_append)
      note loop' = loop [unfolded this c]
      from Conn_Create_quiet [OF s1(1) good(1) c] s1(2) False Cons.prems(3)
      have c': "invar s2" "c = (abs_path ?p, None)" "view s2 = ?t(?p \<mapsto> (?f ?p, 0))" by auto
      have rec: "setFully_loop st item (Suc (length (?p @ suf))) (Suc (length ?p)) (abs_path ?p) suf s2 = (r, s')"
        using loop' q' c'(2) go by (auto simp: c)
      have "?p \<in> dom (view s2)" by (simp add: c'(3))
      note IH = Cons.IH [OF c'(1) good(2) this Cons.prems(4) rec]
      have app: "?p @ suf = ?es" by simp
      have f: "fill ?f ?es (view s2) = fill ?f ?es ?t"
        unfolding c'(3) using False by (intro fill_step) auto
      show ?thesis
      proof (cases "suf = []")
        case True
        then have "?es \<in> dom (view s2)" "\<not> 0 \<le> sint (actualVersion (ItemIdent item))"
          using c'(3) go by auto
        then show ?thesis using IH f unfolding app by simp
      next
        case ne: False
        then have d: "?es \<in> dom (view s2) \<longleftrightarrow> ?es \<in> dom ?t" by (simp add: c'(3))
        have fb: "fill ?f (butlast ?es) (view s2) = fill ?f (butlast ?es) ?t"
          unfolding c'(3) using False ne by (intro fill_step) (auto simp: butlast_append)
        show ?thesis using IH unfolding app d f fb .
      qed
    qed
  qed
qed

lemma setFully_quiet:
  assumes "invar s" "good_elems es" "es \<noteq> []" "conn st = S" "identPath st (ItemIdent item) = Inr (abs_path es)"
    "setFully st item s = (r, s')"
  shows "invar s' \<and>
    (if es \<notin> dom (view s) \<and> 0 \<le> sint (actualVersion (ItemIdent item))
     then r = (None, Some ErrVersionConflict) \<and> view s' = fill (node_data item es) (butlast es) (view s)
     else \<exists>stat d. r = (Some stat, None) \<and> view s' = fill (node_data item es) es (view s) \<and>
       view s' es = Some (d, StatVersion stat))"
proof -
  let ?t = "view s"
  have root: "[] \<in> dom ?t" using view_wf [OF assms(1)] by (simp add: wf_tree_def)
  have split: "Split (abs_path es) CHR ''/'' = [] # es"
    using assms(2,3) by (simp add: Split_abs_path good_elems_plain)
  have join: "path_Join [''/'', []] = abs_path []"
    by code_simp
  obtain q s1 where q: "Conn_Exists S (abs_path []) s = (q, s1)" by fastforce
  from Conn_Exists_quiet [OF assms(1) _ q] root obtain stat where
    s1: "invar s1" "view s1 = ?t" "q = (True, Some stat, None)"
    by (auto split: option.splits)
  obtain e s2 where e: "setFully_loop st item (Suc (length ([] @ es))) (Suc (length ([] :: string list))) (abs_path []) es s1 = (e, s2)"
    by fastforce
  have first: "setFully_loop st item (length ([] # es)) 0 ''/'' ([] # es) s = (e, s2)"
    using e q s1(3) assms(4) by (simp add: join del: path_Join.simps)
  note loop = setFully_loop_quiet [OF s1(1) _ _ assms(4) e, simplified append_Nil s1(2), OF assms(2) root]
  show ?thesis
  proof (cases "es \<notin> dom ?t \<and> 0 \<le> sint (actualVersion (ItemIdent item))")
    case True
    with loop first assms(5,6) show ?thesis by (auto simp: setFully_def split)
  next
    case False
    then have ok: "invar s2" "e = None" "view s2 = fill (node_data item es) es ?t" using loop by auto
    then have "es \<in> dom (view s2)" by (auto simp: fill_def)
    obtain x s3 where x: "Conn_Exists S (abs_path es) s2 = (x, s3)" by fastforce
    from Conn_Exists_quiet [OF ok(1) assms(2) x] \<open>es \<in> dom (view s2)\<close> obtain stat' d where
      s3: "invar s3" "view s3 = view s2" "x = (True, Some stat', None)" "view s2 es = Some (d, StatVersion stat')"
      by (auto split: option.splits)
    have "s' = s3" "r = (Some stat', None)"
      using assms(4-6) ok(2) first x s3(3) by (auto simp: setFully_def split mustExist_def Wrap_def)
    with False s3 ok show ?thesis by auto
  qed
qed

lemma Put_quiet:
  assumes "invar s" "good_elems es" "es \<noteq> []" "conn st = S" "identPath st (ItemIdent item) = Inr (abs_path es)"
    "Item_Validate item = None" "Store_Put st item s = (r, s')"
  shows "invar s' \<and>
    (case view s es of
       Some (d, u) \<Rightarrow>
         if creatingNewItem item \<or> actualVersion (ItemIdent item) \<notin> {-1, u}
         then r = (ItemIdent item, Some ErrVersionConflict) \<and> view s' = view s
         else r = ((ItemIdent item)\<lparr>IdentVersion := NewVersion (u + 1)\<rparr>, None) \<and>
           view s' = (view s)(es \<mapsto> (Data item, u + 1))
     | None \<Rightarrow>
         if 0 \<le> sint (actualVersion (ItemIdent item))
         then r = (ItemIdent item, Some ErrVersionConflict) \<and>
           view s' = fill (node_data item es) (butlast es) (view s)
         else r = ((ItemIdent item)\<lparr>IdentVersion := NewVersion 0\<rparr>, None) \<and>
           view s' = fill (node_data item es) es (view s))"
proof -
  let ?id = "ItemIdent item" and ?t = "view s"
  let ?full = "\<lambda>s1. case setFully st item s1 of
      ((stat, Some err), s2) \<Rightarrow> ((?id, Some err), s2) | ((stat, None), s2) \<Rightarrow> (with_version ?id stat, s2)"
  have full: "invar s' \<and>
      (if 0 \<le> sint (actualVersion ?id)
       then r = (?id, Some ErrVersionConflict) \<and> view s' = fill (node_data item es) (butlast es) ?t
       else r = (?id\<lparr>IdentVersion := NewVersion 0\<rparr>, None) \<and> view s' = fill (node_data item es) es ?t)"
    if s1: "invar s1" "view s1 = ?t" "?t es = None" and run: "?full s1 = (r, s')" for s1
  proof -
    obtain q s2 where q: "setFully st item s1 = (q, s2)" by fastforce
    have nd: "es \<notin> dom ?t" using s1(3) by auto
    note sf = setFully_quiet [OF s1(1) assms(2-5) q, unfolded s1(2)]
    show ?thesis
    proof (cases "0 \<le> sint (actualVersion ?id)")
      case True
      with sf nd have "invar s2" "q = (None, Some ErrVersionConflict)"
        "view s2 = fill (node_data item es) (butlast es) ?t" by auto
      with True run q show ?thesis by auto
    next
      case False
      then have c: "\<not> (es \<notin> dom ?t \<and> 0 \<le> sint (actualVersion ?id))" by simp
      from sf [unfolded if_not_P [OF c]] obtain stat d where *: "invar s2" "q = (Some stat, None)"
        "view s2 = fill (node_data item es) es ?t" "view s2 es = Some (d, StatVersion stat)"
        by blast
      with nd have "StatVersion stat = 0" by simp
      with * False run q show ?thesis by (auto simp: with_version_def)
    qed
  qed
  show ?thesis
  proof (cases "creatingNewItem item")
    case True
    then have v: "\<not> 0 \<le> sint (actualVersion ?id)"
      by (auto simp: creatingNewItem_def actualVersion_def Version_Value_def NoPriorVersion_def)
    obtain q s1 where q: "Conn_Exists S (abs_path es) s = (q, s1)" by fastforce
    note ex = Conn_Exists_quiet [OF assms(1,2) q]
    show ?thesis
    proof (cases "?t es")
      case None
      with ex have "invar s1" "view s1 = ?t" "q = (False, Some zero_Stat, None)" by auto
      moreover from this have "?full s1 = (r, s')"
        using assms(4-7) True q by (simp add: Store_Put_def Let_def)
      ultimately show ?thesis using full [of s1] None v by simp
    next
      case (Some n)
      with ex obtain stat where "invar s1" "view s1 = ?t" "q = (True, Some stat, None)" by (cases n) auto
      with Some assms(4-7) True q show ?thesis by (cases n) (auto simp: Store_Put_def)
    qed
  next
    case False
    obtain q s1 where q: "Conn_Set S (abs_path es) (Data item) (actualVersion ?id) s = (q, s1)" by fastforce
    note set = Conn_Set_quiet [OF assms(1,2) q]
    show ?thesis
    proof (cases "?t es")
      case None
      with set have "invar s1" "view s1 = ?t" "q = (Some zero_Stat, Some ErrNoNode)" by auto
      moreover from this have "?full s1 = (r, s')"
        using assms(4-7) False q by (simp add: Store_Put_def Let_def)
      ultimately show ?thesis using full [of s1] None by simp
    next
      case (Some n)
      obtain d u where n: "n = (d, u)" by fastforce
      show ?thesis
      proof (cases "actualVersion ?id \<in> {-1, u}")
        case True
        with set Some n obtain stat where "invar s1" "q = (Some stat, None)" "StatVersion stat = u + 1"
          "view s1 = ?t(es \<mapsto> (Data item, u + 1))" by auto
        with True Some n assms(4-7) False q show ?thesis by (auto simp: Store_Put_def Let_def with_version_def)
      next
        case bad: False
        with set Some n have "invar s1" "q = (Some zero_Stat, Some ErrBadVersion)" "view s1 = ?t" by auto
        with bad Some n assms(4-7) False q show ?thesis by (auto simp: Store_Put_def Let_def)
      qed
    qed
  qed
qed

lemma Get_quiet:
  assumes "invar s" "good_elems es" "conn st = S" "identPath st ident = Inr (abs_path es)"
    "Ident_Validate ident = None" "Store_Get st ident s = (r, s')"
  shows "invar s' \<and> view s' = view s \<and>
    r = (case view s es of
           None \<Rightarrow> (zero_Item, Some ErrNotFound)
         | Some (d, u) \<Rightarrow> (\<lparr>ItemIdent = ident\<lparr>IdentVersion := NewVersion u\<rparr>, Data = d\<rparr>, None))"
proof -
  obtain q s1 where q: "Conn_Get S (abs_path es) s = (q, s1)" by fastforce
  from Conn_Get_quiet [OF assms(1,2) q] assms(3-6) q show ?thesis
    by (auto simp: Store_Get_def split: option.splits)
qed

lemma Variants_quiet:
  assumes "invar s" "good_elems es" "conn st = S"
    "identPath st \<lparr>IdentLocation = l, Variant = [], IdentVersion = zero_Version\<rparr> = Inr (abs_path es)"
    "Location_Validate l = None" "Store_Variants st l s = (r, s')"
  shows "invar s' \<and> view s' = view s \<and>
    (if es \<in> dom (view s)
     then \<exists>vs. r = (vs, None) \<and> set vs = znode_children (view s) es \<and> distinct vs
     else r = ([], Some ErrNotFound))"
proof -
  obtain q s1 where q: "Conn_Children S (abs_path es) s = (q, s1)" by fastforce
  from Conn_Children_quiet [OF assms(1,2) q] assms(3-6) q show ?thesis
    by (auto simp: Store_Variants_def split: option.splits if_splits)
qed

lemma deleteVariant_quiet:
  assumes "invar s" "good_elems es" "es \<noteq> []" "conn st = S" "identPath st ident = Inr (abs_path es)"
    "deleteVariant st ident s = (r, s')"
  shows "invar s' \<and>
    (case view s es of
       None \<Rightarrow> r = None \<and> view s' = view s
     | Some (d, u) \<Rightarrow>
         if actualVersion ident \<notin> {-1, u} then r = Some ErrVersionConflict \<and> view s' = view s
         else if znode_children (view s) es \<noteq> {} then r = Some (ZkErr ErrNotEmpty) \<and> view s' = view s
         else r = None \<and> view s' = (view s)(es := None))"
proof -
  obtain q s1 where q: "Conn_Delete S (abs_path es) (actualVersion ident) s = (q, s1)" by fastforce
  from Conn_Delete_quiet [OF assms(1-3) q] assms(4-6) q show ?thesis
    by (auto simp: deleteVariant_def delete_result_def split: option.splits if_splits)
qed

lemma deleteVariants_quiet:
  assumes "invar s" "conn st = S" "good_elems es" "distinct vs"
    and vs: "set vs \<subseteq> znode_children (view s) es"
    and leaf: "\<And>v. v \<in> set vs \<Longrightarrow> list_all printable v \<and> znode_children (view s) (es @ [v]) = {}"
    and path: "\<And>v. v \<in> set vs \<Longrightarrow>
      identPath st (ident\<lparr>Variant := v, IdentVersion := zero_Version\<rparr>) = Inr (abs_path (es @ [v]))"
    and run: "deleteVariants st ident vs s = (r, s')"
  shows "invar s' \<and> r = None \<and>
    view s' = (\<lambda>p. if p \<in> (\<lambda>v. es @ [v]) ` set vs then None else view s p)"
  using assms
proof (induction vs arbitrary: s)
  case (Cons v vs)
  let ?t = "view s" and ?i = "ident\<lparr>Variant := v, IdentVersion := zero_Version\<rparr>"
  obtain d u where n: "?t (es @ [v]) = Some (d, u)"
    using Cons.prems(5) by (auto simp: znode_children_def)
  then have "es @ [v] \<in> dom ?t" by auto
  then have "plain v" using view_wf [OF Cons.prems(1)] by (auto simp: wf_tree_def)
  then have good: "good_elems (es @ [v])" using Cons.prems(3,6) by simp
  obtain q s1 where q: "deleteVariant st ?i s = (q, s1)" by fastforce
  have "actualVersion ?i = -1" by (simp add: actualVersion_def Version_Value_def zero_Version_def)
  with deleteVariant_quiet [OF Cons.prems(1) good _ Cons.prems(2) _ q] Cons.prems(6,7) n
  have s1: "invar s1" "q = None" "view s1 = ?t(es @ [v] := None)" by auto
  have sub: "znode_children (view s1) p \<subseteq> znode_children ?t p" for p
    by (auto simp: s1(3) znode_children_def split: if_splits)
  have "invar s' \<and> r = None \<and>
    view s' = (\<lambda>p. if p \<in> (\<lambda>v. es @ [v]) ` set vs then None else view s1 p)"
  proof (rule Cons.IH [OF s1(1) Cons.prems(2,3)])
    show "distinct vs" using Cons.prems(4) by simp
    show "set vs \<subseteq> znode_children (view s1) es"
      using Cons.prems(4,5) by (auto simp: s1(3) znode_children_def)
    show "list_all printable w \<and> znode_children (view s1) (es @ [w]) = {}" if "w \<in> set vs" for w
      using Cons.prems(6) [of w] that sub [of "es @ [w]"] by auto
    show "deleteVariants st ident vs s1 = (r, s')"
      using Cons.prems(8) q s1(2) by simp
  qed (use Cons.prems(7) in auto)
  then show ?case by (auto simp: s1(3) fun_eq_iff)
qed auto

end

section \<open>Deleting an item with its variants\<close>

lemma comprehension_insert:
  "{F c | b' c. b' \<in> insert b B \<and> P b' c} = F ` {c. P b c} \<union> {F c | b' c. b' \<in> B \<and> P b' c}"
  by auto

definition prune :: "string list \<Rightarrow> ztree \<Rightarrow> ztree" where
  "prune es t = (\<lambda>p. if p \<noteq> [] \<and> butlast p = es then None else t p)"

lemma store_node_variant:
  assumes "store_node st ident = Some es" "Variant ident = []" "v \<noteq> []"
  shows "store_node st (ident\<lparr>Variant := v, IdentVersion := w\<rparr>) = Some (es @ [v])"
  using assms by (auto simp: store_node_def ident_elems_def split: sum.splits if_splits)

lemma store_node_location:
  assumes "store_node st ident = Some es" "Variant ident = []" "IdentLocation ident = l"
  shows "store_node st \<lparr>IdentLocation = l, Variant = [], IdentVersion = w\<rparr> = Some es"
  using assms by (auto simp: store_node_def ident_elems_def split: sum.splits if_splits)

text \<open>The children of a node are ordinary variants: leaves with printable names.\<close>

definition leaf_children :: "ztree \<Rightarrow> string list \<Rightarrow> bool" where
  "leaf_children t es \<longleftrightarrow>
     (\<forall>v \<in> znode_children t es. list_all printable v \<and> znode_children t (es @ [v]) = {})"

context zk_quiet
begin

lemma child_plain: "invar s \<Longrightarrow> v \<in> znode_children (view s) es \<Longrightarrow> plain v"
  using wf_tree_plain [OF view_wf, of s "es @ [v]"] by (simp add: znode_children_def)

lemma deleteItem_quiet:
  assumes "invar s" "conn st = S" "wf_store st" "list_all printable (basePath st)"
    and "Ident_Validate ident = None" "Variant ident = []" "store_node st ident = Some es"
    and leaf: "leaf_children (view s) es"
    and run: "deleteItem st ident s = (r, s')"
  shows "invar s' \<and>
    (case view s es of
       None \<Rightarrow> r = None \<and> view s' = view s
     | Some (d, u) \<Rightarrow>
         if actualVersion ident \<notin> {-1, u} then r = Some ErrVersionConflict \<and> view s' = prune es (view s)
         else r = None \<and> view s' = (prune es (view s))(es := None))"
proof -
  let ?t = "view s" and ?l = "IdentLocation ident"
  note node = store_node_good [OF assms(3,4,5,7)]
  have loc: "Location_Validate ?l = None" using assms(5) by (rule valid_ident_location)
  have lpath: "identPath st \<lparr>IdentLocation = ?l, Variant = [], IdentVersion = zero_Version\<rparr> = Inr (abs_path es)"
    using store_node_location [OF assms(7,6) refl] assms(3) loc by (intro store_node_path) auto
  obtain q s1 where q: "Store_Variants st ?l s = (q, s1)" by fastforce
  note vars = Variants_quiet [OF assms(1) node(2) assms(2) lpath loc q]
  show ?thesis
  proof (cases "?t es")
    case None
    then have "es \<notin> dom ?t" by auto
    with vars None q run show ?thesis by (auto simp: deleteItem_def)
  next
    case (Some n)
    obtain d u where n: "n = (d, u)" by fastforce
    from Some have "es \<in> dom ?t" by auto
    with vars obtain vs where s1: "invar s1" "view s1 = ?t" "q = (vs, None)"
      and vs: "set vs = znode_children ?t es" "distinct vs" by auto
    obtain e s2 where e: "deleteVariants st ident vs s1 = (e, s2)" by fastforce
    have path: "identPath st (ident\<lparr>Variant := v, IdentVersion := zero_Version\<rparr>) = Inr (abs_path (es @ [v]))"
      if "v \<in> set vs" for v
    proof -
      have "plain v" using child_plain [OF assms(1)] vs(1) that by blast
      then show ?thesis
        using store_node_variant [OF assms(7,6)] assms(3) loc
        by (intro store_node_path) (auto simp: plain_def)
    qed
    have "invar s2 \<and> e = None \<and>
        view s2 = (\<lambda>p. if p \<in> (\<lambda>v. es @ [v]) ` set vs then None else view s1 p)"
      using leaf vs s1 path
      by (intro deleteVariants_quiet [OF s1(1) assms(2) node(2) vs(2) _ _ _ e]) (auto simp: leaf_children_def)
    moreover have "(\<lambda>p. if p \<in> (\<lambda>v. es @ [v]) ` set vs then None else view s1 p) = prune es ?t"
    proof
      fix p
      show "(if p \<in> (\<lambda>v. es @ [v]) ` set vs then None else view s1 p) = prune es ?t p"
        by (cases p rule: rev_cases) (auto simp: prune_def s1(2) vs(1) znode_children_def domIff)
    qed
    ultimately have s2: "invar s2" "e = None" "view s2 = prune es ?t" by simp_all
    have es2: "view s2 es = Some (d, u)"
      using Some n by (cases es rule: rev_cases) (auto simp: s2(3) prune_def)
    have nochild: "znode_children (view s2) es = {}"
      by (auto simp: s2(3) prune_def znode_children_def)
    obtain c s3 where c: "Conn_Delete S (abs_path es) (actualVersion ident) s2 = (c, s3)" by fastforce
    have "r = delete_result c" "s' = s3"
      using run q s1(3) e s2(2) node(1) c assms(2) by (auto simp: deleteItem_def)
    with Conn_Delete_quiet [OF s2(1) node(2,3) c] es2 nochild s2(3) Some n show ?thesis
      by (auto simp: delete_result_def split: if_splits)
  qed
qed

lemma List_loop_quiet:
  assumes "invar s" "conn st = S" "good_elems bs"
    and bks: "set bks \<subseteq> znode_children (view s) bs" "\<And>b. b \<in> set bks \<Longrightarrow> list_all printable b"
    and run: "List_loop st category (abs_path bs) locs bks s = (r, s')"
  shows "invar s' \<and> view s' = view s \<and>
    (\<exists>ls. r = (ls, None) \<and> set ls = set locs \<union>
       {\<lparr>Category = category, Name = c\<rparr> | b c. b \<in> set bks \<and> bs @ [b, c] \<in> dom (view s)})"
  using assms
proof (induction bks arbitrary: s locs)
  case (Cons b bks)
  let ?t = "view s"
  have good: "good_elems (bs @ [b])"
    using Cons.prems(3-5) child_plain [OF Cons.prems(1)] by auto
  have join: "path_Join [abs_path bs, b] = abs_path (bs @ [b])"
    using good good_elems_plain [of bs] path_Join_abs [of bs "[b]"] by simp
  obtain q s1 where q: "Conn_Children S (abs_path (bs @ [b])) s = (q, s1)" by fastforce
  have "bs @ [b] \<in> dom ?t" using Cons.prems(4) by (auto simp: znode_children_def)
  with Conn_Children_quiet [OF Cons.prems(1) good q] obtain cs stat where
    s1: "invar s1" "view s1 = ?t" "q = (cs, Some stat, None)" "set cs = znode_children ?t (bs @ [b])" by auto
  have base: "map (\<lambda>child. \<lparr>Category = category, Name = path_Base child\<rparr>) cs =
      map (\<lambda>child. \<lparr>Category = category, Name = child\<rparr>) cs"
    using child_plain [OF Cons.prems(1)] s1(4) by (auto simp: path_Base_plain)
  have "List_loop st category (abs_path bs)
      (locs @ map (\<lambda>child. \<lparr>Category = category, Name = child\<rparr>) cs) bks s1 = (r, s')"
    using Cons.prems(2,6) q s1(3) join base by (simp del: path_Join.simps)
  from Cons.IH [OF s1(1) Cons.prems(2,3) _ _ this, unfolded s1(2)] Cons.prems(4,5) obtain ls where
    "invar s'" "view s' = ?t" and ls: "r = (ls, None)"
    "set ls = set (locs @ map (\<lambda>child. \<lparr>Category = category, Name = child\<rparr>) cs) \<union>
       {\<lparr>Category = category, Name = c\<rparr> | b c. b \<in> set bks \<and> bs @ [b, c] \<in> dom ?t}"
    by fastforce
  moreover have "set cs = {c. bs @ [b, c] \<in> dom ?t}" by (simp add: s1(4) znode_children_def)
  with ls(2) have "set ls = set locs \<union>
      {\<lparr>Category = category, Name = c\<rparr> | b' c. b' \<in> set (b # bks) \<and> bs @ [b', c] \<in> dom ?t}"
    unfolding list.set(2) comprehension_insert by (simp only: set_append set_map Un_assoc)
  ultimately show ?case by blast
qed auto

lemma List_quiet:
  assumes "invar s" "conn st = S" "good_elems bs" "ValidateCategory category = None"
    and "bucketsPath st category = Inr (abs_path bs)"
    and "\<And>b. b \<in> znode_children (view s) bs \<Longrightarrow> list_all printable b"
    and run: "Store_List st category s = (r, s')"
  shows "invar s' \<and> view s' = view s \<and>
    (if bs \<in> dom (view s) then
       \<exists>ls. r = (ls, None) \<and>
         set ls = {\<lparr>Category = category, Name = c\<rparr> | b c. bs @ [b, c] \<in> dom (view s)}
     else r = ([], Some ErrNotFound))"
proof -
  let ?t = "view s"
  obtain q s1 where q: "Conn_Children S (abs_path bs) s = (q, s1)" by fastforce
  note ch = Conn_Children_quiet [OF assms(1,3) q]
  show ?thesis
  proof (cases "bs \<in> dom ?t")
    case False
    with ch assms(2,4,5) run q show ?thesis by (auto simp: Store_List_def)
  next
    case True
    with ch obtain cs stat where s1: "invar s1" "view s1 = ?t" "q = (cs, Some stat, None)"
      "set cs = znode_children ?t bs" by auto
    have mem: "b \<in> set cs" if "bs @ [b, c] \<in> dom ?t" for b c
      using wf_tree_parent [of ?t "bs @ [b]" c] view_wf [OF assms(1)] that
      by (simp add: s1(4) znode_children_def)
    have "List_loop st category (abs_path bs) [] cs s1 = (r, s')"
      using run assms(2,4,5) q s1(3) by (cases cs) (auto simp: Store_List_def)
    from List_loop_quiet [OF s1(1) assms(2,3) _ _ this, unfolded s1(2)] assms(6) s1(4) obtain ls where
      "invar s'" "view s' = ?t" "r = (ls, None)" and
      ls: "set ls = set [] \<union> {\<lparr>Category = category, Name = c\<rparr> | b c. b \<in> set cs \<and> bs @ [b, c] \<in> dom ?t}"
      by blast
    moreover from ls mem have "set ls = {\<lparr>Category = category, Name = c\<rparr> | b c. bs @ [b, c] \<in> dom ?t}"
      unfolding list.set(1) by blast
    ultimately show ?thesis using True by simp
  qed
qed

end

end
