(* ===== verification/Zkstore_Abstract.thy ===== *)
theory Zkstore_Abstract
  imports Zkstore_Quiet
begin

text \<open>
  The store as its clients see it: a map from keys (category, name, variant) to data and
  version. \<open>contents\<close> reads that map off the tree of znodes; the abstract operations say what
  \<open>Put\<close>, \<open>Get\<close>, \<open>Delete\<close>, \<open>Variants\<close> do to it, and the refinement lemmas show that the store
  does exactly that for every category without the name of the buckets node in it.
\<close>

section \<open>Keys and contents\<close>

type_synonym key = "string list \<times> string \<times> string"

definition key_of :: "Ident \<Rightarrow> key" where
  "key_of ident = (path_elems (Category (IdentLocation ident)), Name (IdentLocation ident), Variant ident)"

definition key_elems :: "'s Store \<Rightarrow> key \<Rightarrow> int \<Rightarrow> string list" where
  "key_elems st k b =
     (case k of (c, n, v) \<Rightarrow>
        base_elems st @ c @ [bucketsZnodeName st, Itoa b, n] @ (if v = [] then [] else [v]))"

definition key_node :: "'s Store \<Rightarrow> key \<Rightarrow> string list option" where
  "key_node st k =
     (case k of (c, n, v) \<Rightarrow>
        if bucketsZnodeName st \<in> set c then None
        else (case store_bucketFunc st n of Inl _ \<Rightarrow> None | Inr b \<Rightarrow> Some (key_elems st k b)))"

definition contents :: "'s Store \<Rightarrow> ztree \<Rightarrow> key \<rightharpoonup> znode" where
  "contents st t k = (case key_node st k of None \<Rightarrow> None | Some es \<Rightarrow> t es)"

definition proper :: "'s Store \<Rightarrow> Location \<Rightarrow> bool" where
  "proper st l \<longleftrightarrow> bucketsZnodeName st \<notin> set (path_elems (Category l)) \<and>
     (\<exists>b. store_bucketFunc st (Name l) = Inr b)"

definition item_key :: "key \<Rightarrow> key" where
  "item_key k = (case k of (c, n, v) \<Rightarrow> (c, n, []))"

lemma proper_node:
  assumes "proper st (IdentLocation ident)"
  shows "\<exists>es. key_node st (key_of ident) = Some es \<and> store_node st ident = Some es"
  using assms
  by (auto simp: proper_def key_node_def store_node_def key_of_def bad_category_def key_elems_def
      ident_elems_def item_elems_def buckets_elems_def) (metis last_in_set)

lemma first_marker:
  assumes "x @ m # u = y @ m # w" "m \<notin> set x" "m \<notin> set y"
  shows "x = y \<and> u = w"
proof -
  have "takeWhile ((\<noteq>) m) (x @ m # u) = x" "takeWhile ((\<noteq>) m) (y @ m # w) = y"
    using assms(2,3) by (auto simp: takeWhile_append)
  with assms(1) show ?thesis by auto
qed

lemma key_node_prefix:
  assumes "key_node st k = Some es" "key_node st k' = Some es'" "prefix es' es"
  shows "k' = k \<or> k' = item_key k \<and> es = es' @ [snd (snd k)] \<and> snd (snd k) \<noteq> []"
proof -
  obtain c n v c' n' v' where k: "k = (c, n, v)" "k' = (c', n', v')" by (metis prod_cases3)
  let ?B = "bucketsZnodeName st" and ?v = "if v = [] then [] else [v]" and ?v' = "if v' = [] then [] else [v']"
  obtain b b' where b: "?B \<notin> set c" "?B \<notin> set c'"
    "es = base_elems st @ c @ ?B # [Itoa b, n] @ ?v" "es' = base_elems st @ c' @ ?B # [Itoa b', n'] @ ?v'"
    using assms(1,2) by (auto simp: k key_node_def key_elems_def split: if_splits sum.splits)
  obtain z where "es = es' @ z" using assms(3) by (auto simp: prefix_def)
  then have "c @ ?B # [Itoa b, n] @ ?v = c' @ ?B # [Itoa b', n'] @ ?v' @ z" by (simp add: b)
  from first_marker [OF this b(1,2)] have "c = c'" "n = n'" "Itoa b = Itoa b'" "?v = ?v' @ z" by auto
  then show ?thesis
    by (cases "v = []"; cases "v' = []") (auto simp: k item_key_def b)
qed

lemma key_node_inject: "key_node st k = Some es \<Longrightarrow> key_node st k' = Some es \<Longrightarrow> k' = k"
  using key_node_prefix [of st k es k' es] by auto

lemma key_node_item:
  assumes "key_node st (c, n, v) = Some es" "v \<noteq> []"
  shows "key_node st (c, n, []) = Some (butlast es)"
  using assms by (auto simp: key_node_def key_elems_def butlast_append split: if_splits sum.splits)

section \<open>Abstract operations\<close>

definition with_item :: "Item \<Rightarrow> (key \<rightharpoonup> znode) \<Rightarrow> key \<rightharpoonup> znode" where
  "with_item item m =
     (let k = item_key (key_of (ItemIdent item)) in
      if Variant (ItemIdent item) \<noteq> [] \<and> m k = None then m(k \<mapsto> (Data item, 0)) else m)"

definition abs_put :: "Item \<Rightarrow> (key \<rightharpoonup> znode) \<Rightarrow> (Ident \<times> store_error option) \<times> (key \<rightharpoonup> znode)" where
  "abs_put item m =
     (let ident = ItemIdent item; k = key_of ident; v = actualVersion ident in
      case m k of
        Some (d, u) \<Rightarrow>
          if creatingNewItem item \<or> v \<notin> {-1, u} then ((ident, Some ErrVersionConflict), m)
          else ((ident\<lparr>IdentVersion := NewVersion (u + 1)\<rparr>, None), m(k \<mapsto> (Data item, u + 1)))
      | None \<Rightarrow>
          if 0 \<le> sint v then ((ident, Some ErrVersionConflict), with_item item m)
          else ((ident\<lparr>IdentVersion := NewVersion 0\<rparr>, None), (with_item item m)(k \<mapsto> (Data item, 0))))"

definition abs_get :: "Ident \<Rightarrow> (key \<rightharpoonup> znode) \<Rightarrow> Item \<times> store_error option" where
  "abs_get ident m =
     (case m (key_of ident) of
        None \<Rightarrow> (zero_Item, Some ErrNotFound)
      | Some (d, u) \<Rightarrow> (\<lparr>ItemIdent = ident\<lparr>IdentVersion := NewVersion u\<rparr>, Data = d\<rparr>, None))"

definition abs_delete :: "Ident \<Rightarrow> (key \<rightharpoonup> znode) \<Rightarrow> store_error option \<times> (key \<rightharpoonup> znode)" where
  "abs_delete ident m =
     (let k = key_of ident;
          m1 = (if Variant ident = [] then (\<lambda>k'. if k' \<noteq> k \<and> item_key k' = k then None else m k') else m)
      in case m k of
           None \<Rightarrow> (None, m)
         | Some (d, u) \<Rightarrow>
             if actualVersion ident \<notin> {-1, u} then (Some ErrVersionConflict, m1)
             else (None, m1(k := None)))"

section \<open>How changes of the tree change the contents\<close>

lemma butlast_ne: "xs \<noteq> [] \<Longrightarrow> butlast xs \<noteq> xs"
  by (cases xs rule: rev_cases) auto

lemma contents_upd:
  assumes "key_node st k = Some es"
  shows "contents st (t(es := n)) = (contents st t)(k := n)"
proof
  fix k'
  show "contents st (t(es := n)) k' = ((contents st t)(k := n)) k'"
    using assms key_node_inject [OF assms, of k']
    by (cases "k' = k") (auto simp: contents_def split: option.splits)
qed

lemma contents_fill_at:
  assumes "key_node st k' = Some es'"
  shows "contents st (fill f x t) k' =
    (if contents st t k' = None \<and> prefix es' x then Some (f es', 0) else contents st t k')"
  using assms by (auto simp: contents_def fill_def)

lemma contents_fill_parent:
  assumes k: "key_node st (key_of (ItemIdent item)) = Some es"
  shows "contents st (fill (node_data item es) (butlast es) t) = with_item item (contents st t)"
proof
  fix k'
  let ?k = "key_of (ItemIdent item)" and ?m = "contents st t"
  have v: "snd (snd ?k) = Variant (ItemIdent item)" by (simp add: key_of_def)
  show "contents st (fill (node_data item es) (butlast es) t) k' = with_item item ?m k'"
  proof (cases "key_node st k'")
    case None
    then have "contents st t' k' = None" for t' by (simp add: contents_def)
    moreover have "k' \<noteq> item_key ?k" if "Variant (ItemIdent item) \<noteq> []"
      using None key_node_item [of st _ _ "Variant (ItemIdent item)" es] k that
      by (auto simp: key_of_def item_key_def)
    ultimately show ?thesis by (auto simp: with_item_def Let_def)
  next
    case (Some es')
    have "es \<noteq> []" using k by (auto simp: key_of_def key_node_def key_elems_def split: if_splits sum.splits)
    show ?thesis
    proof (cases "prefix es' (butlast es)")
      case True
      then have "prefix es' es" using prefix_order.trans prefixeq_butlast by blast
      moreover have "es' \<noteq> es"
        using True butlast_ne [OF \<open>es \<noteq> []\<close>] prefixeq_butlast [of es] prefix_order.antisym by blast
      moreover from this have "k' \<noteq> ?k" using Some k by auto
      ultimately have *: "k' = item_key ?k" "es' = butlast es" "Variant (ItemIdent item) \<noteq> []"
        using key_node_prefix [OF k Some] by (auto simp: v)
      then show ?thesis
        unfolding contents_fill_at [OF Some] by (auto simp: with_item_def Let_def node_data_def)
    next
      case False
      have "k' \<noteq> item_key ?k" if "Variant (ItemIdent item) \<noteq> []"
        using False Some key_node_item [of st _ _ "Variant (ItemIdent item)" es] k that
        by (auto simp: key_of_def item_key_def)
      with False show ?thesis
        by (auto simp: contents_fill_at [OF Some] with_item_def Let_def)
    qed
  qed
qed

lemma fill_last:
  assumes "es \<noteq> []" "es \<notin> dom t"
  shows "fill f es t = (fill f (butlast es) t)(es \<mapsto> (f es, 0))"
proof
  fix p
  have "prefix p es \<longleftrightarrow> p = es \<or> prefix p (butlast es)"
    using assms(1) by (metis append_butlast_last_id prefix_snoc)
  with assms(2) show "fill f es t p = ((fill f (butlast es) t)(es \<mapsto> (f es, 0))) p"
    by (auto simp: fill_def)
qed

lemma contents_fill:
  assumes "key_node st (key_of (ItemIdent item)) = Some es" "es \<notin> dom t"
  shows "contents st (fill (node_data item es) es t) =
    (with_item item (contents st t))(key_of (ItemIdent item) \<mapsto> (Data item, 0))"
proof -
  have "es \<noteq> []" using assms(1) by (auto simp: key_of_def key_node_def key_elems_def split: if_splits sum.splits)
  then show ?thesis
    using assms by (simp add: fill_last contents_upd contents_fill_parent node_data_def)
qed

lemma contents_prune:
  assumes "key_node st (c, n, []) = Some es"
  shows "contents st (prune es t) = (\<lambda>k. if k \<noteq> (c, n, []) \<and> item_key k = (c, n, []) then None else contents st t k)"
proof
  fix k
  show "contents st (prune es t) k =
    (if k \<noteq> (c, n, []) \<and> item_key k = (c, n, []) then None else contents st t k)"
  proof (cases "key_node st k")
    case None
    then show ?thesis by (simp add: contents_def)
  next
    case (Some ek)
    have "ek \<noteq> []" using Some by (auto simp: key_node_def key_elems_def split: if_splits sum.splits prod.splits)
    have "butlast ek = es \<longleftrightarrow> k \<noteq> (c, n, []) \<and> item_key k = (c, n, [])"
    proof
      assume "butlast ek = es"
      with \<open>ek \<noteq> []\<close> have "prefix es ek" "es \<noteq> ek"
        using prefixeq_butlast [of ek] butlast_ne [of ek] by auto
      with key_node_prefix [OF Some assms] assms Some show "k \<noteq> (c, n, []) \<and> item_key k = (c, n, [])" by auto
    next
      assume "k \<noteq> (c, n, []) \<and> item_key k = (c, n, [])"
      then obtain v where "k = (c, n, v)" "v \<noteq> []" by (cases k) (auto simp: item_key_def)
      with key_node_item [of st c n v ek] Some assms show "butlast ek = es" by simp
    qed
    then show ?thesis using Some \<open>ek \<noteq> []\<close> by (simp add: contents_def prune_def)
  qed
qed

section \<open>Tidy trees\<close>

text \<open>
  In a tidy tree the nodes of variants are leaves and variants have printable names. It is the
  shape \<open>Put\<close> leaves for proper categories; \<open>Delete\<close> relies on it.
\<close>

definition tidy :: "'s Store \<Rightarrow> ztree \<Rightarrow> bool" where
  "tidy st t \<longleftrightarrow>
     (\<forall>c n v es. key_node st (c, n, v) = Some es \<longrightarrow>
        (if v = [] then \<forall>e \<in> znode_children t es. list_all printable e else znode_children t es = {}))"

lemma tidy_mono: "tidy st t \<Longrightarrow> (\<And>es. znode_children t' es \<subseteq> znode_children t es) \<Longrightarrow> tidy st t'"
  unfolding tidy_def by (smt (verit) subset_iff subset_empty)

lemma tidy_upd: "tidy st t \<Longrightarrow> es \<in> dom t \<Longrightarrow> tidy st (t(es \<mapsto> n))"
  by (erule tidy_mono) (auto simp: znode_children_def)

lemma tidy_del: "tidy st t \<Longrightarrow> tidy st (t(es := None))"
  by (erule tidy_mono) (auto simp: znode_children_def)

lemma tidy_prune: "tidy st t \<Longrightarrow> tidy st (prune es t)"
  by (erule tidy_mono) (auto simp: znode_children_def prune_def split: if_splits)

lemma tidy_fill:
  assumes "tidy st t" "key_node st (c0, n0, v0) = Some es0" "list_all printable v0" "prefix x es0"
  shows "tidy st (fill f x t)"
proof -
  have new: "v = [] \<and> e = v0"
    if k: "key_node st (c, n, v) = Some es" and e: "es @ [e] \<notin> dom t" "es @ [e] \<in> dom (fill f x t)" for c n v es e
  proof -
    have pre: "prefix (es @ [e]) es0"
      using e assms(4) prefix_order.trans by (auto simp: fill_def dom_def split: if_splits)
    then have "prefix es es0" "es \<noteq> es0" by (auto simp: prefix_def)
    moreover from this have "(c, n, v) \<noteq> (c0, n0, v0)" using k assms(2) by auto
    ultimately have "(c, n, v) = item_key (c0, n0, v0)" "es0 = es @ [v0]"
      using key_node_prefix [OF assms(2) k] by auto
    with pre show ?thesis by (auto simp: item_key_def)
  qed
  show ?thesis
    unfolding tidy_def
  proof (intro allI impI)
    fix c n v es assume k: "key_node st (c, n, v) = Some es"
    have old: "if v = [] then \<forall>e \<in> znode_children t es. list_all printable e else znode_children t es = {}"
      using assms(1) k unfolding tidy_def by blast
    show "if v = [] then \<forall>e \<in> znode_children (fill f x t) es. list_all printable e
        else znode_children (fill f x t) es = {}"
      using old new [OF k] assms(3) by (auto simp: znode_children_def split: if_splits)
  qed
qed

lemma tidy_leaf_children:
  assumes "tidy st t" "wf_tree t" "key_node st (c, n, []) = Some es"
  shows "leaf_children t es"
  unfolding leaf_children_def
proof
  fix v assume v: "v \<in> znode_children t es"
  then have "es @ [v] \<in> dom t" by (simp add: znode_children_def)
  then have "v \<noteq> []" using wf_tree_plain [OF assms(2), of "es @ [v]"] by (simp add: plain_def)
  then have "key_node st (c, n, v) = Some (es @ [v])"
    using assms(3) by (auto simp: key_node_def key_elems_def split: if_splits sum.splits)
  then show "list_all printable v \<and> znode_children t (es @ [v]) = {}"
    using assms(1,3) v \<open>v \<noteq> []\<close> unfolding tidy_def by (metis (full_types))
qed

section \<open>The contract of a versioned store\<close>

text \<open>
  What a client of the package relies on: the operations act on an abstract map as the
  abstract operations say. \<open>adm\<close> are the locations the contract speaks about.
\<close>

locale versioned_store =
  fixes put :: "Item \<Rightarrow> 's \<Rightarrow> (Ident \<times> store_error option) \<times> 's"
    and get :: "Ident \<Rightarrow> 's \<Rightarrow> (Item \<times> store_error option) \<times> 's"
    and delete :: "Ident \<Rightarrow> 's \<Rightarrow> store_error option \<times> 's"
    and ok :: "'s \<Rightarrow> bool"
    and abs :: "'s \<Rightarrow> key \<rightharpoonup> znode"
    and adm :: "Location \<Rightarrow> bool"
  assumes put_law: "\<lbrakk>ok s; adm (IdentLocation (ItemIdent item)); Item_Validate item = None; put item s = (r, s')\<rbrakk>
      \<Longrightarrow> ok s' \<and> (r, abs s') = abs_put item (abs s)"
    and get_law: "\<lbrakk>ok s; adm (IdentLocation ident); Ident_Validate ident = None; get ident s = (g, s')\<rbrakk>
      \<Longrightarrow> ok s' \<and> abs s' = abs s \<and> g = abs_get ident (abs s)"
    and delete_law: "\<lbrakk>ok s; adm (IdentLocation ident); Ident_Validate ident = None; delete ident s = (d, s')\<rbrakk>
      \<Longrightarrow> ok s' \<and> (d, abs s') = abs_delete ident (abs s)"
    and item_law: "ok s \<Longrightarrow> abs s (item_key k) = None \<Longrightarrow> abs s k = None"
begin

lemma put_get:
  assumes "ok s" "adm (IdentLocation (ItemIdent item))" "Item_Validate item = None" "adm (IdentLocation ident)" "Ident_Validate ident = None"
    and "put item s = ((ident', None), s1)" "get ident s1 = (g, s2)" "key_of ident = key_of (ItemIdent item)"
  shows "g = (\<lparr>ItemIdent = ident\<lparr>IdentVersion := IdentVersion ident'\<rparr>, Data = Data item\<rparr>, None)"
  using put_law [OF assms(1-3,6)] get_law [OF _ assms(4,5,7)] assms(8)
  by (auto simp: abs_put_def abs_get_def Let_def split: option.splits if_splits)

lemma put_twice:
  assumes "ok s" "adm (IdentLocation (ItemIdent item))" "adm (IdentLocation (ItemIdent item'))"
    and "Item_Validate item = None" "Item_Validate item' = None"
    and "key_of (ItemIdent item') = key_of (ItemIdent item)"
    and "IdentVersion (ItemIdent item') = IdentVersion (ItemIdent item)"
    and "hasVersion (IdentVersion (ItemIdent item))"
    and "put item s = ((i1, None), s1)" "put item' s1 = ((i2, e), s2)"
  shows "e = Some ErrVersionConflict"
proof -
  let ?k = "key_of (ItemIdent item)" and ?v = "version_int32 (IdentVersion (ItemIdent item))"
  have av: "actualVersion (ItemIdent item) = ?v" "actualVersion (ItemIdent item') = ?v"
    "creatingNewItem item \<longleftrightarrow> ?v = -1" "creatingNewItem item' \<longleftrightarrow> ?v = -1"
    using assms(7,8) by (auto simp: actualVersion_def Version_Value_def creatingNewItem_def NoPriorVersion_def)
  have p1: "ok s1" "((i1, None), abs s1) = abs_put item (abs s)" using put_law [OF assms(1,2,4,9)] by auto
  have p2: "((i2, e), abs s2) = abs_put item' (abs s1)" using put_law [OF p1(1) assms(3,5,10)] by auto
  have "(u :: int32) + 1 \<noteq> u" for u by simp
  then have "\<exists>d u. abs s1 ?k = Some (d, u) \<and> (?v = -1 \<or> u \<noteq> ?v)"
    using p1(2) by (auto simp: abs_put_def Let_def av split: option.splits if_splits)
  with p2 show ?thesis by (auto simp: abs_put_def Let_def av assms(6))
qed

lemma get_put_get:
  assumes "ok s" "adm (IdentLocation ident)" "Ident_Validate ident = None" "get ident s = ((item, None), s1)"
    and "Item_Validate (item\<lparr>Data := data\<rparr>) = None" "IdentVersion (ItemIdent item) \<noteq> NewVersion NoPriorVersion"
    and "put (item\<lparr>Data := data\<rparr>) s1 = (r, s2)"
  shows "\<exists>ident'. r = (ident', None) \<and>
    abs s2 = (abs s)(key_of ident \<mapsto> (data, version_int32 (IdentVersion (ItemIdent item)) + 1))"
proof -
  from get_law [OF assms(1-4)] obtain u where g: "ok s1" "abs s1 = abs s" "abs s (key_of ident) = Some (Data item, u)"
    "ItemIdent item = ident\<lparr>IdentVersion := NewVersion u\<rparr>"
    by (auto simp: abs_get_def split: option.splits)
  have loc: "adm (IdentLocation (ItemIdent (item\<lparr>Data := data\<rparr>)))" using assms(2) g(4) by simp
  have k: "key_of (ItemIdent item) = key_of ident" by (simp add: g(4) key_of_def)
  have v: "\<not> creatingNewItem (item\<lparr>Data := data\<rparr>)" "actualVersion (ItemIdent item) = u"
    using assms(6) by (auto simp: g(4) creatingNewItem_def actualVersion_def Version_Value_def NewVersion_def)
  from put_law [OF g(1) loc assms(5,7)] g k v show ?thesis
    by (auto simp: abs_put_def Let_def NewVersion_def)
qed

lemma put_others:
  assumes "ok s" "adm (IdentLocation (ItemIdent item))" "Item_Validate item = None"
    and "adm (IdentLocation ident)" "Ident_Validate ident = None"
    and "put item s = (r, s1)" "get ident s1 = (g1, s2)" "get ident s = (g, s3)"
    and "key_of ident \<noteq> key_of (ItemIdent item)"
  shows "g1 = g \<or>
    Variant (ItemIdent item) \<noteq> [] \<and> key_of ident = item_key (key_of (ItemIdent item)) \<and>
    g = (zero_Item, Some ErrNotFound) \<and> g1 = (\<lparr>ItemIdent = ident\<lparr>IdentVersion := NewVersion 0\<rparr>, Data = Data item\<rparr>, None)"
proof -
  from put_law [OF assms(1-3,6)] have s1: "ok s1" "(r, abs s1) = abs_put item (abs s)" by auto
  have g: "g = abs_get ident (abs s)" "g1 = abs_get ident (abs s1)"
    using get_law [OF assms(1,4,5,8)] get_law [OF s1(1) assms(4,5,7)] by auto
  have "abs s1 (key_of ident) \<in> {abs s (key_of ident), with_item item (abs s) (key_of ident)}"
    using s1(2) assms(9) by (auto simp: abs_put_def Let_def split: option.splits if_splits)
  then show ?thesis using g by (auto simp: abs_get_def with_item_def Let_def split: if_splits)
qed

lemma delete_get:
  assumes "ok s" "adm (IdentLocation ident)" "Ident_Validate ident = None"
    and "adm (IdentLocation ident')" "Ident_Validate ident' = None"
    and "delete ident s = (None, s1)" "get ident' s1 = (g, s2)"
    and "key_of ident' = key_of ident \<or> item_key (key_of ident') = key_of ident"
  shows "g = (zero_Item, Some ErrNotFound)"
proof -
  from delete_law [OF assms(1-3,6)] have s1: "ok s1" "(None, abs s1) = abs_delete ident (abs s)" by auto
  have "Variant ident = [] \<or> key_of ident' = key_of ident"
    using assms(8) by (auto simp: key_of_def item_key_def)
  with s1(2) assms(8) item_law [OF assms(1), of "key_of ident'"] have "abs s1 (key_of ident') = None"
    by (auto simp: abs_delete_def Let_def split: option.splits if_splits)
  with get_law [OF s1(1) assms(4,5,7)] show ?thesis by (simp add: abs_get_def)
qed

end

section \<open>The store keeps the contract\<close>

locale quiet_store = zk_quiet S view invar env
  for S :: "'s session" and view :: "'s \<Rightarrow> ztree" and invar :: "'s \<Rightarrow> bool"
    and env :: "ztree \<Rightarrow> ztree \<Rightarrow> bool" +
  fixes st :: "'s Store"
  assumes store_wf: "wf_store st"
    and store_conn: "conn st = S"
    and base_printable: "list_all printable (basePath st)"
begin

lemma Put_refines:
  assumes "invar s" "tidy st (view s)" "proper st (IdentLocation (ItemIdent item))" "Item_Validate item = None"
    and "Store_Put st item s = (r, s')"
  shows "invar s' \<and> tidy st (view s') \<and> (r, contents st (view s')) = abs_put item (contents st (view s))"
proof -
  let ?id = "ItemIdent item" and ?k = "key_of (ItemIdent item)" and ?t = "view s"
  obtain es where es: "key_node st ?k = Some es" "store_node st ?id = Some es"
    using proper_node [OF assms(3)] by blast
  have valid: "Ident_Validate ?id = None"
    using assms(4) by (auto simp: Item_Validate_def Wrap_def split: option.splits if_splits)
  note node = store_node_good [OF store_wf base_printable valid es(2)]
  note put = Put_quiet [OF assms(1) node(2,3) store_conn node(1) assms(4,5)]
  have var: "list_all printable (Variant ?id)"
    using valid_ident_parts(4) [OF valid] by (auto simp: list_all_iff name_char_printable)
  have tid: "tidy st (fill f x ?t)" if "prefix x es" for f x
    using tidy_fill [OF assms(2) es(1) [unfolded key_of_def] var that] .
  have c: "contents st ?t ?k = ?t es" by (simp add: contents_def es)
  show ?thesis
  proof (cases "?t es")
    case None
    then have "es \<notin> dom ?t" by auto
    with None put show ?thesis
      using contents_fill [OF es(1)] contents_fill_parent [OF es(1)] tid [OF prefixeq_butlast]
        tid [OF prefix_order.refl]
      by (auto simp: abs_put_def Let_def c split: if_splits)
  next
    case (Some n)
    obtain d u where n: "n = (d, u)" by fastforce
    have "es \<in> dom ?t" using Some by auto
    with put Some n tidy_upd [OF assms(2)] assms(2) contents_upd [OF es(1)] show ?thesis
      by (auto simp: abs_put_def Let_def c split: if_splits)
  qed
qed

lemma Get_refines:
  assumes "invar s" "proper st (IdentLocation ident)" "Ident_Validate ident = None"
    and "Store_Get st ident s = (r, s')"
  shows "invar s' \<and> view s' = view s \<and> r = abs_get ident (contents st (view s))"
proof -
  obtain es where es: "key_node st (key_of ident) = Some es" "store_node st ident = Some es"
    using proper_node [OF assms(2)] by blast
  note node = store_node_good [OF store_wf base_printable assms(3) es(2)]
  show ?thesis
    using Get_quiet [OF assms(1) node(2) store_conn node(1) assms(3,4)]
    by (simp add: abs_get_def contents_def es)
qed

lemma Delete_refines:
  assumes "invar s" "tidy st (view s)" "proper st (IdentLocation ident)" "Ident_Validate ident = None"
    and "Store_Delete st ident s = (r, s')"
  shows "invar s' \<and> tidy st (view s') \<and> (r, contents st (view s')) = abs_delete ident (contents st (view s))"
proof -
  let ?k = "key_of ident" and ?t = "view s"
  obtain es where es: "key_node st ?k = Some es" "store_node st ident = Some es"
    using proper_node [OF assms(3)] by blast
  note node = store_node_good [OF store_wf base_printable assms(4) es(2)]
  have c: "contents st ?t ?k = ?t es" by (simp add: contents_def es)
  obtain l n where k: "?k = (l, n, Variant ident)" by (simp add: key_of_def)
  show ?thesis
  proof (cases "Variant ident = []")
    case True
    have run: "deleteItem st ident s = (r, s')" using assms(4,5) True by (simp add: Store_Delete_def)
    have leaf: "leaf_children ?t es"
      using tidy_leaf_children [OF assms(2) view_wf [OF assms(1)]] es(1) k True by simp
    note del = deleteItem_quiet [OF assms(1) store_conn store_wf base_printable assms(4) True es(2) leaf run]
    note prune = contents_prune [OF es(1) [unfolded k True], folded True, folded k]
    show ?thesis
    proof (cases "?t es")
      case None
      with del assms(2) c show ?thesis by (simp add: abs_delete_def Let_def)
    next
      case (Some x)
      with del tidy_prune [OF assms(2)] tidy_del [OF tidy_prune [OF assms(2)]] c prune True show ?thesis
        by (cases x) (auto simp: abs_delete_def Let_def contents_upd [OF es(1)] split: if_splits)
    qed
  next
    case False
    have run: "deleteVariant st ident s = (r, s')" using assms(4,5) False by (simp add: Store_Delete_def)
    have "znode_children ?t es = {}"
      using assms(2) es(1) False unfolding tidy_def k by (metis (full_types))
    with deleteVariant_quiet [OF assms(1) node(2,3) store_conn node(1) run] assms(2) tidy_del [OF assms(2)] c False
    show ?thesis
      by (cases "?t es") (auto simp: abs_delete_def Let_def contents_upd [OF es(1)] split: if_splits)
  qed
qed

lemma item_exists:
  assumes "invar s" "contents st (view s) (item_key k) = None"
  shows "contents st (view s) k = None"
proof (rule ccontr)
  assume some: "contents st (view s) k \<noteq> None"
  obtain c n v where k: "k = (c, n, v)" by (cases k)
  obtain es where es: "key_node st k = Some es" "es \<in> dom (view s)"
    using some by (auto simp: contents_def split: option.splits)
  show False
  proof (cases "v = []")
    case False
    then have "key_node st (c, n, []) = Some (butlast es)" using key_node_item es(1) k by blast
    moreover have "butlast es \<in> dom (view s)"
      using prefix_in_tree [OF view_wf [OF assms(1)] es(2) prefixeq_butlast] .
    ultimately show ?thesis using assms(2) by (auto simp: contents_def k item_key_def)
  qed (use assms some k in \<open>simp add: item_key_def\<close>)
qed

lemma versioned:
  "versioned_store (Store_Put st) (Store_Get st) (Store_Delete st) (\<lambda>s. invar s \<and> tidy st (view s))
     (\<lambda>s. contents st (view s)) (proper st)"
proof (unfold_locales, goal_cases)
  case 1
  then show ?case using Put_refines by blast
next
  case (2 s ident g s')
  then show ?case using Get_refines [of s ident g s'] by auto
next
  case 3
  then show ?case using Delete_refines by blast
next
  case 4
  then show ?case using item_exists by blast
qed

end

sublocale quiet_store \<subseteq> kv: versioned_store "Store_Put st" "Store_Get st" "Store_Delete st"
  "\<lambda>s. invar s \<and> tidy st (view s)" "\<lambda>s. contents st (view s)" "proper st"
  by (rule versioned)

end
