(* ===== verification/Zkstore_Theorems.thy ===== *)
theory Zkstore_Theorems
  imports Zkstore_Abstract
begin

text \<open>
  The properties of package \<open>zkstore\<close>, stated over the definitions of the store, with the
  concrete store and server at which their hypotheses hold.
\<close>

section \<open>A concrete store\<close>

text \<open>
  A store over the executable server; the digest is the first byte of the name, so a name
  lies in the bucket numbered by its first character.
\<close>

definition first_byte :: "bytes \<Rightarrow> bytes" where
  "first_byte b = take 1 b"

definition demo_store :: "server Store" where
  "demo_store =
     \<lparr>conn = server_session, basePath = ''/z'', bucketsZnodeName = DefaultBucketsZnodeName,
      acls = DefaultZKACL,
      store_bucketFunc = bucketFunc DefaultNumHashBuckets (DefaultHashProviderFunc first_byte),
      hashProviderFunc = DefaultHashProviderFunc first_byte, hashBuckets = DefaultNumHashBuckets,
      closeFunc = (\<lambda>s. (None, s))\<rparr>"

definition demo_connector :: "server Connector" where
  "demo_connector =
     \<lparr>Connector_Connect = (\<lambda>s. (Inr server_session, s)), Connector_Close = (\<lambda>s. (None, s))\<rparr>"

definition empty_server :: server where
  "empty_server = \<lparr>table = [([], ([], 0))], script = []\<rparr>"

definition demo_ident :: "string \<Rightarrow> Ident" where
  "demo_ident v =
     \<lparr>IdentLocation = \<lparr>Category = ''c'', Name = ''n''\<rparr>, Variant = v, IdentVersion = zero_Version\<rparr>"

definition demo_item :: "string \<Rightarrow> Version \<Rightarrow> bytes \<Rightarrow> Item" where
  "demo_item v ver d = \<lparr>ItemIdent = (demo_ident v)\<lparr>IdentVersion := ver\<rparr>, Data = d\<rparr>"

lemma demo_store_NewStore:
  "NewStore first_byte demo_connector [OptBasePath ''/z''] empty_server = (Inr demo_store, empty_server)"
proof -
  have "path_Clean ''/z'' = ''/z''" by code_simp
  then show ?thesis
    by (simp add: NewStore_def demo_connector_def demo_store_def OptBasePath_def StoreOpt_Apply_def
        HasPrefix_def)
qed

lemma demo_store_wf: "wf_store demo_store"
proof -
  have "exported_opt (OptBasePath ''/z'' :: server StoreOpt)" by (auto simp: exported_opt_def)
  then show ?thesis using NewStore_wf [OF _ demo_store_NewStore] by simp
qed

interpretation demo: quiet_store server_session server_view quiet_invar "(=)" demo_store
proof unfold_locales
  show "wf_store demo_store" by (rule demo_store_wf)
  show "conn demo_store = server_session" by (simp add: demo_store_def)
  show "list_all printable (basePath demo_store)" by code_simp
qed

lemma empty_server_invar: "quiet_invar empty_server"
  by (simp add: quiet_invar_def empty_server_def wf_table_def)

lemma empty_server_view: "server_view empty_server = [[] \<mapsto> ([], 0)]"
  by (simp add: server_view_def empty_server_def)

lemma empty_server_tidy: "tidy st (server_view empty_server)"
  by (simp add: tidy_def empty_server_view znode_children_def)

lemma demo_proper: "proper demo_store (IdentLocation (demo_ident v))"
proof -
  have "bucketsZnodeName demo_store \<notin> set (path_elems ''c'')" "store_bucketFunc demo_store ''n'' = Inr 110"
    by code_simp+
  then show ?thesis by (simp add: proper_def demo_ident_def)
qed

lemma demo_item_valid: "Item_Validate (demo_item ''v'' ver ''one'') = None" "Item_Validate (demo_item [] ver ''two'') = None"
proof -
  have "Ident_Validate (demo_ident ''v'') = None" "Ident_Validate (demo_ident []) = None" by code_simp+
  moreover have "Ident_Validate ((demo_ident v)\<lparr>IdentVersion := ver\<rparr>) = Ident_Validate (demo_ident v)" for v
    by (simp add: Ident_Validate_def demo_ident_def cong: option.case_cong)
  ultimately show "Item_Validate (demo_item ''v'' ver ''one'') = None" "Item_Validate (demo_item [] ver ''two'') = None"
    by (simp_all add: Item_Validate_def demo_item_def MaxDataSize_def)
qed

lemma demo_ident_valid: "Ident_Validate (demo_ident ''v'') = None" "Ident_Validate (demo_ident []) = None"
  by code_simp+

lemma demo_item_simps [simp]:
  "ItemIdent (demo_item v ver d) = (demo_ident v)\<lparr>IdentVersion := ver\<rparr>" "Data (demo_item v ver d) = d"
  "IdentLocation (demo_ident v) = \<lparr>Category = ''c'', Name = ''n''\<rparr>" "Variant (demo_ident v) = v"
  "IdentVersion (demo_ident v) = zero_Version"
  by (simp_all add: demo_item_def demo_ident_def)

lemmas demo_facts = demo.quiet_store_axioms empty_server_invar empty_server_tidy demo_item_valid demo_ident_valid

lemma demo_proper_location [simp]: "proper demo_store \<lparr>Category = ''c'', Name = ''n''\<rparr>"
  using demo_proper by simp

lemma empty_contents [simp]: "contents st (server_view empty_server) = (\<lambda>k. None)"
proof
  fix k
  have "key_node st k \<noteq> Some []"
    by (auto simp: key_node_def key_elems_def split: prod.splits sum.splits if_splits)
  then show "contents st (server_view empty_server) k = None"
    by (auto simp: contents_def empty_server_view split: option.splits)
qed

lemma unversioned [simp]:
  "actualVersion (i\<lparr>IdentVersion := zero_Version\<rparr>) = -1" "actualVersion (demo_ident v) = -1"
  "creatingNewItem (demo_item v zero_Version d) = False"
  by (simp_all add: actualVersion_def Version_Value_def zero_Version_def creatingNewItem_def)

lemma key_of_version [simp]: "key_of (i\<lparr>IdentVersion := w\<rparr>) = key_of i"
  by (simp add: key_of_def)

section \<open>The store refines a versioned map\<close>

text \<open>
  C1: for a store that \<open>NewStore\<close> built, over a service without other writers, \<open>Put\<close> of a valid
  item in a proper category returns exactly what the abstract map's \<open>put\<close> returns and changes
  the contents exactly as it does, on every branch (new item, new variant with its item, update,
  version conflict), and keeps the tree tidy.
\<close>

theorem Put_refines_map:
  assumes "quiet_store S view invar env st" "invar s" "tidy st (view s)"
    and "proper st (IdentLocation (ItemIdent item))" "Item_Validate item = None"
    and "Store_Put st item s = (r, s')"
  shows "invar s' \<and> tidy st (view s') \<and> (r, contents st (view s')) = abs_put item (contents st (view s))"
  using quiet_store.Put_refines [OF assms] .

theorem Put_refines_map_witness:
  "case Store_Put demo_store (demo_item ''v'' zero_Version ''one'') empty_server of
     (r, s') \<Rightarrow> r = ((demo_ident ''v'')\<lparr>IdentVersion := NewVersion 0\<rparr>, None) \<and>
       contents demo_store (server_view s') (key_of (demo_ident ''v'')) = Some (''one'', 0) \<and>
       contents demo_store (server_view s') (key_of (demo_ident [])) = Some (''one'', 0)"
proof -
  obtain r s' where run: "Store_Put demo_store (demo_item ''v'' zero_Version ''one'') empty_server = (r, s')"
    by fastforce
  show ?thesis
    using Put_refines_map [OF demo_facts(1-3) _ demo_facts(4) run]
    by (auto simp: run abs_put_def with_item_def Let_def key_of_def item_key_def)
qed

text \<open>
  C2: \<open>Delete\<close> refines the abstract map's \<open>delete\<close>: a missing item is no error; a variant is
  removed alone; an item is removed with all its variants. A version conflict of an item is
  reported only after all its variants are gone.
\<close>

theorem Delete_refines_map:
  assumes "quiet_store S view invar env st" "invar s" "tidy st (view s)"
    and "proper st (IdentLocation ident)" "Ident_Validate ident = None"
    and "Store_Delete st ident s = (r, s')"
  shows "invar s' \<and> tidy st (view s') \<and> (r, contents st (view s')) = abs_delete ident (contents st (view s))"
  using quiet_store.Delete_refines [OF assms] .

theorem Delete_refines_map_witness:
  "fst (Store_Delete demo_store (demo_ident []) empty_server) = None"
proof -
  obtain r s' where run: "Store_Delete demo_store (demo_ident []) empty_server = (r, s')"
    by fastforce
  show ?thesis
    using Delete_refines_map [OF demo_facts(1-3) _ demo_facts(7) run]
    by (simp add: run abs_delete_def Let_def)
qed

text \<open>
  C4: round trip. After a successful \<open>Put\<close>, \<open>Get\<close> of the same category, name and variant returns
  the data that was put, with the version \<open>Put\<close> returned.
\<close>

theorem Put_Get_roundtrip:
  assumes "quiet_store S view invar env st" "invar s" "tidy st (view s)"
    and "proper st (IdentLocation (ItemIdent item))" "Item_Validate item = None"
    and "proper st (IdentLocation ident)" "Ident_Validate ident = None"
    and "key_of ident = key_of (ItemIdent item)"
    and "Store_Put st item s = ((ident', None), s1)"
  shows "fst (Store_Get st ident s1) =
    (\<lparr>ItemIdent = ident\<lparr>IdentVersion := IdentVersion ident'\<rparr>, Data = Data item\<rparr>, None)"
proof -
  obtain g s2 where "Store_Get st ident s1 = (g, s2)" by fastforce
  with versioned_store.put_get [OF quiet_store.versioned [OF assms(1)] conjI [OF assms(2,3)] assms(4-7,9) _ assms(8)]
  show ?thesis by simp
qed

theorem Put_Get_roundtrip_witness:
  "fst (Store_Get demo_store (demo_ident ''v'')
     (snd (Store_Put demo_store (demo_item ''v'' zero_Version ''one'') empty_server))) =
   (demo_item ''v'' (NewVersion 0) ''one'', None)"
proof -
  obtain r s1 where run: "Store_Put demo_store (demo_item ''v'' zero_Version ''one'') empty_server = (r, s1)"
    by fastforce
  have "r = ((demo_ident ''v'')\<lparr>IdentVersion := NewVersion 0\<rparr>, None)"
    using demo.Put_refines [OF demo_facts(2,3) _ demo_facts(4) run]
    by (simp add: abs_put_def with_item_def Let_def)
  with run have run': "Store_Put demo_store (demo_item ''v'' zero_Version ''one'') empty_server =
      (((demo_ident ''v'')\<lparr>IdentVersion := NewVersion 0\<rparr>, None), s1)" by simp
  from Put_Get_roundtrip [OF demo_facts(1-3) _ demo_facts(4) _ demo_facts(6) _ run'] run'
  show ?thesis by (simp add: demo_item_def)
qed

text \<open>
  optimistic locking. Of two \<open>Put\<close>s of the same item that carry the same version (an explicit
  version, or \<open>NoPriorVersion\<close>), the second fails with \<open>ErrVersionConflict\<close> if the first succeeds.
\<close>

theorem Put_same_version_conflicts:
  assumes "quiet_store S view invar env st" "invar s" "tidy st (view s)"
    and "proper st (IdentLocation (ItemIdent item))" "proper st (IdentLocation (ItemIdent item'))"
    and "Item_Validate item = None" "Item_Validate item' = None"
    and "key_of (ItemIdent item') = key_of (ItemIdent item)"
    and "IdentVersion (ItemIdent item') = IdentVersion (ItemIdent item)"
    and "hasVersion (IdentVersion (ItemIdent item))"
    and "Store_Put st item s = ((i1, None), s1)"
  shows "snd (fst (Store_Put st item' s1)) = Some ErrVersionConflict"
proof -
  obtain i2 e s2 where "Store_Put st item' s1 = ((i2, e), s2)" by (metis prod_cases3 prod.collapse)
  with versioned_store.put_twice [OF quiet_store.versioned [OF assms(1)] conjI [OF assms(2,3)] assms(4-11)]
  show ?thesis by simp
qed

lemma new_version [simp]:
  "actualVersion (i\<lparr>IdentVersion := NewVersion n\<rparr>) = n" "hasVersion (NewVersion n)"
  "creatingNewItem (demo_item v (NewVersion n) d) \<longleftrightarrow> n = NoPriorVersion"
  by (simp_all add: actualVersion_def Version_Value_def NewVersion_def creatingNewItem_def)

theorem Put_same_version_conflicts_witness:
  "snd (fst (Store_Put demo_store (demo_item [] (NewVersion NoPriorVersion) ''two'')
     (snd (Store_Put demo_store (demo_item [] (NewVersion NoPriorVersion) ''two'') empty_server)))) =
   Some ErrVersionConflict"
proof -
  obtain r s1 where run: "Store_Put demo_store (demo_item [] (NewVersion NoPriorVersion) ''two'') empty_server = (r, s1)"
    by fastforce
  have "snd r = None"
    using demo.Put_refines [OF demo_facts(2,3) _ demo_facts(5) run]
    by (simp add: abs_put_def with_item_def Let_def NoPriorVersion_def)
  then have "Store_Put demo_store (demo_item [] (NewVersion NoPriorVersion) ''two'') empty_server = ((fst r, None), s1)"
    using run by (cases r) simp
  from Put_same_version_conflicts [OF demo_facts(1-3) _ _ demo_facts(5,5) _ _ _ this] run
  show ?thesis by simp
qed

text \<open>
  C6: after \<open>Delete\<close> of an item succeeds, neither the item nor any of its variants is found; after
  \<open>Delete\<close> of a variant succeeds, that variant is not found.
\<close>

theorem Delete_then_Get:
  assumes "quiet_store S view invar env st" "invar s" "tidy st (view s)"
    and "proper st (IdentLocation ident)" "Ident_Validate ident = None"
    and "proper st (IdentLocation ident')" "Ident_Validate ident' = None"
    and "key_of ident' = key_of ident \<or> item_key (key_of ident') = key_of ident"
    and "Store_Delete st ident s = (None, s1)"
  shows "fst (Store_Get st ident' s1) = (zero_Item, Some ErrNotFound)"
proof -
  obtain g s2 where "Store_Get st ident' s1 = (g, s2)" by fastforce
  with versioned_store.delete_get [OF quiet_store.versioned [OF assms(1)] conjI [OF assms(2,3)] assms(4-7,9) _ assms(8)]
  show ?thesis by simp
qed

theorem Delete_then_Get_witness:
  "fst (Store_Get demo_store (demo_ident ''v'')
     (snd (Store_Delete demo_store (demo_ident [])
        (snd (Store_Put demo_store (demo_item ''v'' zero_Version ''one'') empty_server))))) =
   (zero_Item, Some ErrNotFound)"
proof -
  let ?s0 = "snd (Store_Put demo_store (demo_item ''v'' zero_Version ''one'') empty_server)"
  have "Store_Put demo_store (demo_item ''v'' zero_Version ''one'') empty_server =
      (fst (Store_Put demo_store (demo_item ''v'' zero_Version ''one'') empty_server), ?s0)" by simp
  note put = demo.Put_refines [OF demo_facts(2,3) _ demo_facts(4) this]
  have s0: "quiet_invar ?s0" "tidy demo_store (server_view ?s0)"
    using put by auto
  obtain r s1 where run: "Store_Delete demo_store (demo_ident []) ?s0 = (r, s1)" by fastforce
  have "r = None"
    using demo.Delete_refines [OF s0 _ demo_facts(7) run]
      put by (auto simp: abs_delete_def abs_put_def with_item_def Let_def key_of_def item_key_def split: option.splits)
  with run Delete_then_Get [OF demo_facts(1) s0 _ demo_facts(7) _ demo_facts(6)]
  show ?thesis by (simp add: key_of_def item_key_def)
qed

section \<open>Listing\<close>

lemma base_elems_printable: "list_all printable (basePath st) \<Longrightarrow> list_all (list_all printable) (base_elems st)"
  using Split_chars [of _ "basePath st" "CHR ''/''"]
  by (auto simp: base_elems_def path_elems_def list_all_iff)

lemma buckets_good:
  assumes "wf_store st" "list_all printable (basePath st)" "ValidateCategory c = None"
  shows "good_elems (buckets_elems st c)"
proof -
  have "list_all (list_all name_char) (path_elems c @ [bucketsZnodeName st])"
    using valid_category_elems(2) [OF assms(3)] wf_store_buckets_name [OF assms(1)] by simp
  then have "list_all (list_all printable) (path_elems c @ [bucketsZnodeName st])"
    by (auto simp: list_all_iff name_char_printable)
  with base_elems_printable [OF assms(2)] plain_buckets_elems [OF assms(1,3)] show ?thesis
    by (simp add: good_elems_def) (simp add: buckets_elems_def)
qed

text \<open>
  C28: \<open>List\<close> returns \<open>ErrNotFound\<close> when the category has no buckets node, and otherwise the
  locations of exactly the nodes found two levels below it, whatever put them there; it changes
  nothing.
\<close>

theorem List_exact:
  assumes "quiet_store S view invar env st" "invar s" "ValidateCategory c = None" "\<not> bad_category st c"
    and "\<forall>b \<in> znode_children (view s) (buckets_elems st c). list_all printable b"
    and "Store_List st c s = (r, s')"
  shows "view s' = view s \<and>
    (if buckets_elems st c \<in> dom (view s) then
       \<exists>ls. r = (ls, None) \<and>
         set ls = {\<lparr>Category = c, Name = n\<rparr> | b n. buckets_elems st c @ [b, n] \<in> dom (view s)}
     else r = ([], Some ErrNotFound))"
proof -
  have st: "wf_store st" "conn st = S" "list_all printable (basePath st)" "zk_quiet S view invar env"
    using assms(1) by (simp_all add: quiet_store_def quiet_store_axioms_def)
  have "bucketsPath st c = Inr (abs_path (buckets_elems st c))"
    using bucketsPath_elems [OF st(1) assms(3)] assms(4) by (auto simp: bad_category_def)
  from zk_quiet.List_quiet [OF st(4) assms(2) st(2) buckets_good [OF st(1,3) assms(3)] assms(3) this _ assms(6)] assms(5)
  show ?thesis by simp
qed

theorem List_exact_witness:
  "fst (Store_List demo_store ''c'' empty_server) = ([], Some ErrNotFound)"
proof -
  have v: "ValidateCategory ''c'' = None" "\<not> bad_category demo_store ''c''" by code_simp+
  have nd: "buckets_elems demo_store ''c'' \<notin> dom (server_view empty_server)"
    by (simp add: empty_server_view buckets_elems_def)
  have ch: "\<forall>b \<in> znode_children (server_view empty_server) (buckets_elems demo_store ''c''). list_all printable b"
    by (simp add: empty_server_view znode_children_def)
  obtain r s' where run: "Store_List demo_store ''c'' empty_server = (r, s')" by fastforce
  from List_exact [OF demo_facts(1,2) v ch run] nd run show ?thesis by simp
qed

lemma proper_category: "proper st l \<Longrightarrow> \<not> bad_category st (Category l)"
  unfolding proper_def bad_category_def by (metis last_in_set)

text \<open>
  after a successful \<open>Put\<close> of an item or a variant, \<open>List\<close> of its category contains its location.
\<close>

theorem Put_then_List:
  assumes "quiet_store S view invar env st" "invar s" "tidy st (view s)"
    and "proper st (IdentLocation (ItemIdent item))" "Item_Validate item = None"
    and "Store_Put st item s = ((ident', None), s1)"
    and "\<forall>b \<in> znode_children (view s1) (buckets_elems st (Category (IdentLocation ident'))). list_all printable b"
  shows "\<exists>ls. fst (Store_List st (Category (IdentLocation ident')) s1) = (ls, None) \<and> IdentLocation ident' \<in> set ls"
proof -
  let ?l = "IdentLocation (ItemIdent item)" and ?bs = "buckets_elems st (Category (IdentLocation (ItemIdent item)))"
  have st: "wf_store st" "conn st = S" "list_all printable (basePath st)" "zk_quiet S view invar env"
    using assms(1) by (simp_all add: quiet_store_def quiet_store_axioms_def)
  note put = quiet_store.Put_refines [OF assms(1-6)]
  have s1: "invar s1" "IdentLocation ident' = ?l" "contents st (view s1) (key_of (ItemIdent item)) \<noteq> None"
    using put by (auto simp: abs_put_def Let_def split: option.splits if_splits)
  have valid: "Location_Validate ?l = None" using assms(5)
    by (intro valid_ident_location) (auto simp: Item_Validate_def Wrap_def split: option.splits if_splits)
  have cat: "ValidateCategory (Category ?l) = None" "\<not> bad_category st (Category ?l)"
    using valid_location_parts(1) [OF valid] proper_category [OF assms(4)] by auto
  obtain b where b: "store_bucketFunc st (Name ?l) = Inr b" using assms(4) by (auto simp: proper_def)
  have "contents st (view s1) (item_key (key_of (ItemIdent item))) \<noteq> None"
    using contrapos_nn [OF s1(3) quiet_store.item_exists [OF assms(1) s1(1)]] .
  then have n: "?bs @ [Itoa b, Name ?l] \<in> dom (view s1)"
    using assms(4) b by (auto simp: contents_def item_key_def key_of_def key_node_def key_elems_def
        buckets_elems_def proper_def domIff split: option.splits if_splits)
  have wf: "wf_tree (view s1)" by (rule zk_service.view_wf [OF zk_quiet.axioms(1) [OF st(4)] s1(1)])
  have bs: "?bs \<in> dom (view s1)" using prefix_in_tree [OF wf n] by simp
  have path: "bucketsPath st (Category ?l) = Inr (abs_path ?bs)"
    using bucketsPath_elems [OF st(1) cat(1)] cat(2) by (auto simp: bad_category_def)
  obtain r s2 where run: "Store_List st (Category ?l) s1 = (r, s2)" by fastforce
  from zk_quiet.List_quiet [OF st(4) s1(1) st(2) buckets_good [OF st(1,3) cat(1)] cat(1) path _ run] assms(7) bs s1(2)
  obtain ls where "r = (ls, None)" "set ls = {\<lparr>Category = Category ?l, Name = n\<rparr> | b n. ?bs @ [b, n] \<in> dom (view s1)}"
    by auto
  moreover have "\<lparr>Category = Category ?l, Name = Name ?l\<rparr> = ?l" by simp
  ultimately have "?l \<in> set ls" using n by (metis (mono_tags, lifting) mem_Collect_eq)
  then show ?thesis using run s1(2) \<open>r = (ls, None)\<close> by simp
qed

definition after_one :: server where
  "after_one = snd (Store_Put demo_store (demo_item ''v'' zero_Version ''one'') empty_server)"

lemma demo_put_one:
  "Store_Put demo_store (demo_item ''v'' zero_Version ''one'') empty_server =
     (((demo_ident ''v'')\<lparr>IdentVersion := NewVersion 0\<rparr>, None), after_one)"
proof -
  obtain r s' where run: "Store_Put demo_store (demo_item ''v'' zero_Version ''one'') empty_server = (r, s')"
    by fastforce
  then show ?thesis
    using demo.Put_refines [OF demo_facts(2,3) _ demo_facts(4) run]
    by (simp add: abs_put_def with_item_def Let_def after_one_def)
qed

lemma server_children: "znode_children (server_view s) es = set (tab_children (table s) es)"
  by (simp add: server_view_def set_tab_children)

theorem Put_then_List_witness:
  "\<exists>ls. fst (Store_List demo_store ''c'' after_one) = (ls, None) \<and> IdentLocation (demo_ident ''v'') \<in> set ls"
proof -
  have "list_all (list_all printable) (tab_children (table after_one) (buckets_elems demo_store ''c''))"
    by code_simp
  then have "\<forall>b \<in> znode_children (server_view after_one) (buckets_elems demo_store ''c''). list_all printable b"
    by (simp add: server_children list_all_iff)
  then show ?thesis
    using Put_then_List [OF demo_facts(1-3) _ demo_facts(4) demo_put_one] by simp
qed

text \<open>
  C5: frame. \<open>Put\<close>, successful or not, does not change what \<open>Get\<close> returns for any other ident, with one exception,
  which a comment in \<open>setFully\<close> announces: when a variant is put and its item does not exist, the item comes into being with version 0
  and the data of the variant.
\<close>

theorem Put_leaves_others:
  assumes "quiet_store S view invar env st" "invar s" "tidy st (view s)"
    and "proper st (IdentLocation (ItemIdent item))" "Item_Validate item = None"
    and "proper st (IdentLocation ident)" "Ident_Validate ident = None"
    and "key_of ident \<noteq> key_of (ItemIdent item)"
  shows "fst (Store_Get st ident (snd (Store_Put st item s))) = fst (Store_Get st ident s) \<or>
    Variant (ItemIdent item) \<noteq> [] \<and> key_of ident = item_key (key_of (ItemIdent item)) \<and>
    fst (Store_Get st ident s) = (zero_Item, Some ErrNotFound) \<and>
    fst (Store_Get st ident (snd (Store_Put st item s))) =
      (\<lparr>ItemIdent = ident\<lparr>IdentVersion := NewVersion 0\<rparr>, Data = Data item\<rparr>, None)"
proof -
  obtain r s1 g1 s2 g s3 where run: "Store_Put st item s = (r, s1)" "Store_Get st ident s1 = (g1, s2)"
    "Store_Get st ident s = (g, s3)" by (metis prod.collapse)
  with versioned_store.put_others [OF quiet_store.versioned [OF assms(1)] conjI [OF assms(2,3)] assms(4-7) run assms(8)]
  show ?thesis by simp
qed

theorem Put_leaves_others_witness:
  "fst (Store_Get demo_store (demo_ident ''v'')
     (snd (Store_Put demo_store (demo_item [] zero_Version ''two'') after_one))) =
   (\<lparr>ItemIdent = (demo_ident ''v'')\<lparr>IdentVersion := NewVersion 0\<rparr>, Data = ''one''\<rparr>, None)"
proof -
  have inv: "quiet_invar after_one" "tidy demo_store (server_view after_one)"
    "contents demo_store (server_view after_one) (key_of (demo_ident ''v'')) = Some (''one'', 0)"
    using demo.Put_refines [OF demo_facts(2,3) _ demo_facts(4) demo_put_one]
    by (auto simp: abs_put_def with_item_def Let_def)
  obtain g s where get: "Store_Get demo_store (demo_ident ''v'') after_one = (g, s)" by fastforce
  have "g = (\<lparr>ItemIdent = (demo_ident ''v'')\<lparr>IdentVersion := NewVersion 0\<rparr>, Data = ''one''\<rparr>, None)"
    using demo.Get_refines [OF inv(1) _ demo_facts(6) get] inv(3) by (simp add: abs_get_def)
  with get Put_leaves_others [OF demo_facts(1) inv(1,2) _ demo_facts(5) _ demo_facts(6)]
  show ?thesis by (simp add: key_of_def item_key_def)
qed

text \<open>
  C29: \<open>Variants\<close> returns \<open>ErrNotFound\<close> when there is no item at the location, and otherwise exactly
  the children of the item's node, each once.
\<close>

theorem Variants_exact:
  assumes "quiet_store S view invar env st" "invar s" "Location_Validate l = None"
    and "store_node st \<lparr>IdentLocation = l, Variant = [], IdentVersion = zero_Version\<rparr> = Some es"
    and "Store_Variants st l s = (r, s')"
  shows "view s' = view s \<and>
    (if es \<in> dom (view s)
     then \<exists>vs. r = (vs, None) \<and> set vs = znode_children (view s) es \<and> distinct vs
     else r = ([], Some ErrNotFound))"
proof -
  have st: "wf_store st" "conn st = S" "list_all printable (basePath st)" "zk_quiet S view invar env"
    using assms(1) by (simp_all add: quiet_store_def quiet_store_axioms_def)
  have "Ident_Validate \<lparr>IdentLocation = l, Variant = [], IdentVersion = zero_Version\<rparr> = None"
    using assms(3) ValidateNamed_None [of "[]" False] by (simp add: Ident_Validate_def)
  note node = store_node_good [OF st(1,3) this assms(4)]
  show ?thesis
    using zk_quiet.Variants_quiet [OF st(4) assms(2) node(2) st(2) node(1) assms(3,5)] by simp
qed

theorem Variants_exact_witness:
  "fst (Store_Variants demo_store (IdentLocation (demo_ident [])) empty_server) = ([], Some ErrNotFound)"
proof -
  have l: "Location_Validate (IdentLocation (demo_ident [])) = None"
    "store_node demo_store \<lparr>IdentLocation = IdentLocation (demo_ident []), Variant = [], IdentVersion = zero_Version\<rparr> =
      Some [''z'', ''c'', ''buckets'', ''110'', ''n'']" by code_simp+
  obtain r s' where run: "Store_Variants demo_store (IdentLocation (demo_ident [])) empty_server = (r, s')" by fastforce
  from Variants_exact [OF demo_facts(1,2) l run] run show ?thesis by (simp add: empty_server_view)
qed

section \<open>Construction, paths, buckets\<close>

text \<open>
  C15: every store \<open>NewStore\<close> returns, for any list of the package's options, is well formed: at
  least one bucket, the bucket function that belongs to its hash function and bucket count, a
  valid name for the buckets node, an empty or a rooted and clean base path, a non-empty ACL.
\<close>

theorem NewStore_well_formed:
  assumes "list_all exported_opt opts" "NewStore md5 connector opts s = (Inr st, s')"
  shows "wf_store st \<and> closeFunc st = Connector_Close connector"
  using assms by (rule NewStore_wf)

theorem NewStore_well_formed_witness: "wf_store demo_store"
proof -
  have "list_all exported_opt [OptBasePath ''/z'' :: server StoreOpt]" by (auto simp: exported_opt_def)
  from NewStore_well_formed [OF this demo_store_NewStore] show ?thesis by simp
qed

text \<open>Valid categories with the same elements are equal up to a leading slash.\<close>

definition same_category :: "string \<Rightarrow> string \<Rightarrow> bool" where
  "same_category c d \<longleftrightarrow> c = d \<or> c = CHR ''/'' # d \<or> d = CHR ''/'' # c"

lemma same_category_elems:
  assumes "ValidateCategory c = None" "ValidateCategory d = None"
  shows "path_elems c = path_elems d \<longleftrightarrow> same_category c d"
proof
  assume "path_elems c = path_elems d"
  then show "same_category c d"
    using valid_category_elems(3) [OF assms(1)] valid_category_elems(3) [OF assms(2)]
    by (auto simp: same_category_def abs_path_def)
next
  have "path_elems (CHR ''/'' # x) = path_elems x" for x
    by (simp add: path_elems_def)
  then show "same_category c d \<Longrightarrow> path_elems c = path_elems d" by (auto simp: same_category_def)
qed

text \<open>
  C7: which idents share a path. Two valid idents have the same path exactly when they have the same name and the
  same variant and their categories are equal up to a leading slash; the version plays no part.
\<close>

theorem identPath_injective:
  assumes "wf_store st" "Ident_Validate i = None" "Ident_Validate j = None"
    and "identPath st i = Inr p" "identPath st j = Inr q"
  shows "p = q \<longleftrightarrow>
    same_category (Category (IdentLocation i)) (Category (IdentLocation j)) \<and>
    Name (IdentLocation i) = Name (IdentLocation j) \<and> Variant i = Variant j"
proof -
  note cat = same_category_elems [OF valid_ident_parts(1) [OF assms(2)] valid_ident_parts(1) [OF assms(3)]]
  have "p = q" if "path_elems (Category (IdentLocation i)) = path_elems (Category (IdentLocation j))"
    "Name (IdentLocation i) = Name (IdentLocation j)" "Variant i = Variant j"
    using identPath_Inr [OF assms(1,2,4)] identPath_Inr [OF assms(1,3,5)] that
    by (auto simp: ident_elems_def item_elems_def buckets_elems_def)
  then show ?thesis using identPath_inject [OF assms(1-3) assms(4)] assms(5) cat by blast
qed

theorem identPath_injective_witness:
  "\<exists>p q. identPath demo_store (demo_ident ''v'') = Inr p \<and> identPath demo_store (demo_ident []) = Inr q \<and> p \<noteq> q"
proof -
  have v: "identPath demo_store (demo_ident ''v'') = Inr ''/z/c/buckets/110/n/v''"
    "identPath demo_store (demo_ident []) = Inr ''/z/c/buckets/110/n''"
    by code_simp+
  have "Variant (demo_ident ''v'') \<noteq> Variant (demo_ident [])" by code_simp
  with v identPath_injective [OF demo_store_wf demo_ident_valid v] show ?thesis by blast
qed

text \<open>
  every path the store builds from a valid ident is accepted by the ZooKeeper client's
  \<open>validatePath\<close>, so no operation on a valid ident fails for its path.
\<close>

theorem identPath_accepted:
  assumes "wf_store st" "list_all printable (basePath st)" "Ident_Validate i = None" "identPath st i = Inr p"
  shows "validatePath p isSequential = None"
proof -
  obtain b where "store_bucketFunc st (Name (IdentLocation i)) = Inr b"
    "\<not> bad_category st (Category (IdentLocation i))" "p = abs_path (ident_elems st i b)"
    using identPath_Inr [OF assms(1,3,4)] by blast
  then have node: "store_node st i = Some (ident_elems st i b)" and p: "p = abs_path (ident_elems st i b)"
    by (simp_all add: store_node_def)
  show ?thesis unfolding p by (rule good_elems_valid [OF store_node_good(2) [OF assms(1-3) node]])
qed

theorem identPath_accepted_witness: "validatePath ''/z/c/buckets/110/n/v'' False = None"
  by (rule identPath_accepted [OF demo_store_wf demo.base_printable, of "demo_ident ''v''"]) code_simp+

text \<open>
  C30: the bucket of a name is between 0 and the number of buckets, and the hash provider's
  overflow error cannot occur: the only error of the bucket function is the hasher's own.
\<close>

theorem bucket_in_range:
  assumes "0 < sint n" "HashProvider (Some hasher) = Some f"
  shows "case bucketFunc n f name of
      Inr b \<Rightarrow> 0 \<le> b \<and> b < sint n
    | Inl e \<Rightarrow> hasher name = Inl e"
  using bucketFunc_range [OF assms(1), of f name] HashProvider_no_overflow [OF assms(2), of name]
  by (cases "f name") (auto simp: bucketFunc_def)

theorem bucket_in_range_witness:
  "case bucketFunc 256 (DefaultHashProviderFunc first_byte) ''n'' of
     Inr b \<Rightarrow> 0 \<le> b \<and> b < 256 | Inl e \<Rightarrow> False"
proof -
  obtain f where f: "HashProvider (Some (\<lambda>b. Inr (first_byte b))) = Some f" by (simp add: HashProvider_def)
  then have "DefaultHashProviderFunc first_byte = f" by (simp add: DefaultHashProviderFunc_def)
  with bucket_in_range [OF _ f, of 256 "''n''"] show ?thesis by (auto split: sum.splits)
qed

text \<open>
  What the validators accept. A name is a string of word characters and dashes, empty only
  where it is optional; a category is a non-empty clean path of such names.
\<close>

theorem validators_accept:
  "(ValidateNamed s required = None \<longleftrightarrow> (if s = [] then \<not> required else list_all name_char s)) \<and>
   (ValidateCategory c = None \<longleftrightarrow> c \<noteq> [] \<and> list_all category_char c \<and> path_Clean c = c)"
  by (auto simp: ValidateNamed_None ValidateCategory_None)

end
