(* ===== verification/Zkstore_Races.thy ===== *)
theory Zkstore_Races
  imports Zkstore_Theorems
begin

text \<open>
  The store among other clients of the service and with lost connections: what a successful
  versioned \<open>Put\<close> guarantees, and when an operation fails half way, succeeds without having
  written, or reports what nobody put.
\<close>

section \<open>Versioned writes under interference\<close>

definition stays_absent :: "(ztree \<Rightarrow> ztree \<Rightarrow> bool) \<Rightarrow> string list \<Rightarrow> bool" where
  "stays_absent env es \<longleftrightarrow> (\<forall>t t'. env t t' \<longrightarrow> t es = None \<longrightarrow> t' es = None)"

lemma fault_ErrNoNode [simp]: "\<not> fault ErrNoNode" "\<not> fault ErrNodeExists" "\<not> fault ErrBadVersion"
  by (simp_all add: fault_def)

text \<open>The ways one pass of the loop of \<open>setFully\<close> can go on.\<close>

lemma setFully_loop_one:
  assumes "setFully_loop st item n i cur (seg # segs) s = (r, s')"
    and "Conn_Exists (conn st) (path_Join [cur, seg]) s = ((ex, stat, err), s1)"
  shows "err \<noteq> None \<and> r \<noteq> None \<or>
    err = None \<and> ex \<and> setFully_loop st item n (i + 1) (path_Join [cur, seg]) segs s1 = (r, s') \<or>
    err = None \<and> \<not> ex \<and> i + 1 = n \<and> 0 \<le> sint (actualVersion (ItemIdent item)) \<and> r = Some ErrVersionConflict \<or>
    (\<exists>d c s2. err = None \<and> \<not> ex \<and> \<not> (i + 1 = n \<and> 0 \<le> sint (actualVersion (ItemIdent item))) \<and>
       Conn_Create (conn st) (path_Join [cur, seg]) d 0 (acls st) s1 = (c, s2) \<and>
       (r \<noteq> None \<or> setFully_loop st item n (i + 1) (path_Join [cur, seg]) segs s2 = (r, s')))"
proof -
  let ?d = "if i + 1 = n \<or> Variant (ItemIdent item) \<noteq> [] \<and> i + 2 = n then Data item else []"
  obtain p e s2 where c: "Conn_Create (conn st) (path_Join [cur, seg]) ?d 0 (acls st) s1 = ((p, e), s2)"
    by (metis prod.exhaust)
  show ?thesis
  proof (cases "err = None \<and> \<not> ex \<and> \<not> (i + 1 = n \<and> 0 \<le> sint (actualVersion (ItemIdent item)))")
    case True
    have "r \<noteq> None \<or> setFully_loop st item n (i + 1) (path_Join [cur, seg]) segs s2 = (r, s')"
      using True assms c by (cases e) (auto simp: Let_def simp del: path_Join.simps split: if_splits)
    with True c show ?thesis by blast
  next
    case False
    with assms show ?thesis by (cases err) (auto simp: Let_def simp del: path_Join.simps split: if_splits)
  qed
qed

context zk_service
begin

lemma exists_absent:
  assumes "invar s" "good_elems p" "stays_absent env es" "view s es = None"
    and "Conn_Exists S (abs_path p) s = (r, s')"
  shows "invar s' \<and> view s' es = None \<and> (p = es \<longrightarrow> fst r \<longrightarrow> snd (snd r) \<noteq> None)"
proof -
  obtain q where q: "req_exists S (abs_path p) s = (q, s')"
    and r: "r = (case q of Inl e \<Rightarrow> if e = ErrNoNode then (False, Some zero_Stat, None) else (True, Some zero_Stat, Some e)
                 | Inr st \<Rightarrow> (True, Some st, None))"
    using assms(5) good_elems_valid [OF assms(2)]
    by (cases "req_exists S (abs_path p) s") (auto simp: Conn_Exists_def split: sum.splits if_splits)
  from exists_law [OF assms(1) good_elems_plain [OF assms(2)] q]
  obtain t1 t2 where *: "invar s'" "env (view s) t1" "env t2 (view s')"
    "exists_spec p t1 q t2 \<or> (\<exists>e. q = Inl e \<and> fault e \<and> (t2 = t1 \<or> (\<exists>r'. exists_spec p t1 r' t2)))"
    by (auto simp: served_def)
  have "t1 es = None" using assms(3,4) *(2) by (auto simp: stays_absent_def)
  moreover have "t2 = t1" using *(4) by (auto simp: exists_spec_def)
  ultimately show ?thesis
    using *(1,3,4) assms(3) by (auto simp: r stays_absent_def exists_spec_def split: option.splits)
qed

lemma create_absent:
  assumes "invar s" "good_elems p" "stays_absent env es" "view s es = None" "p \<noteq> es"
    and "Conn_Create S (abs_path p) d 0 acl s = (r, s')"
  shows "invar s' \<and> view s' es = None"
proof -
  obtain q where q: "req_create S (abs_path p) d 0 acl s = (q, s')"
    using assms(6) good_elems_valid [OF assms(2)]
    by (cases "req_create S (abs_path p) d 0 acl s") (auto simp: Conn_Create_def split: sum.splits)
  from create_law [OF assms(1) good_elems_plain [OF assms(2)] q]
  obtain t1 t2 where *: "invar s'" "env (view s) t1" "env t2 (view s')"
    "create_spec p d t1 q t2 \<or> (\<exists>e. q = Inl e \<and> fault e \<and> (t2 = t1 \<or> (\<exists>r'. create_spec p d t1 r' t2)))"
    by (auto simp: served_def)
  have "t1 es = None" using assms(3,4) *(2) by (auto simp: stays_absent_def)
  then have "t2 es = None" using *(4) assms(5) by (auto simp: create_spec_def split: if_splits)
  with *(1,3) assms(3) show ?thesis by (auto simp: stays_absent_def)
qed

lemma setFully_loop_absent:
  assumes "invar s" "good_elems (pre @ suf)" "suf \<noteq> []" "conn st = S" "stays_absent env (pre @ suf)"
    and "view s (pre @ suf) = None" "0 \<le> sint (actualVersion (ItemIdent item))"
    and "setFully_loop st item (Suc (length (pre @ suf))) (Suc (length pre)) (abs_path pre) suf s = (r, s')"
  shows "r \<noteq> None"
  using assms
proof (induction suf arbitrary: pre s)
  case (Cons e suf)
  let ?p = "pre @ [e]" and ?es = "pre @ e # suf"
  have good: "good_elems ?p" "good_elems (?p @ suf)" using Cons.prems(2) by auto
  have join: "path_Join [abs_path pre, e] = abs_path ?p"
    using good(1) path_Join_abs [of pre "[e]"] good_elems_plain [of pre] by simp
  obtain ex stat err s1 where q: "Conn_Exists S (abs_path ?p) s = ((ex, stat, err), s1)"
    by (cases "Conn_Exists S (abs_path ?p) s") (metis prod_cases3)
  note s1 = exists_absent [OF Cons.prems(1) good(1) Cons.prems(5,6) q]
  have rec: "r \<noteq> None"
    if "invar s2" "view s2 ?es = None" "suf \<noteq> []"
      "setFully_loop st item (Suc (length ?es)) (Suc (length pre) + 1) (abs_path ?p) suf s2 = (r, s')" for s2
    using Cons.IH [of s2 ?p] good(2) that Cons.prems(4,5,7) by simp
  from setFully_loop_one [OF Cons.prems(8), unfolded join Cons.prems(4), OF q] show ?case
  proof (elim disjE exE conjE)
    assume "err = None" "ex" "setFully_loop st item (Suc (length ?es)) (Suc (length pre) + 1) (abs_path ?p) suf s1 = (r, s')"
    then show ?case using s1 rec [of s1] by (cases "suf = []") auto
  next
    fix d c s2
    assume c: "Conn_Create S (abs_path ?p) d 0 (acls st) s1 = (c, s2)"
      and go: "setFully_loop st item (Suc (length ?es)) (Suc (length pre) + 1) (abs_path ?p) suf s2 = (r, s')"
      and last: "\<not> (Suc (length pre) + 1 = Suc (length ?es) \<and> 0 \<le> sint (actualVersion (ItemIdent item)))"
    then have ne: "suf \<noteq> []" using Cons.prems(7) by auto
    then have "invar s2 \<and> view s2 ?es = None"
      using s1 create_absent [OF _ good(1) Cons.prems(5) _ _ c] by simp
    with go ne rec [of s2] show ?case by auto
  qed auto
qed simp

lemma setFully_absent:
  assumes "invar s" "good_elems es" "es \<noteq> []" "conn st = S" "stays_absent env es" "view s es = None"
    and "0 \<le> sint (actualVersion (ItemIdent item))" "identPath st (ItemIdent item) = Inr (abs_path es)"
    and "setFully st item s = ((stat, err), s')"
  shows "err \<noteq> None"
proof -
  have split: "Split (abs_path es) CHR ''/'' = [] # es"
    using assms(2,3) by (simp add: Split_abs_path good_elems_plain)
  have join: "path_Join [''/'', []] = abs_path []" by code_simp
  obtain ex st' e s1 where q: "Conn_Exists S (abs_path []) s = ((ex, st', e), s1)"
    by (cases "Conn_Exists S (abs_path []) s") (metis prod_cases3)
  have s1: "invar s1" "view s1 es = None"
    using exists_absent [OF assms(1) _ assms(5,6) q] by auto
  have rec: "l \<noteq> None"
    if "invar s2" "view s2 es = None" "setFully_loop st item (Suc (length es)) (0 + 1) (abs_path []) es s2 = (l, s3)" for l s2 s3
    using setFully_loop_absent [of s2 "[]" es st item l s3] that assms(2-5,7) by simp
  obtain l s2 where l: "setFully_loop st item (Suc (length es)) 0 ''/'' ([] # es) s = (l, s2)" by fastforce
  from setFully_loop_one [OF l, unfolded join assms(4), OF q] have "l \<noteq> None"
  proof (elim disjE exE conjE)
    fix d c s3
    assume c: "Conn_Create S (abs_path []) d 0 (acls st) s1 = (c, s3)"
      and go: "setFully_loop st item (Suc (length es)) (0 + 1) (abs_path []) es s3 = (l, s2)"
    have "invar s3 \<and> view s3 es = None"
      using s1 create_absent [OF _ _ assms(5) _ _ c] assms(3) by simp
    with go rec [of s3] show "l \<noteq> None" by auto
  qed (use s1 rec [of s1] in auto)
  then obtain x where "l = Some x" by blast
  with assms(8,9) l show ?thesis by (auto simp: setFully_def split)
qed

end

text \<open>
  C3: no lost update. Other clients may write at any time and connections may be lost. If a \<open>Put\<close>
  with an explicit version succeeds, and the others do not create the item from nothing, then at
  one moment during the call the item had exactly the version given, and the call replaced it by
  the new data with the next version.
\<close>

theorem Put_versioned_atomic:
  assumes "zk_service S view invar env" "invar s" "wf_store st" "conn st = S" "list_all printable (basePath st)"
    and "Item_Validate item = None" "store_node st (ItemIdent item) = Some es" "stays_absent env es"
    and "IdentVersion (ItemIdent item) = NewVersion v" "0 \<le> sint v"
    and "Store_Put st item s = ((ident', None), s')"
  shows "\<exists>t d. env (view s) t \<and> t es = Some (d, v) \<and> env (t(es \<mapsto> (Data item, v + 1))) (view s') \<and>
    IdentVersion ident' = NewVersion (v + 1)"
proof -
  let ?id = "ItemIdent item"
  have valid: "Ident_Validate ?id = None"
    using assms(6) by (auto simp: Item_Validate_def Wrap_def split: option.splits if_splits)
  note node = store_node_good [OF assms(3,5) valid assms(7)]
  have v: "actualVersion ?id = v" "\<not> creatingNewItem item" "v \<noteq> -1"
    using assms(9,10) by (auto simp: actualVersion_def Version_Value_def NewVersion_def creatingNewItem_def NoPriorVersion_def)
  obtain q s1 where q: "req_setData S (abs_path es) (Data item) v s = (q, s1)" by fastforce
  from zk_service.setData_law [OF assms(1,2) good_elems_plain [OF node(2)] q]
  obtain t1 t2 where *: "invar s1" "env (view s) t1" "env t2 (view s1)"
    "setData_spec es (Data item) v t1 q t2 \<or>
      (\<exists>e. q = Inl e \<and> fault e \<and> (t2 = t1 \<or> (\<exists>r'. setData_spec es (Data item) v t1 r' t2)))"
    by (auto simp: served_def)
  have set: "Conn_Set S (abs_path es) (Data item) v s =
      ((case q of Inl e \<Rightarrow> (Some zero_Stat, Some e) | Inr stat \<Rightarrow> (Some stat, None)), s1)"
    using q good_elems_valid [OF node(2)] by (simp add: Conn_Set_def split: sum.splits)
  show ?thesis
  proof (cases q)
    case (Inr stat)
    with *(4) v(3) obtain d where "t1 es = Some (d, v)" "t2 = t1(es \<mapsto> (Data item, v + 1))" "StatVersion stat = v + 1"
      by (auto simp: setData_spec_def split: option.splits if_splits)
    moreover have "s' = s1" "IdentVersion ident' = NewVersion (StatVersion stat)"
      using assms(4,6,11) node(1) v set Inr by (auto simp: Store_Put_def Let_def with_version_def)
    ultimately show ?thesis using *(2,3) by auto
  next
    case (Inl e)
    have "e = ErrNoNode"
      using assms(4,6,11) node(1) v set Inl by (auto simp: Store_Put_def Let_def split: if_splits)
    with *(4) Inl have "t1 es = None" "t2 = t1"
      by (auto simp: setData_spec_def split: option.splits if_splits)
    with *(3) assms(8) have "view s1 es = None" by (auto simp: stays_absent_def)
    obtain stat err s2 where full: "setFully st item s1 = ((stat, err), s2)" by (metis prod.exhaust)
    have "err \<noteq> None"
      using zk_service.setFully_absent [OF assms(1) *(1) node(2,3) assms(4,8) \<open>view s1 es = None\<close> _ node(1) full]
        assms(10) v(1) by simp
    moreover have "err = None"
      using assms(4,6,11) node(1) v set Inl \<open>e = ErrNoNode\<close> full
      by (cases err) (auto simp: Store_Put_def Let_def)
    ultimately show ?thesis by simp
  qed
qed

definition updated_item :: Item where
  "updated_item = demo_item [] (NewVersion 0) ''two''"

theorem Put_versioned_atomic_witness:
  "\<exists>t d. t [''z'', ''c'', ''buckets'', ''110'', ''n''] = Some (d, 0) \<and>
     server_view (snd (Store_Put demo_store updated_item after_one)) =
       t([''z'', ''c'', ''buckets'', ''110'', ''n''] \<mapsto> (''two'', 1))"
proof -
  let ?es = "[''z'', ''c'', ''buckets'', ''110'', ''n'']"
  have node: "store_node demo_store (ItemIdent updated_item) = Some ?es" by code_simp
  have inv: "quiet_invar after_one" "tidy demo_store (server_view after_one)"
    "contents demo_store (server_view after_one) (key_of (demo_ident [])) = Some (''one'', 0)"
    using demo.Put_refines [OF demo_facts(2,3) _ demo_facts(4) demo_put_one]
    by (auto simp: abs_put_def with_item_def Let_def key_of_def item_key_def)
  obtain r s' where run: "Store_Put demo_store updated_item after_one = (r, s')" by fastforce
  have valid: "Item_Validate updated_item = None" using demo_item_valid(2) by (simp add: updated_item_def)
  have "snd r = None"
    using demo.Put_refines [OF inv(1,2) _ valid run] inv(3)
    by (simp add: updated_item_def abs_put_def Let_def NoPriorVersion_def)
  with run have run': "Store_Put demo_store updated_item after_one = ((fst r, None), s')" by (cases r) simp
  have "stays_absent (=) ?es" by (simp add: stays_absent_def)
  from Put_versioned_atomic [OF quiet_service.zk_service_axioms inv(1) demo_store_wf demo.store_conn
      demo.base_printable valid node this _ _ run', of 0]
  show ?thesis unfolding run' by (simp add: updated_item_def) metis
qed

section \<open>Runs that lose a write or leave half of one\<close>

text \<open>A server that lets others replace the tree before the next request answers as one with that tree.\<close>

lemma Conn_Exists_others:
  "validatePath p False = None \<Longrightarrow>
   Conn_Exists server_session p \<lparr>table = tb, script = [Others tb']\<rparr> = Conn_Exists server_session p \<lparr>table = tb', script = []\<rparr>"
  by (simp add: Conn_Exists_def server_session_def answer_def split: prod.splits)

lemma setFully_others:
  assumes "conn st = server_session" "good_elems es" "es \<noteq> []" "identPath st (ItemIdent item) = Inr (abs_path es)"
  shows "setFully st item \<lparr>table = tb, script = [Others tb']\<rparr> = setFully st item \<lparr>table = tb', script = []\<rparr>"
proof -
  have split: "Split (abs_path es) CHR ''/'' = [] # es"
    using assms(2,3) by (simp add: Split_abs_path good_elems_plain)
  have join: "path_Join [''/'', []] = abs_path []" by code_simp
  have "Conn_Exists server_session (abs_path []) \<lparr>table = tb, script = [Others tb']\<rparr> =
      Conn_Exists server_session (abs_path []) \<lparr>table = tb', script = []\<rparr>"
    by (rule Conn_Exists_others) (simp add: good_elems_valid)
  then show ?thesis using assms(1,4) by (simp add: setFully_def split join Let_def del: path_Join.simps)
qed

text \<open>
  C33: a \<open>Put\<close> with \<open>NoPriorVersion\<close> that loses the race to create the item reports success. Whatever the item, and
  whatever another client stores under it after the check at the start of \<open>Put\<close>: \<open>setFully\<close> takes the existing node
  for its own, \<open>Put\<close> returns no error and the version of the other client's node, and the tree is the one the other
  client left, with the other client's data.
\<close>

theorem Put_create_race_lost:
  assumes "wf_store st" "conn st = server_session" "list_all printable (basePath st)"
    and "Item_Validate item = None" "IdentVersion (ItemIdent item) = NewVersion NoPriorVersion"
    and "store_node st (ItemIdent item) = Some es" "map_of before es = None"
    and "wf_table others" "map_of others es = Some (d, u)"
  shows "\<exists>s'. Store_Put st item \<lparr>table = before, script = [Serve, Others others]\<rparr> =
      (((ItemIdent item)\<lparr>IdentVersion := NewVersion u\<rparr>, None), s') \<and>
    server_view s' = map_of others \<and> server_view s' es = Some (d, u)"
proof -
  let ?id = "ItemIdent item" and ?s1 = "\<lparr>table = before, script = [Others others]\<rparr>" and ?s2 = "\<lparr>table = others, script = []\<rparr>"
  have valid: "Ident_Validate ?id = None"
    using assms(4) by (auto simp: Item_Validate_def Wrap_def split: option.splits if_splits)
  note node = store_node_good [OF assms(1,3) valid assms(6)]
  have new: "creatingNewItem item"
    using assms(5) by (simp add: creatingNewItem_def Version_Value_def NewVersion_def)
  have check: "Conn_Exists server_session (abs_path es) \<lparr>table = before, script = [Serve, Others others]\<rparr> =
      ((False, Some zero_Stat, None), ?s1)"
    using assms(7) good_elems_valid [OF node(2)] good_elems_plain [OF node(2)]
    by (simp add: Conn_Exists_def server_session_def answer_def tab_exists_def)
  have inv: "quiet_invar ?s2" using assms(8) by (simp add: quiet_invar_def)
  have view: "server_view ?s2 = map_of others" by (simp add: server_view_def)
  obtain r s' where full: "setFully st item ?s2 = (r, s')" by fastforce
  have "es \<in> dom (server_view ?s2)" using assms(9) view by auto
  moreover have "wf_tree (server_view ?s2)" using quiet_service.view_wf [OF inv] .
  ultimately obtain stat where stat: "r = (Some stat, None)" "server_view s' = map_of others" "StatVersion stat = u"
    using quiet.setFully_quiet [OF inv node(2,3) assms(2) node(1) full] view assms(9) by auto
  have "Store_Put st item \<lparr>table = before, script = [Serve, Others others]\<rparr> =
      ((?id\<lparr>IdentVersion := NewVersion u\<rparr>, None), s')"
    using assms(2,4) node(1) new check full stat setFully_others [OF assms(2) node(2,3,1), of before others]
    by (simp add: Store_Put_def Let_def with_version_def)
  with stat(2) assms(9) show ?thesis by auto
qed

definition other_table :: ztable where
  "other_table =
     [([''z'', ''c'', ''buckets'', ''110'', ''n''], (''other'', 0)),
      ([''z'', ''c'', ''buckets'', ''110''], ([], 0)), ([''z'', ''c'', ''buckets''], ([], 0)),
      ([''z'', ''c''], ([], 0)), ([''z''], ([], 0)), ([], ([], 0))]"

theorem Put_create_race_lost_witness:
  "case Store_Put demo_store (demo_item [] (NewVersion NoPriorVersion) ''two'')
      \<lparr>table = table empty_server, script = [Serve, Others other_table]\<rparr> of
     ((ident', err), s') \<Rightarrow> err = None \<and> server_view s' [''z'', ''c'', ''buckets'', ''110'', ''n''] = Some (''other'', 0)"
proof -
  let ?item = "demo_item [] (NewVersion NoPriorVersion) ''two''" and ?es = "[''z'', ''c'', ''buckets'', ''110'', ''n'']"
  have f: "store_node demo_store (ItemIdent ?item) = Some ?es" "IdentVersion (ItemIdent ?item) = NewVersion NoPriorVersion"
    "map_of (table empty_server) ?es = None" "wf_table other_table" "map_of other_table ?es = Some (''other'', 0)"
    by code_simp+
  from Put_create_race_lost [OF demo_store_wf demo.store_conn demo.base_printable demo_item_valid(2) f(2,1,3-5)]
  show ?thesis by auto
qed

text \<open>
  C34: a \<open>Put\<close> of a variant with an explicit version, of an item that does not exist, reports
  \<open>ErrVersionConflict\<close> and has created the item with the variant's data.
\<close>

theorem Put_conflict_creates_item:
  assumes "quiet_store S view invar env st" "invar s" "tidy st (view s)"
    and "proper st (IdentLocation (ItemIdent item))" "Item_Validate item = None"
    and "Variant (ItemIdent item) \<noteq> []" "0 \<le> sint (actualVersion (ItemIdent item))"
    and "contents st (view s) (item_key (key_of (ItemIdent item))) = None"
    and "Store_Put st item s = ((ident', err), s')"
  shows "err = Some ErrVersionConflict \<and>
    contents st (view s') (item_key (key_of (ItemIdent item))) = Some (Data item, 0)"
proof -
  have "contents st (view s) (key_of (ItemIdent item)) = None"
    using quiet_store.item_exists [OF assms(1,2,8)] .
  then show ?thesis
    using quiet_store.Put_refines [OF assms(1-5,9)] assms(6-8)
    by (simp add: abs_put_def with_item_def Let_def)
qed

theorem Put_conflict_creates_item_witness:
  "snd (fst (Store_Put demo_store (demo_item ''v'' (NewVersion 3) ''one'') empty_server)) = Some ErrVersionConflict"
proof -
  obtain i e s' where run: "Store_Put demo_store (demo_item ''v'' (NewVersion 3) ''one'') empty_server = ((i, e), s')"
    by (metis prod.exhaust)
  from Put_conflict_creates_item [OF demo_facts(1-3) _ demo_facts(4) _ _ _ run] run show ?thesis by simp
qed

text \<open>
  C35: a \<open>Delete\<close> of an item with a stale version reports \<open>ErrVersionConflict\<close>, keeps the item, and
  has removed every variant of it.
\<close>

theorem Delete_conflict_removes_variants:
  assumes "quiet_store S view invar env st" "invar s" "tidy st (view s)"
    and "proper st (IdentLocation ident)" "Ident_Validate ident = None" "Variant ident = []"
    and "contents st (view s) (key_of ident) = Some (d, u)" "actualVersion ident \<notin> {-1, u}"
    and "Store_Delete st ident s = (r, s')"
  shows "r = Some ErrVersionConflict \<and> contents st (view s') (key_of ident) = Some (d, u) \<and>
    (\<forall>k. k \<noteq> key_of ident \<and> item_key k = key_of ident \<longrightarrow> contents st (view s') k = None)"
  using quiet_store.Delete_refines [OF assms(1-5,9)] assms(6-8)
  by (simp add: abs_delete_def Let_def)

theorem Delete_conflict_removes_variants_witness:
  "fst (Store_Delete demo_store ((demo_ident [])\<lparr>IdentVersion := NewVersion 7\<rparr>) after_one) = Some ErrVersionConflict"
proof -
  let ?i = "(demo_ident [])\<lparr>IdentVersion := NewVersion 7\<rparr>"
  have inv: "quiet_invar after_one" "tidy demo_store (server_view after_one)"
    "contents demo_store (server_view after_one) (key_of ?i) = Some (''one'', 0)"
    using demo.Put_refines [OF demo_facts(2,3) _ demo_facts(4) demo_put_one]
    by (auto simp: abs_put_def with_item_def Let_def key_of_def item_key_def)
  have valid: "Ident_Validate ?i = None" by code_simp
  obtain r s' where run: "Store_Delete demo_store ?i after_one = (r, s')" by fastforce
  from Delete_conflict_removes_variants [OF demo_facts(1) inv(1,2) _ valid _ inv(3) _ run] run show ?thesis
    by simp
qed

text \<open>
  C36: a category may contain the name of the buckets node in the middle. In a store without a category \<open>c\<close>, an
  item put under the category \<open>c\<close>, name of the buckets node, \<open>x\<close> makes \<open>List\<close> of \<open>c\<close> return exactly one location:
  the one named like the buckets node, which nobody put.
\<close>

theorem List_reports_phantom:
  assumes "quiet_store S view invar env st" "invar s" "buckets_elems st c \<notin> dom (view s)"
    and "ValidateCategory c = None" "\<not> bad_category st c" "Item_Validate item = None"
    and "path_elems (Category (IdentLocation (ItemIdent item))) = path_elems c @ [bucketsZnodeName st, x]"
    and "Store_Put st item s = ((ident', None), s1)"
  shows "\<exists>ls. fst (Store_List st c s1) = (ls, None) \<and> set ls = {\<lparr>Category = c, Name = bucketsZnodeName st\<rparr>}"
proof -
  let ?id = "ItemIdent item" and ?bs = "buckets_elems st c"
  have st: "wf_store st" "conn st = S" "list_all printable (basePath st)" "zk_quiet S view invar env"
    using assms(1) by (simp_all add: quiet_store_def quiet_store_axioms_def)
  have valid: "Ident_Validate ?id = None"
    using assms(6) by (auto simp: Item_Validate_def Wrap_def split: option.splits if_splits)
  obtain p where p: "identPath st ?id = Inr p"
    using assms(6,8) by (cases "identPath st ?id") (auto simp: Store_Put_def)
  obtain b where b: "store_bucketFunc st (Name (IdentLocation ?id)) = Inr b"
    "\<not> bad_category st (Category (IdentLocation ?id))" using identPath_Inr [OF st(1) valid p] by blast
  define rest where "rest = [Itoa b, Name (IdentLocation ?id)] @ (if Variant ?id = [] then [] else [Variant ?id])"
  have node: "store_node st ?id = Some (?bs @ [x, bucketsZnodeName st] @ rest)"
    using b assms(7) by (simp add: store_node_def ident_elems_def item_elems_def buckets_elems_def rest_def)
  let ?es = "?bs @ [x, bucketsZnodeName st] @ rest"
  note good = store_node_good [OF st(1,3) valid node]
  have wf: "wf_tree (view s)" by (rule zk_service.view_wf [OF zk_quiet.axioms(1) [OF st(4)] assms(2)])
  have none: "?bs @ q \<notin> dom (view s)" for q using prefix_in_tree [OF wf, of "?bs @ q" ?bs] assms(3) by auto
  have s1: "invar s1" "view s1 = fill (node_data item ?es) ?es (view s)"
    using zk_quiet.Put_quiet [OF st(4) assms(2) good(2,3) st(2) good(1) assms(6,8)] none [of "[x, bucketsZnodeName st] @ rest"]
    by (auto split: option.splits if_splits)
  have dom: "?bs @ q \<in> dom (view s1) \<longleftrightarrow> prefix q ([x, bucketsZnodeName st] @ rest)" for q
    unfolding s1(2) using none [of q] by (auto simp: fill_def domIff split: if_splits)
  have x: "list_all printable x" using good(2) by simp
  have ch: "\<forall>y \<in> znode_children (view s1) ?bs. list_all printable y"
    using x by (auto simp: znode_children_def dom)
  obtain r s2 where run: "Store_List st c s1 = (r, s2)" by fastforce
  have path: "bucketsPath st c = Inr (abs_path ?bs)"
    using bucketsPath_elems [OF st(1) assms(4)] assms(5) by (auto simp: bad_category_def)
  have bs: "?bs \<in> dom (view s1)" using dom [of "[]"] by simp
  from zk_quiet.List_quiet [OF st(4) s1(1) st(2) buckets_good [OF st(1,3) assms(4)] assms(4) path _ run] ch bs
  obtain ls where ls: "r = (ls, None)" "set ls = {\<lparr>Category = c, Name = n\<rparr> | y n. ?bs @ [y, n] \<in> dom (view s1)}"
    by auto
  have "set ls = {\<lparr>Category = c, Name = bucketsZnodeName st\<rparr>}" unfolding ls(2) dom by auto
  with ls(1) run show ?thesis by simp
qed

definition nested_item :: Item where
  "nested_item =
     \<lparr>ItemIdent = \<lparr>IdentLocation = \<lparr>Category = ''c/buckets/x'', Name = ''n''\<rparr>, Variant = [], IdentVersion = zero_Version\<rparr>,
      Data = ''one''\<rparr>"

theorem List_reports_phantom_witness:
  "\<exists>ls. fst (Store_List demo_store ''c'' (snd (Store_Put demo_store nested_item empty_server))) = (ls, None) \<and>
     set ls = {\<lparr>Category = ''c'', Name = ''buckets''\<rparr>}"
proof -
  have v: "ValidateCategory ''c'' = None" "\<not> bad_category demo_store ''c''" "Item_Validate nested_item = None"
    "path_elems (Category (IdentLocation (ItemIdent nested_item))) = path_elems ''c'' @ [bucketsZnodeName demo_store, ''x'']"
    "snd (fst (Store_Put demo_store nested_item empty_server)) = None" "bucketsZnodeName demo_store = ''buckets''"
    by code_simp+
  have nd: "buckets_elems demo_store ''c'' \<notin> dom (server_view empty_server)"
    by (simp add: empty_server_view buckets_elems_def)
  obtain i s1 where run: "Store_Put demo_store nested_item empty_server = ((i, None), s1)"
    using v(5) by (metis prod.collapse)
  from List_reports_phantom [OF demo_facts(1,2) nd v(1-4) run] run v(6) show ?thesis by simp
qed

section \<open>Invalid arguments\<close>

text \<open>
  An operation given an invalid item, ident, location or category returns the validation error
  and sends no request: the state behind the connection is unchanged.
\<close>

theorem invalid_sends_nothing:
  "(case Item_Validate item of None \<Rightarrow> True | Some e \<Rightarrow> Store_Put st item s = ((ItemIdent item, Some e), s)) \<and>
   (case Ident_Validate ident of None \<Rightarrow> True
    | Some e \<Rightarrow> Store_Get st ident s = ((zero_Item, Some e), s) \<and> Store_Delete st ident s = (Some e, s)) \<and>
   (case Location_Validate l of None \<Rightarrow> True | Some e \<Rightarrow> Store_Variants st l s = (([], Some e), s)) \<and>
   (case ValidateCategory c of None \<Rightarrow> True
    | Some e \<Rightarrow> Store_List st c s = (([], Wrap (Some e) ''invalid category''), s))"
  by (auto simp: Store_Put_def Store_Get_def Store_Delete_def Store_Variants_def Store_List_def Let_def
      split: option.splits)

end
