(* ===== verification/Elector_Leader.thy ===== *)
theory Elector_Leader
  imports Zk_Client Go_Regexp
begin

text \<open>
  Package \<open>elector\<close>, the choice of the leader: \<open>sequencePart\<close>, \<open>sortedChildrenSequences\<close> and
  \<open>determineLeader\<close> of \<open>elector.go\<close>. A candidate's node ends in a sequence number the ZooKeeper
  servers assign; the leader is the node with the smallest one.
\<close>

section \<open>Errors\<close>

datatype elector_error =
    EErr string \<comment> \<open>\<open>errors.New\<close>, \<open>fmt.Errorf\<close>\<close>
  | EWrap string elector_error \<comment> \<open>\<open>errors.Wrap(f)\<close>\<close>
  | EZk zk_error
  | EConnector string \<comment> \<open>an error of a connector\<close>

section \<open>Sequence numbers\<close>

definition newline :: char where
  "newline = char_of (10 :: nat)"

definition lock_marker :: string where
  "lock_marker = ''-lock-''"

definition sequence_group :: rexp where
  \<comment> \<open>the group \<open>(-?\d+)\<close>\<close>
  "sequence_group = RSeq (ROpt (RLit CHR ''-'')) (RPlus (RChar is_digit))"

definition sequenceRe :: go_regexp where
  "sequenceRe =
     \<lparr>at_begin = False, at_end = True,
      body = RSeq (RStar (RChar (\<lambda>c. c \<noteq> newline))) (RSeq (RString lock_marker) sequence_group)\<rparr>"

text \<open>
  \<open>FindStringSubmatch\<close> of this expression: the group is a suffix of the text with the marker
  right before it.
\<close>

definition sequenceRe_FindStringSubmatch :: "string \<Rightarrow> string option" where
  "sequenceRe_FindStringSubmatch s =
     find (\<lambda>g. rmatches sequence_group g \<and> HasSuffix (take (length s - length g) s) lock_marker) (suffixes s)"

definition sequencePart :: "string \<Rightarrow> elector_error + int" where
  "sequencePart node =
     (if node = [] then Inl (EErr ''node cannot be blank'')
      else case sequenceRe_FindStringSubmatch node of
             None \<Rightarrow> Inl (EErr (''invalid node: '' @ node))
           | Some g \<Rightarrow>
               (case Atoi g of
                  None \<Rightarrow> Inl (EErr (''invalid sequence part: '' @ g))
                | Some res \<Rightarrow> Inr res))"

fun sequences_loop ::
  "string list \<Rightarrow> int list \<Rightarrow> (int \<rightharpoonup> string) \<Rightarrow> elector_error + int list \<times> (int \<rightharpoonup> string)" where
  "sequences_loop [] seqs lookup = Inr (seqs, lookup)"
| "sequences_loop (child # children) seqs lookup =
     (case sequencePart child of
        Inl err \<Rightarrow> Inl err
      | Inr seq \<Rightarrow> sequences_loop children (seqs @ [seq]) (lookup(seq \<mapsto> child)))"

definition sortedChildrenSequences :: "string list \<Rightarrow> elector_error + int list \<times> (int \<rightharpoonup> string)" where
  "sortedChildrenSequences children =
     (case sequences_loop children [] Map.empty of
        Inl err \<Rightarrow> Inl err
      | Inr (seqs, lookup) \<Rightarrow> Inr (sort seqs, lookup))"

definition determineLeader :: "string \<Rightarrow> string list \<Rightarrow> bool \<times> string \<times> elector_error option" where
  "determineLeader node children =
     (if length children = 0 then (False, [], Some (EErr ''no child nodes''))
      else case sortedChildrenSequences children of
             Inl err \<Rightarrow> (False, [], Some err)
           | Inr (sequences, lookup) \<Rightarrow>
               (case sequencePart node of
                  Inl err \<Rightarrow> (False, [], Some (EWrap ''invalid owner node'' err))
                | Inr mySeq \<Rightarrow>
                    (let leaderSeq = sequences ! 0
                     in (mySeq = leaderSeq,
                         (case lookup leaderSeq of Some n \<Rightarrow> n | None \<Rightarrow> []), None))))"

section \<open>Facts on sequence numbers\<close>

lemma find_Some_mem: "find P xs = Some x \<Longrightarrow> x \<in> set xs \<and> P x"
  by (induction xs) (auto split: if_splits)

definition is_sequence :: "string \<Rightarrow> bool" where
  "is_sequence g \<longleftrightarrow> (\<exists>ds. ds \<noteq> [] \<and> list_all is_digit ds \<and> (g = ds \<or> g = CHR ''-'' # ds))"

lemma sequence_group_iff: "rmatches sequence_group g \<longleftrightarrow> is_sequence g"
proof -
  have "rmatches sequence_group g \<longleftrightarrow> (\<exists>u ds. g = u @ ds \<and> u \<in> {[], ''-''} \<and> ds \<noteq> [] \<and> list_all is_digit ds)"
    unfolding rmatches_lang sequence_group_def lang.simps(4) lang_RPlus_RChar by (simp add: RLit_def)
  also have "\<dots> \<longleftrightarrow> is_sequence g" by (simp add: is_sequence_def conj_disj_distribL conj_disj_distribR ex_disj_distrib) blast
  finally show ?thesis .
qed

text \<open>A sequence has at most one dash, at its front, so it cannot reach back into the marker.\<close>

lemma marker_unique:
  assumes "pre @ lock_marker @ g = pre' @ lock_marker @ g'" "is_sequence g" "is_sequence g'"
  shows "g = g'"
proof -
  have shorter: "g = g'"
    if eq: "pre @ lock_marker @ g = pre' @ lock_marker @ g'" and "is_sequence g" "is_sequence g'" "length g \<le> length g'"
    for pre pre' g g'
  proof (rule ccontr)
    assume "g \<noteq> g'"
    have "(pre @ ''-lock'') @ CHR ''-'' # g = (pre' @ lock_marker) @ g'" using eq by (simp add: lock_marker_def)
    from append_eq_append_conv2 [THEN iffD1, OF this] obtain us where
      "(pre @ ''-lock'') = (pre' @ lock_marker) @ us \<and> us @ CHR ''-'' # g = g' \<or>
        (pre @ ''-lock'') @ us = pre' @ lock_marker \<and> CHR ''-'' # g = us @ g'"
      by blast
    then show False
    proof (elim disjE conjE)
      assume us: "pre @ ''-lock'' = (pre' @ lock_marker) @ us" "us @ CHR ''-'' # g = g'"
      have "last (pre @ ''-lock'') = CHR ''k''" by simp
      then have "us = [] \<or> last us = CHR ''k''" unfolding us(1) by (cases "us = []") simp_all
      moreover have "us \<noteq> []"
      proof
        assume "us = []"
        with us(1) have "last (pre @ ''-lock'') = last (pre' @ lock_marker)" by simp
        then show False by (simp add: lock_marker_def)
      qed
      ultimately have "CHR ''k'' \<in> set g'" using us(2) by (metis Un_iff last_in_set set_append)
      moreover have "\<not> is_digit CHR ''k''" by (simp add: is_digit_def byte_def)
      ultimately show False using that(3) by (auto simp: is_sequence_def list_all_iff)
    next
      assume us: "(pre @ ''-lock'') @ us = pre' @ lock_marker" "CHR ''-'' # g = us @ g'"
      from us(2) \<open>g \<noteq> g'\<close> that(4) have "us = []" by (cases us) auto
      with us(1) have "last (pre @ ''-lock'') = last (pre' @ lock_marker)" by simp
      then show False by (simp add: lock_marker_def)
    qed
  qed
  show ?thesis
    using shorter [OF assms] shorter [OF assms(1) [symmetric] assms(3,2)] nat_le_linear by metis
qed

lemma submatch_iff:
  "sequenceRe_FindStringSubmatch s = Some g \<longleftrightarrow> (\<exists>pre. s = pre @ lock_marker @ g \<and> is_sequence g)"
proof -
  let ?P = "\<lambda>g. rmatches sequence_group g \<and> HasSuffix (take (length s - length g) s) lock_marker"
  have P: "g' \<in> set (suffixes s) \<and> ?P g' \<longleftrightarrow> (\<exists>pre. s = pre @ lock_marker @ g' \<and> is_sequence g')" for g'
    by (auto simp: sequence_group_iff HasSuffix_def suffix_def)
  show ?thesis
  proof
    assume "sequenceRe_FindStringSubmatch s = Some g"
    then have "g \<in> set (suffixes s) \<and> ?P g"
      unfolding sequenceRe_FindStringSubmatch_def by (rule find_Some_mem)
    then show "\<exists>pre. s = pre @ lock_marker @ g \<and> is_sequence g" using P by blast
  next
    assume r: "\<exists>pre. s = pre @ lock_marker @ g \<and> is_sequence g"
    then have "find ?P (suffixes s) \<noteq> None" using P [of g] by (auto simp: find_None_iff)
    then obtain g' where g': "find ?P (suffixes s) = Some g'" by blast
    then have "g' \<in> set (suffixes s) \<and> ?P g'" by (rule find_Some_mem)
    with P r marker_unique have "g' = g" by metis
    with g' show "sequenceRe_FindStringSubmatch s = Some g" by (simp add: sequenceRe_FindStringSubmatch_def)
  qed
qed

lemma submatch_MatchString: "MatchString sequenceRe s \<longleftrightarrow> sequenceRe_FindStringSubmatch s \<noteq> None"
proof -
  have "lang (RStar (RChar (\<lambda>c. c \<noteq> newline))) = {u. list_all (\<lambda>c. c \<noteq> newline) u}"
    using star_all [of "\<lambda>c. c \<noteq> newline"] by simp
  then have "MatchString sequenceRe s \<longleftrightarrow>
      (\<exists>pre u g. s = pre @ u @ lock_marker @ g \<and> list_all (\<lambda>c. c \<noteq> newline) u \<and> is_sequence g)"
    unfolding sequenceRe_def MatchString_at_end by (simp flip: sequence_group_iff add: rmatches_lang) blast
  also have "\<dots> \<longleftrightarrow> (\<exists>pre g. s = pre @ lock_marker @ g \<and> is_sequence g)"
    by (metis append.left_neutral append.assoc list.pred_inject(1))
  also have "\<dots> \<longleftrightarrow> sequenceRe_FindStringSubmatch s \<noteq> None"
    using submatch_iff by (metis not_None_eq)
  finally show ?thesis .
qed

lemma sequencePart_marker:
  "is_sequence g \<Longrightarrow> sequencePart (pre @ lock_marker @ g) =
     (case Atoi g of None \<Rightarrow> Inl (EErr (''invalid sequence part: '' @ g)) | Some res \<Rightarrow> Inr res)"
  using submatch_iff [of "pre @ lock_marker @ g" g] by (auto simp: sequencePart_def lock_marker_def)

lemma sequencePart_Inr:
  "sequencePart node = Inr n \<longleftrightarrow> (\<exists>pre g. node = pre @ lock_marker @ g \<and> is_sequence g \<and> Atoi g = Some n)"
proof -
  have "sequencePart node = Inr n \<longleftrightarrow>
      node \<noteq> [] \<and> (\<exists>g. sequenceRe_FindStringSubmatch node = Some g \<and> Atoi g = Some n)"
    by (auto simp: sequencePart_def split: option.splits)
  also have "\<dots> \<longleftrightarrow> (\<exists>pre g. node = pre @ lock_marker @ g \<and> is_sequence g \<and> Atoi g = Some n)"
    unfolding submatch_iff by (auto simp: lock_marker_def)
  finally show ?thesis .
qed

section \<open>The leader is the node with the smallest sequence number\<close>

lemma sequences_loop_Inr:
  "sequences_loop cs seqs m = Inr (seqs', m') \<longleftrightarrow>
     (\<exists>ns. map sequencePart cs = map Inr ns \<and> seqs' = seqs @ ns \<and> m' = m ++ map_of (rev (zip ns cs)))"
proof (induction cs arbitrary: seqs m)
  case Nil
  then show ?case by auto
next
  case (Cons c cs)
  show ?case
  proof (cases "sequencePart c")
    case (Inl e)
    then show ?thesis by (auto simp: map_eq_Cons_conv Cons_eq_map_conv)
  next
    case (Inr n)
    have "(\<exists>ns. map sequencePart (c # cs) = map Inr ns \<and> seqs' = seqs @ ns \<and> m' = m ++ map_of (rev (zip ns (c # cs)))) \<longleftrightarrow>
        (\<exists>ns. map sequencePart cs = map Inr ns \<and> seqs' = (seqs @ [n]) @ ns \<and>
           m' = m(n \<mapsto> c) ++ map_of (rev (zip ns cs)))"
      using Inr by (auto simp: Cons_eq_map_conv)
    moreover have "sequences_loop (c # cs) seqs m = sequences_loop cs (seqs @ [n]) (m(n \<mapsto> c))" using Inr by simp
    ultimately show ?thesis using Cons.IH by presburger
  qed
qed

lemma sortedChildrenSequences_Inr:
  assumes "map sequencePart cs = map Inr ns"
  shows "sortedChildrenSequences cs = Inr (sort ns, map_of (rev (zip ns cs)))"
  using sequences_loop_Inr [of cs "[]" Map.empty ns "map_of (rev (zip ns cs))"] assms
  by (auto simp: sortedChildrenSequences_def)

lemma sort_head: "ns \<noteq> [] \<Longrightarrow> sort ns ! 0 = Min (set ns)" for ns :: "int list"
proof -
  assume "ns \<noteq> []"
  then obtain x xs where x: "sort ns = x # xs" by (metis list.exhaust set_empty set_sort)
  then have "sorted (x # xs)" by (metis sorted_sort)
  then have "\<forall>y \<in> set ns. x \<le> y" "x \<in> set ns"
    using x by (metis set_ConsD set_sort order_refl sorted_simps(2), metis list.set_intros(1) set_sort)
  then have "Min (set ns) = x" by (intro Min_eqI) auto
  with x show ?thesis by simp
qed

lemma determineLeader_Inr:
  assumes "children \<noteq> []" "map sequencePart children = map Inr ns" "sequencePart node = Inr n"
  shows "\<exists>leader. determineLeader node children = (n = Min (set ns), leader, None) \<and>
    leader \<in> set children \<and> sequencePart leader = Inr (Min (set ns))"
proof -
  let ?m = "map_of (rev (zip ns children))"
  have len: "length ns = length children" using assms(2) by (metis length_map)
  then have ne: "ns \<noteq> []" using assms(1) by auto
  have "Min (set ns) \<in> set ns" using ne by simp
  with len have "Min (set ns) \<in> dom ?m"
    by (simp add: dom_map_of_conv_image_fst set_zip_leftD image_iff) (metis in_set_impl_in_set_zip1 fst_conv)
  then obtain leader where l: "?m (Min (set ns)) = Some leader" by auto
  then have "(Min (set ns), leader) \<in> set (zip ns children)" by (metis map_of_SomeD set_rev)
  then obtain i where i: "i < length ns" "ns ! i = Min (set ns)" "children ! i = leader" "i < length children"
    by (auto simp: set_zip)
  then have "sequencePart leader = Inr (Min (set ns))"
    using assms(2) by (metis nth_map)
  moreover have "leader \<in> set children" using i by auto
  ultimately show ?thesis
    using assms(1,3) l sort_head [OF ne] sortedChildrenSequences_Inr [OF assms(2)]
    by (simp add: determineLeader_def Let_def)
qed

text \<open>
  C8: \<open>determineLeader\<close> on children that all carry a sequence number returns a child with the
  smallest one as the leader, and reports the caller as leader exactly when the caller's own
  number is the smallest.
\<close>

theorem determineLeader_minimum:
  assumes "children \<noteq> []" "map sequencePart children = map Inr ns" "sequencePart node = Inr n"
  shows "\<exists>leader. determineLeader node children = (n = Min (set ns), leader, None) \<and>
    leader \<in> set children \<and> sequencePart leader = Inr (Min (set ns))"
  using assms by (rule determineLeader_Inr)

theorem determineLeader_minimum_witness:
  "\<exists>leader. determineLeader ''/e/_c_2-lock-2'' [''_c_3-lock-3'', ''_c_2-lock-2''] = (True, leader, None) \<and>
     leader \<in> {''_c_3-lock-3'', ''_c_2-lock-2''}"
proof -
  have "map sequencePart [''_c_3-lock-3'', ''_c_2-lock-2''] = map Inr [3, 2]" "sequencePart ''/e/_c_2-lock-2'' = Inr 2"
    by code_simp+
  from determineLeader_minimum [OF _ this] show ?thesis by auto
qed

text \<open>
  \<open>determineLeader\<close> fails exactly when there are no children, or some child, or the caller's
  own node, carries no sequence number: a foreign node under the base path stops every elector.
\<close>

theorem determineLeader_error:
  "snd (snd (determineLeader node children)) \<noteq> None \<longleftrightarrow>
   children = [] \<or> (\<exists>c \<in> set (node # children). \<exists>e. sequencePart c = Inl e)"
proof (cases "\<exists>ns. map sequencePart children = map Inr ns")
  case True
  then obtain ns where ns: "map sequencePart children = map Inr ns" by blast
  then have "\<not> (\<exists>c \<in> set children. \<exists>e. sequencePart c = Inl e)"
    by (metis (no_types) Inl_Inr_False ex_map_conv in_set_conv_nth length_map nth_map)
  then show ?thesis
    using sortedChildrenSequences_Inr [OF ns] by (auto simp: determineLeader_def Let_def split: sum.splits)
next
  case False
  then have "\<exists>c \<in> set children. \<exists>e. sequencePart c = Inl e"
    using ex_map_conv [of "map sequencePart children" Inr] by (auto) (metis sum.exhaust)
  moreover have "\<exists>e. sortedChildrenSequences children = Inl e"
    using False sequences_loop_Inr [of children "[]" Map.empty]
    by (auto simp: sortedChildrenSequences_def split: sum.splits)
  ultimately show ?thesis by (auto simp: determineLeader_def)
qed

text \<open>
  the sequence number the servers append to a node's name, padded with zeros or negative,
  is the number \<open>sequencePart\<close> reads back, whatever comes before the marker.
\<close>

theorem sequencePart_reads_back:
  assumes "n < 2 ^ 63"
  shows "sequencePart (pre @ lock_marker @ replicate k CHR ''0'' @ nat_str n) = Inr (int n) \<and>
    sequencePart (pre @ lock_marker @ CHR ''-'' # replicate k CHR ''0'' @ nat_str n) = Inr (- int n)"
proof -
  let ?ds = "replicate k CHR ''0'' @ nat_str n"
  have "foldl (\<lambda>a c. 10 * a + (byte c - 48)) 0 (replicate k CHR ''0'') = 0"
    by (induction k) (simp_all add: byte_def)
  then have v: "digits_value ?ds = n"
    using digits_value_nat_str [of n] by (simp add: digits_value_def)
  have d: "list_all is_digit ?ds" "?ds \<noteq> []"
    using nat_str_digits [of n] by (auto simp: list_all_iff is_digit_def byte_def)
  then have seq: "is_sequence ?ds" "is_sequence (CHR ''-'' # ?ds)" unfolding is_sequence_def by blast+
  show ?thesis
    using sequencePart_marker [OF seq(1)] Atoi_digits [OF d]
      sequencePart_marker [OF seq(2)] Atoi_neg_digits [OF d] assms v by simp
qed

theorem sequencePart_reads_back_witness: "sequencePart ''/e/_c_ab-lock-0000000012'' = Inr 12"
proof -
  have "''/e/_c_ab-lock-0000000012'' = ''/e/_c_ab'' @ lock_marker @ replicate 8 CHR ''0'' @ nat_str 12" by code_simp
  with sequencePart_reads_back [of 12 "''/e/_c_ab''" 8] show ?thesis by simp
qed

end
