(* ===== verification/Elector_Machine.thy ===== *)
theory Elector_Machine
  imports Elector_Leader
begin

text \<open>
  Package \<open>elector\<close>, the running elector: \<open>Start\<close>, \<open>initialize\<close>, \<open>start\<close> with its two goroutines,
  \<open>updateLeaderData\<close> and the channel operations of \<open>elector.go\<close>, with the interfaces of
  \<open>connector.go\<close> and the events of \<open>event.go\<close>. Goroutines interleave at their channel operations
  and calls: one rule of the step relation per such point. \<open>initialize\<close>, which sends nothing and touches no
  field that another goroutine reads, is one step; the calls of others that come between its requests are part of
  the service (see \<open>Connectors\<close>).
\<close>

section \<open>Types\<close>

record event =
  Leader :: bool
  Err :: "elector_error option"

text \<open>
  The interface \<open>Conn\<close>. \<open>ChildrenW\<close> also returns a channel; what arrives on it is up to the
  service, so the channel is not a value of the model but a step of it.
\<close>

record 's Conn =
  Get :: "string \<Rightarrow> 's \<Rightarrow> (bytes \<times> elector_error option) \<times> 's"
  Exists :: "string \<Rightarrow> 's \<Rightarrow> (bool \<times> elector_error option) \<times> 's"
  Create :: "string \<Rightarrow> bytes \<Rightarrow> int32 \<Rightarrow> ACL list \<Rightarrow> 's \<Rightarrow> (string \<times> elector_error option) \<times> 's"
  CreateProtectedEphemeralSequential :: "string \<Rightarrow> bytes \<Rightarrow> ACL list \<Rightarrow> 's \<Rightarrow> (string \<times> elector_error option) \<times> 's"
  ChildrenW :: "string \<Rightarrow> 's \<Rightarrow> (string list \<times> elector_error option) \<times> 's"

record 's Elector =
  acl :: "ACL list"
  conn :: "'s Conn"
  ident :: string
  basePath :: string
  closer :: "'s \<Rightarrow> elector_error option \<times> 's"

record 's Connector =
  Connect :: "'s \<Rightarrow> (elector_error + 's Conn) \<times> 's"
  Close :: "'s \<Rightarrow> elector_error option \<times> 's"

datatype watcher_pc = WSelect | WSend elector_error | WReturn | WCancel | WEnd

datatype worker_pc =
    KInitialize
  | KCreateLock
  | KChildren
  | KUpdate "string list"
  | is_KSendEvent: KSendEvent event
  | KSelect
  | KSend "elector_error option"
  | KReturn
  | KCancel
  | KEnd

datatype main_pc = MWait | MSendErr "elector_error option" | MCloseEvents | MEnd

text \<open>
  The state of a running elector: the fields guarded by the mutex, the channels (\<open>received\<close> is
  what the client has taken from \<open>events\<close>, \<open>errch\<close> the buffer of capacity 1), the local variables
  of \<open>start\<close>, and a program counter for each goroutine.
\<close>

record 's machine =
  leaderIdent :: string
  isLeader :: bool
  closing :: bool
  received :: "event list"
  events_closed :: bool
  errch :: "elector_error option list"
  shouldQuit :: bool
  lockPath :: string
  firstLeaderUpdate :: bool
  watcher :: watcher_pc
  worker :: worker_pc
  main :: main_pc
  world :: 's

section \<open>Functions\<close>

definition quoted :: "string \<Rightarrow> string" where
  "quoted s = char_of (39 :: nat) # s @ [char_of (39 :: nat)]"

fun initialize_loop :: "'s Elector \<Rightarrow> string \<Rightarrow> string list \<Rightarrow> 's \<Rightarrow> elector_error option \<times> 's" where
  "initialize_loop e create [] s = (None, s)"
| "initialize_loop e create (segment # segments) s =
     (let create' = path_Join [create, segment] in
      case Exists (conn e) create' s of
        ((ex, Some err), s1) \<Rightarrow> (Some (EWrap (''could not check path '' @ quoted create') err), s1)
      | ((ex, None), s1) \<Rightarrow>
          if ex then initialize_loop e create' segments s1
          else (case Create (conn e) create' [] 0 (acl e) s1 of
                  ((_, Some err), s2) \<Rightarrow> (Some (EWrap (''could not create path '' @ quoted create') err), s2)
                | ((_, None), s2) \<Rightarrow> initialize_loop e create' segments s2))"

definition initialize :: "'s Elector \<Rightarrow> 's \<Rightarrow> elector_error option \<times> 's" where
  "initialize e s =
     (case Exists (conn e) (basePath e) s of
        ((ex, Some err), s1) \<Rightarrow> (Some (EWrap (''could not check if base path '' @ basePath e @ '' exists'') err), s1)
      | ((ex, None), s1) \<Rightarrow>
          if ex then (None, s1)
          else initialize_loop e ''/'' (Split (basePath e) CHR ''/'') s1)"

definition getIdentFromNode :: "'s Elector \<Rightarrow> string \<Rightarrow> 's \<Rightarrow> (string \<times> elector_error option) \<times> 's" where
  "getIdentFromNode e node s = Get (conn e) (path_Join [basePath e, node]) s"

definition checkZKEvent :: "zk_event \<Rightarrow> elector_error option" where
  "checkZKEvent ev =
     (case EventErr ev of
        Some err \<Rightarrow> Some (EZk err)
      | None \<Rightarrow>
          if EventState ev \<in> {StateExpired, StateAuthFailed, StateDisconnected, StateUnknown}
          then Some (EErr (''invalid ZK state: '' @ State_String (EventState ev))) else None)"

text \<open>\<open>updateLeaderData\<close> up to its \<open>sendEvent\<close>, which is a step of its own.\<close>

definition updateLeaderData :: "string \<Rightarrow> bool \<Rightarrow> bool \<Rightarrow> 's machine \<Rightarrow> 's machine" where
  "updateLeaderData leader_ident leader forceSend m =
     (let prevLeader = isLeader m;
          m' = m\<lparr>leaderIdent := leader_ident, isLeader := leader\<rparr>
      in if prevLeader = leader \<and> \<not> forceSend then m'\<lparr>worker := KSelect\<rparr>
         else m'\<lparr>worker := KSendEvent \<lparr>Leader = leader, Err = None\<rparr>\<rparr>)"

definition updateFunc :: "'s Elector \<Rightarrow> string list \<Rightarrow> 's machine \<Rightarrow> 's machine" where
  "updateFunc e children m =
     (case determineLeader (lockPath m) children of
        (_, _, Some err) \<Rightarrow> m\<lparr>worker := KSend (Some (EWrap ''could not determine leader'' err))\<rparr>
      | (leader, leaderNode, None) \<Rightarrow>
          (case getIdentFromNode e leaderNode (world m) of
             ((_, Some err), w) \<Rightarrow>
               m\<lparr>world := w, worker := KSend (Some (EWrap ''could not get ident from node'' err))\<rparr>
           | ((leader_ident, None), w) \<Rightarrow>
               (updateLeaderData leader_ident leader (firstLeaderUpdate m) (m\<lparr>world := w\<rparr>))
                 \<lparr>firstLeaderUpdate := False\<rparr>))"

definition select_send :: "elector_error option \<Rightarrow> 's machine \<Rightarrow> 's machine" where
  \<comment> \<open>\<open>select { case errch <- err: default: }\<close>\<close>
  "select_send err m = (if errch m = [] then m\<lparr>errch := [err]\<rparr> else m)"

definition new_machine :: "'s \<Rightarrow> 's machine" where
  "new_machine w =
     \<lparr>leaderIdent = [], isLeader = False, closing = False, received = [], events_closed = False, errch = [],
      shouldQuit = False, lockPath = [], firstLeaderUpdate = True, watcher = WSelect, worker = KInitialize,
      main = MWait, world = w\<rparr>"

definition Start ::
  "string \<Rightarrow> string \<Rightarrow> ACL list option \<Rightarrow> 's Connector \<Rightarrow> 's \<Rightarrow> (elector_error + 's Elector) \<times> 's" where
  "Start name base acls connector s =
     (if TrimSpace name = [] then (Inl (EErr ''ident must not be blank''), s)
      else
        let a = (case acls of None \<Rightarrow> WorldACL PermAll | Some x \<Rightarrow> x) in
        case Connect connector s of
          (Inl err, s1) \<Rightarrow> (Inl err, s1)
        | (Inr c, s1) \<Rightarrow>
            (Inr \<lparr>acl = a, conn = c, ident = name, basePath = base, closer = Close connector\<rparr>, s1))"

definition LeaderIdent :: "'s machine \<Rightarrow> string" where
  "LeaderIdent m = leaderIdent m"

definition Elector_Close :: "'s Elector \<Rightarrow> 's machine \<Rightarrow> elector_error option \<times> 's machine" where
  "Elector_Close e m =
     (case closer e (world m) of (err, w) \<Rightarrow> (err, m\<lparr>closing := True, world := w\<rparr>))"

section \<open>Steps\<close>

text \<open>
  Who makes a step: the elector itself, the client that receives an event, the client that
  calls \<open>Close\<close>, or the service (an event on a channel, a change of the world).
\<close>

datatype actor = Self | Receive | Client | Service

inductive elector_step :: "'s Elector \<Rightarrow> actor \<Rightarrow> 's machine \<Rightarrow> 's machine \<Rightarrow> bool" for e where
  watcher_quit: "watcher m = WSelect \<Longrightarrow> shouldQuit m \<Longrightarrow> elector_step e Self m (m\<lparr>watcher := WReturn\<rparr>)"
| watcher_ok: "watcher m = WSelect \<Longrightarrow> checkZKEvent ev = None \<Longrightarrow> elector_step e Service m m"
| watcher_err: "watcher m = WSelect \<Longrightarrow> checkZKEvent ev = Some err \<Longrightarrow>
    elector_step e Service m (m\<lparr>watcher := WSend err\<rparr>)"
| watcher_send: "watcher m = WSend err \<Longrightarrow> elector_step e Self m (select_send (Some err) (m\<lparr>watcher := WReturn\<rparr>))"
| watcher_done: "watcher m = WReturn \<Longrightarrow> elector_step e Self m (m\<lparr>watcher := WCancel\<rparr>)"
| watcher_cancel: "watcher m = WCancel \<Longrightarrow> elector_step e Self m (m\<lparr>watcher := WEnd, shouldQuit := True\<rparr>)"
| initialize_err: "worker m = KInitialize \<Longrightarrow> initialize e (world m) = (Some err, w) \<Longrightarrow>
    elector_step e Self m (m\<lparr>world := w, worker := KSend (Some (EWrap ''elector initialization failed'' err))\<rparr>)"
| initialize_ok: "worker m = KInitialize \<Longrightarrow> initialize e (world m) = (None, w) \<Longrightarrow>
    elector_step e Self m (m\<lparr>world := w, worker := KCreateLock\<rparr>)"
| lock_err: "worker m = KCreateLock \<Longrightarrow>
    CreateProtectedEphemeralSequential (conn e) (basePath e @ ''/lock-'') (ident e) (acl e) (world m) = ((p, Some err), w) \<Longrightarrow>
    elector_step e Self m (m\<lparr>world := w, worker := KSend (Some (EWrap ''could not create lock node'' err))\<rparr>)"
| lock_ok: "worker m = KCreateLock \<Longrightarrow>
    CreateProtectedEphemeralSequential (conn e) (basePath e @ ''/lock-'') (ident e) (acl e) (world m) = ((p, None), w) \<Longrightarrow>
    elector_step e Self m (m\<lparr>world := w, lockPath := p, worker := KChildren\<rparr>)"
| children_err: "worker m = KChildren \<Longrightarrow> ChildrenW (conn e) (basePath e) (world m) = ((cs, Some err), w) \<Longrightarrow>
    elector_step e Self m (m\<lparr>world := w, worker := KSend (Some (EWrap ''could not get children'' err))\<rparr>)"
| children_ok: "worker m = KChildren \<Longrightarrow> ChildrenW (conn e) (basePath e) (world m) = ((cs, None), w) \<Longrightarrow>
    elector_step e Self m (m\<lparr>world := w, worker := KUpdate cs\<rparr>)"
| update: "worker m = KUpdate cs \<Longrightarrow> elector_step e Self m (updateFunc e cs m)"
| event_received: "worker m = KSendEvent ev \<Longrightarrow>
    elector_step e Receive m (m\<lparr>received := received m @ [ev], worker := KSelect\<rparr>)"
| event_dropped: "worker m = KSendEvent ev \<Longrightarrow> closing m \<Longrightarrow> elector_step e Self m (m\<lparr>worker := KSelect\<rparr>)"
| child_event: "worker m = KSelect \<Longrightarrow> elector_step e Service m (m\<lparr>worker := KChildren\<rparr>)"
| child_closed: "worker m = KSelect \<Longrightarrow>
    elector_step e Service m (m\<lparr>worker := KSend (Some (EErr ''child events stream terminated''))\<rparr>)"
| worker_quit: "worker m = KSelect \<Longrightarrow> shouldQuit m \<Longrightarrow> elector_step e Self m (m\<lparr>worker := KSend None\<rparr>)"
| worker_send: "worker m = KSend err \<Longrightarrow> elector_step e Self m (select_send err (m\<lparr>worker := KReturn\<rparr>))"
| worker_done: "worker m = KReturn \<Longrightarrow> elector_step e Self m (m\<lparr>worker := KCancel\<rparr>)"
| worker_cancel: "worker m = KCancel \<Longrightarrow> elector_step e Self m (m\<lparr>worker := KEnd, shouldQuit := True\<rparr>)"
| main_wait: "main m = MWait \<Longrightarrow> watcher m \<in> {WCancel, WEnd} \<Longrightarrow> worker m \<in> {KCancel, KEnd} \<Longrightarrow>
    elector_step e Self m
      (m\<lparr>errch := tl (errch m), main := MSendErr (case errch m of [] \<Rightarrow> None | v # _ \<Rightarrow> v)\<rparr>)"
| error_received: "main m = MSendErr err \<Longrightarrow>
    elector_step e Receive m (m\<lparr>received := received m @ [\<lparr>Leader = False, Err = err\<rparr>], main := MCloseEvents\<rparr>)"
| error_dropped: "main m = MSendErr err \<Longrightarrow> closing m \<Longrightarrow> elector_step e Self m (m\<lparr>main := MCloseEvents\<rparr>)"
| main_end: "main m = MCloseEvents \<Longrightarrow> elector_step e Self m (m\<lparr>events_closed := True, main := MEnd\<rparr>)"
| client_close: "elector_step e Client m (snd (Elector_Close e m))"
| world_change: "elector_step e Service m (m\<lparr>world := w\<rparr>)"

inductive reachable :: "'s Elector \<Rightarrow> 's machine \<Rightarrow> bool" for e where
  reach_start: "reachable e (new_machine w)"
| reach_step: "reachable e m \<Longrightarrow> elector_step e a m m' \<Longrightarrow> reachable e m'"

section \<open>The final error\<close>

lemma updateFunc_cases:
  obtains (failed) err w where "updateFunc e cs m = m\<lparr>world := w, worker := KSend (Some err)\<rparr>"
  | (same) i w where "\<not> firstLeaderUpdate m" "updateFunc e cs m =
      m\<lparr>world := w, leaderIdent := i, firstLeaderUpdate := False, worker := KSelect\<rparr>"
  | (changed) i l w where "firstLeaderUpdate m \<or> isLeader m \<noteq> l" "updateFunc e cs m =
      m\<lparr>world := w, leaderIdent := i, isLeader := l, firstLeaderUpdate := False,
        worker := KSendEvent \<lparr>Leader = l, Err = None\<rparr>\<rparr>"
proof -
  obtain l n err where d: "determineLeader (lockPath m) cs = (l, n, err)" by (metis prod_cases3)
  obtain i g w where g: "getIdentFromNode e n (world m) = ((i, g), w)" by (metis prod.exhaust)
  consider x where "err = Some x" | x where "err = None" "g = Some x" | "err = None" "g = None" by blast
  then show thesis
  proof cases
    case (1 x)
    have "m\<lparr>world := world m, worker := k\<rparr> = m\<lparr>worker := k\<rparr>" for k by simp
    with 1 d failed [of _ "world m"] show thesis by (simp add: updateFunc_def)
  next
    case 2
    with d g failed [of _ w] show thesis by (simp add: updateFunc_def)
  next
    case 3
    have "m\<lparr>isLeader := isLeader m\<rparr> = m" by simp
    show thesis
    proof (cases "isLeader m = l \<and> \<not> firstLeaderUpdate m")
      case True
      with 3 d g same [of i w] show thesis by (simp add: updateFunc_def updateLeaderData_def Let_def)
    next
      case False
      with 3 d g changed [of l i w] show thesis by (auto simp: updateFunc_def updateLeaderData_def Let_def)
    qed
  qed
qed

text \<open>
  While \<open>start\<close> waits for its goroutines: a goroutine that has passed its send has left an error
  in \<open>errch\<close>, \<open>shouldQuit\<close> is closed exactly when one of them has ended, and the worker returns
  without an error only after the watcher has ended.
\<close>

definition err_inv :: "'s machine \<Rightarrow> bool" where
  "err_inv m \<longleftrightarrow>
     (shouldQuit m \<longleftrightarrow> watcher m = WEnd \<or> worker m = KEnd) \<and>
     (worker m = KSend None \<longrightarrow> watcher m = WEnd) \<and>
     (case main m of
        MWait \<Rightarrow>
          (watcher m \<in> {WReturn, WCancel, WEnd} \<or> worker m \<in> {KReturn, KCancel, KEnd} \<longrightarrow>
             (\<exists>err. errch m = [Some err])) \<and>
          (errch m = [] \<or> (\<exists>err. errch m = [Some err]))
      | MSendErr err \<Rightarrow> err \<noteq> None \<and> watcher m \<in> {WCancel, WEnd} \<and> worker m \<in> {KCancel, KEnd}
      | _ \<Rightarrow> watcher m \<in> {WCancel, WEnd} \<and> worker m \<in> {KCancel, KEnd})"

lemma err_inv_update: "err_inv m \<Longrightarrow> worker m = KUpdate cs \<Longrightarrow> err_inv (updateFunc e cs m)"
  by (cases rule: updateFunc_cases [of e cs m]) (auto simp: err_inv_def split: main_pc.splits)

lemma err_inv_step: "elector_step e a m m' \<Longrightarrow> err_inv m \<Longrightarrow> err_inv m'"
proof (induction rule: elector_step.induct)
  case (update m cs)
  then show ?case by (simp add: err_inv_update)
qed (auto simp: err_inv_def select_send_def Elector_Close_def split: main_pc.splits prod.splits)

lemma err_inv_reachable: "reachable e m \<Longrightarrow> err_inv m"
proof (induction rule: reachable.induct)
  case (reach_start w)
  then show ?case by (simp add: err_inv_def new_machine_def)
qed (rule err_inv_step)

section \<open>The events the client receives\<close>

definition leads :: "'s machine \<Rightarrow> bool list" where
  "leads m = map Leader (filter (\<lambda>ev. Err ev = None) (received m))"

text \<open>
  The error event is the last one and comes at most once; before \<open>Close\<close> it always comes. The
  \<open>events\<close> channel is closed after it. Leader events alternate, the first is always sent, and the
  last one is the elector's current state unless the next is under way.
\<close>

definition event_inv :: "'s machine \<Rightarrow> bool" where
  "event_inv m \<longleftrightarrow>
     (events_closed m \<longleftrightarrow> main m = MEnd) \<and>
     (\<forall>ev. worker m = KSendEvent ev \<longrightarrow> Err ev = None) \<and>
     (case main m of
        MWait \<Rightarrow> \<forall>ev \<in> set (received m). Err ev = None
      | MSendErr err \<Rightarrow> err \<noteq> None \<and> (\<forall>ev \<in> set (received m). Err ev = None)
      | _ \<Rightarrow> (\<forall>ev \<in> set (butlast (received m)). Err ev = None) \<and>
          (closing m \<or> received m \<noteq> [] \<and> Err (last (received m)) \<noteq> None))"

lemma event_inv_update: "event_inv m \<Longrightarrow> worker m = KUpdate cs \<Longrightarrow> event_inv (updateFunc e cs m)"
  by (cases rule: updateFunc_cases [of e cs m]) (auto simp: event_inv_def split: main_pc.splits)

lemma event_inv_step: "elector_step e a m m' \<Longrightarrow> err_inv m \<Longrightarrow> event_inv m \<Longrightarrow> event_inv m'"
proof (induction rule: elector_step.induct)
  case (update m cs)
  then show ?case by (simp add: event_inv_update)
next
  case (event_received m ev)
  then show ?case by (auto simp: event_inv_def err_inv_def split: main_pc.splits)
next
  case (main_wait m)
  then show ?case by (auto simp: event_inv_def err_inv_def)
next
  case (error_dropped m err)
  then show ?case by (auto simp: event_inv_def dest: in_set_butlastD)
qed (auto simp: event_inv_def select_send_def Elector_Close_def split: main_pc.splits prod.splits)

definition lead_inv :: "'s machine \<Rightarrow> bool" where
  "lead_inv m \<longleftrightarrow> closing m \<or>
     distinct_adj (leads m) \<and>
     (\<forall>ev. worker m = KSendEvent ev \<longrightarrow>
        Leader ev = isLeader m \<and> \<not> firstLeaderUpdate m \<and> (leads m = [] \<or> last (leads m) \<noteq> Leader ev)) \<and>
     (\<not> is_KSendEvent (worker m) \<longrightarrow>
        (if firstLeaderUpdate m then leads m = [] else leads m \<noteq> [] \<and> last (leads m) = isLeader m))"

lemma leads_snoc: "leads (m\<lparr>received := received m @ [ev]\<rparr>) = (if Err ev = None then leads m @ [Leader ev] else leads m)"
  by (simp add: leads_def)

lemma lead_inv_update: "lead_inv m \<Longrightarrow> worker m = KUpdate cs \<Longrightarrow> lead_inv (updateFunc e cs m)"
  by (cases rule: updateFunc_cases [of e cs m]) (auto simp: lead_inv_def leads_def split: if_splits)

lemma lead_inv_step: "elector_step e a m m' \<Longrightarrow> err_inv m \<Longrightarrow> event_inv m \<Longrightarrow> lead_inv m \<Longrightarrow> lead_inv m'"
proof (induction rule: elector_step.induct)
  case (update m cs)
  then show ?case by (simp add: lead_inv_update)
next
  case (event_received m ev)
  then have "Err ev = None" by (simp add: event_inv_def)
  then have "leads (m\<lparr>received := received m @ [ev], worker := KSelect\<rparr>) = leads m @ [Leader ev]"
    by (simp add: leads_def)
  with event_received show ?case
    by (auto simp: lead_inv_def distinct_adj_append_iff)
next
  case (error_received m err)
  then have "Err \<lparr>Leader = False, Err = err\<rparr> \<noteq> None" by (simp add: event_inv_def)
  then have "leads (m\<lparr>received := received m @ [\<lparr>Leader = False, Err = err\<rparr>], main := MCloseEvents\<rparr>) = leads m"
    by (simp add: leads_def)
  with error_received show ?case by (auto simp: lead_inv_def)
qed (auto simp: lead_inv_def leads_def select_send_def Elector_Close_def split: prod.splits)

lemma reachable_inv:
  assumes "reachable e m"
  shows "err_inv m" "event_inv m" "lead_inv m"
proof -
  have "err_inv m \<and> event_inv m \<and> lead_inv m"
    using assms
  proof (induction rule: reachable.induct)
    case (reach_start w)
    show ?case by (simp add: err_inv_def event_inv_def lead_inv_def leads_def new_machine_def)
  next
    case (reach_step m a m')
    then show ?case using err_inv_step event_inv_step lead_inv_step by blast
  qed
  then show "err_inv m" "event_inv m" "lead_inv m" by auto
qed

section \<open>Winding down\<close>

fun watcher_rank :: "watcher_pc \<Rightarrow> nat" where
  "watcher_rank WSelect = 4"
| "watcher_rank (WSend _) = 3"
| "watcher_rank WReturn = 2"
| "watcher_rank WCancel = 1"
| "watcher_rank WEnd = 0"

fun worker_rank :: "worker_pc \<Rightarrow> nat" where
  "worker_rank KInitialize = 9"
| "worker_rank KCreateLock = 8"
| "worker_rank KChildren = 7"
| "worker_rank (KUpdate _) = 6"
| "worker_rank (KSendEvent _) = 5"
| "worker_rank KSelect = 4"
| "worker_rank (KSend _) = 3"
| "worker_rank KReturn = 2"
| "worker_rank KCancel = 1"
| "worker_rank KEnd = 0"

fun main_rank :: "main_pc \<Rightarrow> nat" where
  "main_rank MWait = 3"
| "main_rank (MSendErr _) = 2"
| "main_rank MCloseEvents = 1"
| "main_rank MEnd = 0"

definition rank :: "'s machine \<Rightarrow> nat" where
  "rank m = watcher_rank (watcher m) + worker_rank (worker m) + main_rank (main m)"

text \<open>The elector has failed when a goroutine has seen an error or has been told to quit.\<close>

definition failing :: "'s machine \<Rightarrow> bool" where
  "failing m \<longleftrightarrow> watcher m \<noteq> WSelect \<or> worker m \<in> {KReturn, KCancel, KEnd} \<or> (\<exists>err. worker m = KSend err)"

inductive own_step :: "'s Elector \<Rightarrow> 's machine \<Rightarrow> 's machine \<Rightarrow> bool" for e where
  own_self: "elector_step e Self m m' \<Longrightarrow> own_step e m m'"
| own_receive: "elector_step e Receive m m' \<Longrightarrow> own_step e m m'"

lemma rank_update: "worker m = KUpdate cs \<Longrightarrow> rank (updateFunc e cs m) < rank m"
  by (cases rule: updateFunc_cases [of e cs m]) (auto simp: rank_def)

lemma own_step_rank_aux: "elector_step e a m m' \<Longrightarrow> a = Self \<or> a = Receive \<Longrightarrow> rank m' < rank m"
proof (induction rule: elector_step.induct)
  case (update m cs)
  then show ?case by (simp add: rank_update)
qed (auto simp: rank_def select_send_def)

lemma own_step_rank: "own_step e m m' \<Longrightarrow> rank m' < rank m"
  by (erule own_step.cases) (blast intro: own_step_rank_aux)+

lemma failing_update: "failing m \<Longrightarrow> worker m = KUpdate cs \<Longrightarrow> failing (updateFunc e cs m)"
  by (cases rule: updateFunc_cases [of e cs m]) (auto simp: failing_def)

lemma failing_step: "elector_step e a m m' \<Longrightarrow> failing m \<Longrightarrow> failing m'"
proof (induction rule: elector_step.induct)
  case (update m cs)
  then show ?case by (simp add: failing_update)
qed (auto simp: failing_def select_send_def Elector_Close_def split: prod.splits)

lemma own_step_failing: "own_step e m m' \<Longrightarrow> failing m \<Longrightarrow> failing m'"
  by (erule own_step.cases) (blast intro: failing_step)+

lemma own_step_reachable: "own_step e m m' \<Longrightarrow> reachable e m \<Longrightarrow> reachable e m'"
  by (erule own_step.cases) (blast intro: reach_step)+

lemma watcher_progress:
  assumes "watcher m \<noteq> WEnd" "watcher m = WSelect \<Longrightarrow> shouldQuit m"
  shows "\<exists>m'. own_step e m m'"
proof (cases "watcher m")
  case WSelect
  then show ?thesis using assms own_self [OF watcher_quit] by blast
next
  case (WSend err)
  then show ?thesis using own_self [OF watcher_send] by blast
next
  case WReturn
  then show ?thesis using own_self [OF watcher_done] by blast
next
  case WCancel
  then show ?thesis using own_self [OF watcher_cancel] by blast
qed (use assms in simp)

lemma worker_progress:
  assumes "worker m \<noteq> KEnd" "worker m = KSelect \<Longrightarrow> shouldQuit m"
  shows "\<exists>m'. own_step e m m'"
proof (cases "worker m")
  case KInitialize
  obtain err w where i: "initialize e (world m) = (err, w)" by fastforce
  show ?thesis
  proof (cases err)
    case None
    show ?thesis using own_self [OF initialize_ok [OF KInitialize i [unfolded None]]] by (rule exI)
  next
    case (Some x)
    show ?thesis using own_self [OF initialize_err [OF KInitialize i [unfolded Some]]] by (rule exI)
  qed
next
  case KCreateLock
  obtain p err w where c:
    "CreateProtectedEphemeralSequential (conn e) (basePath e @ ''/lock-'') (ident e) (acl e) (world m) = ((p, err), w)"
    by (metis prod.exhaust)
  show ?thesis
  proof (cases err)
    case None
    show ?thesis using own_self [OF lock_ok [OF KCreateLock c [unfolded None]]] by (rule exI)
  next
    case (Some x)
    show ?thesis using own_self [OF lock_err [OF KCreateLock c [unfolded Some]]] by (rule exI)
  qed
next
  case KChildren
  obtain cs err w where c: "ChildrenW (conn e) (basePath e) (world m) = ((cs, err), w)" by (metis prod.exhaust)
  show ?thesis
  proof (cases err)
    case None
    show ?thesis using own_self [OF children_ok [OF KChildren c [unfolded None]]] by (rule exI)
  next
    case (Some x)
    show ?thesis using own_self [OF children_err [OF KChildren c [unfolded Some]]] by (rule exI)
  qed
next
  case (KUpdate cs)
  then show ?thesis using own_self [OF update] by blast
next
  case (KSendEvent ev)
  then show ?thesis using own_receive [OF event_received] by blast
next
  case KSelect
  then show ?thesis using assms own_self [OF worker_quit] by blast
next
  case (KSend err)
  then show ?thesis using own_self [OF worker_send] by blast
next
  case KReturn
  then show ?thesis using own_self [OF worker_done] by blast
next
  case KCancel
  then show ?thesis using own_self [OF worker_cancel] by blast
qed (use assms in simp)

lemma main_progress:
  assumes "watcher m = WEnd" "worker m = KEnd" "main m \<noteq> MEnd"
  shows "\<exists>m'. own_step e m m'"
proof (cases "main m")
  case MWait
  then show ?thesis using assms own_self [OF main_wait, of m] by auto
next
  case (MSendErr err)
  then show ?thesis using own_receive [OF error_received] by blast
next
  case MCloseEvents
  then show ?thesis using own_self [OF main_end] by blast
qed (use assms in simp)

interpretation winding: ranked "own_step e" rank "\<lambda>m. reachable e m \<and> failing m" for e
  by unfold_locales (auto intro: own_step_reachable own_step_failing own_step_rank)

text \<open>A failing elector that has not ended can make a step.\<close>

lemma failing_progress:
  assumes "err_inv m" "failing m" "main m \<noteq> MEnd"
  shows "\<exists>m'. own_step e m m'"
proof (rule ccontr)
  assume stuck: "\<nexists>m'. own_step e m m'"
  then have w: "watcher m = WEnd \<or> watcher m = WSelect \<and> \<not> shouldQuit m"
    and k: "worker m = KEnd \<or> worker m = KSelect \<and> \<not> shouldQuit m"
    using watcher_progress [of m e] worker_progress [of m e] by blast+
  have "shouldQuit m \<longleftrightarrow> watcher m = WEnd \<or> worker m = KEnd" using assms(1) by (simp add: err_inv_def)
  with w k assms(2) have "watcher m = WEnd" "worker m = KEnd" by (auto simp: failing_def)
  with main_progress assms(3) stuck show False by blast
qed

section \<open>Concrete electors\<close>

text \<open>
  Two electors over a trivial world, for concrete runs: one whose connection fails, one that is
  alone under its base path.
\<close>

definition broken_conn :: "unit Conn" where
  "broken_conn =
     \<lparr>Get = (\<lambda>p s. (([], Some (EZk ErrConnectionClosed)), s)), Exists = (\<lambda>p s. ((False, Some (EZk ErrConnectionClosed)), s)),
      Create = (\<lambda>p d f a s. (([], Some (EZk ErrConnectionClosed)), s)),
      CreateProtectedEphemeralSequential = (\<lambda>p d a s. (([], Some (EZk ErrConnectionClosed)), s)),
      ChildrenW = (\<lambda>p s. (([], Some (EZk ErrConnectionClosed)), s))\<rparr>"

definition alone_conn :: "unit Conn" where
  "alone_conn =
     \<lparr>Get = (\<lambda>p s. ((''me'', None), s)), Exists = (\<lambda>p s. ((True, None), s)),
      Create = (\<lambda>p d f a s. ((p, None), s)),
      CreateProtectedEphemeralSequential = (\<lambda>p d a s. ((''/e/x-lock-1'', None), s)),
      ChildrenW = (\<lambda>p s. (([''x-lock-1''], None), s))\<rparr>"

definition demo_elector :: "unit Conn \<Rightarrow> unit Elector" where
  "demo_elector c = \<lparr>acl = WorldACL PermAll, conn = c, ident = ''me'', basePath = ''/e'', closer = (\<lambda>s. (None, s))\<rparr>"

lemma broken_initialize:
  "initialize (demo_elector broken_conn) () =
     (Some (EWrap ''could not check if base path /e exists'' (EZk ErrConnectionClosed)), ())"
  by (simp add: initialize_def demo_elector_def broken_conn_def)

lemma broken_run: "\<exists>m err. reachable (demo_elector broken_conn) m \<and> main m = MSendErr err"
proof -
  let ?e = "demo_elector broken_conn" and ?m = "new_machine ()"
  have r: "reachable ?e ?m" by (rule reach_start)
  have i: "initialize ?e (world ?m) =
      (Some (EWrap ''could not check if base path /e exists'' (EZk ErrConnectionClosed)), ())"
    by (simp add: new_machine_def broken_initialize)
  from reach_step [OF r initialize_err [OF _ i]]
  obtain m1 where m1: "reachable ?e m1" "\<exists>x. worker m1 = KSend x" "watcher m1 = WSelect" "main m1 = MWait"
    by (fastforce simp: new_machine_def)
  then obtain m2 where m2: "reachable ?e m2" "worker m2 = KReturn" "watcher m2 = WSelect" "main m2 = MWait"
    using reach_step [OF m1(1) worker_send] by (fastforce simp: select_send_def)
  then obtain m3 where m3: "reachable ?e m3" "worker m3 = KCancel" "watcher m3 = WSelect" "main m3 = MWait"
    using reach_step [OF m2(1) worker_done] by fastforce
  then obtain m4 where m4: "reachable ?e m4" "worker m4 = KEnd" "shouldQuit m4" "watcher m4 = WSelect" "main m4 = MWait"
    using reach_step [OF m3(1) worker_cancel] by fastforce
  then obtain m5 where m5: "reachable ?e m5" "worker m5 = KEnd" "watcher m5 = WReturn" "main m5 = MWait"
    using reach_step [OF m4(1) watcher_quit] by fastforce
  then obtain m6 where m6: "reachable ?e m6" "worker m6 = KEnd" "watcher m6 = WCancel" "main m6 = MWait"
    using reach_step [OF m5(1) watcher_done] by fastforce
  show ?thesis using reach_step [OF m6(1) main_wait] m6 by fastforce
qed

lemma alone_run:
  "\<exists>m. reachable (demo_elector alone_conn) m \<and> \<not> closing m \<and> \<not> firstLeaderUpdate m \<and> worker m = KSelect \<and> isLeader m"
proof -
  let ?e = "demo_elector alone_conn"
  have "reachable ?e (new_machine ())" by (rule reach_start)
  from reach_step [OF this initialize_ok]
  obtain m1 where m1: "reachable ?e m1" "worker m1 = KCreateLock" "\<not> closing m1" "firstLeaderUpdate m1"
    by (fastforce simp: new_machine_def initialize_def demo_elector_def alone_conn_def)
  then obtain m2 where m2: "reachable ?e m2" "worker m2 = KChildren" "\<not> closing m2" "firstLeaderUpdate m2"
    "lockPath m2 = ''/e/x-lock-1''"
    using reach_step [OF m1(1) lock_ok] by (fastforce simp: demo_elector_def alone_conn_def)
  then obtain m3 where m3: "reachable ?e m3" "worker m3 = KUpdate [''x-lock-1'']" "\<not> closing m3" "firstLeaderUpdate m3"
    "lockPath m3 = ''/e/x-lock-1''"
    using reach_step [OF m2(1) children_ok] by (fastforce simp: demo_elector_def alone_conn_def)
  have "determineLeader ''/e/x-lock-1'' [''x-lock-1''] = (True, ''x-lock-1'', None)" by code_simp
  with m3 obtain m4 where m4: "reachable ?e m4" "worker m4 = KSendEvent \<lparr>Leader = True, Err = None\<rparr>" "\<not> closing m4"
    "\<not> firstLeaderUpdate m4" "isLeader m4"
    using reach_step [OF m3(1) update]
    by (fastforce simp: updateFunc_def updateLeaderData_def getIdentFromNode_def demo_elector_def alone_conn_def)
  show ?thesis using reach_step [OF m4(1) event_received] m4 by fastforce
qed

section \<open>Properties\<close>

text \<open>
  C9: the error event. In every reachable state of an elector, the events received so far are
  leader events, except possibly the last one, which carries a non-nil error; the channel of
  events is closed only after \<open>start\<close> has sent that error, and if \<open>Close\<close> was not called the client
  has received it.
\<close>

theorem error_event_is_last:
  assumes "reachable e m"
  shows "(\<forall>ev \<in> set (butlast (received m)). Err ev = None) \<and>
    (main m = MWait \<longrightarrow> (\<forall>ev \<in> set (received m). Err ev = None)) \<and>
    (events_closed m \<and> \<not> closing m \<longrightarrow> received m \<noteq> [] \<and> Err (last (received m)) \<noteq> None)"
  using reachable_inv(2) [OF assms]
  by (auto simp: event_inv_def split: main_pc.splits dest: in_set_butlastD)

theorem error_event_is_last_witness:
  "\<exists>m err. reachable (demo_elector broken_conn) m \<and> main m = MSendErr err \<and>
     (\<forall>ev \<in> set (butlast (received m)). Err ev = None)"
  using broken_run error_event_is_last by blast

text \<open>
  The error that ends an elector is never nil: when \<open>start\<close> takes the value of \<open>errch\<close> there is one,
  although the worker may return nil and both goroutines send without blocking.
\<close>

theorem final_error_not_nil:
  assumes "reachable e m" "main m = MSendErr err"
  shows "err \<noteq> None"
  using reachable_inv(1) [OF assms(1)] assms(2) by (simp add: err_inv_def)

theorem final_error_not_nil_witness:
  "\<exists>m err. reachable (demo_elector broken_conn) m \<and> main m = MSendErr err \<and> err \<noteq> None"
  using broken_run final_error_not_nil by blast

text \<open>
  C10: leader events alternate. As long as \<open>Close\<close> was not called, the leader flags the client
  receives never repeat, the first update is always sent, and between updates the last flag
  received is the elector's state.
\<close>

theorem leader_events_alternate:
  assumes "reachable e m" "\<not> closing m"
  shows "distinct_adj (leads m) \<and>
    (\<not> firstLeaderUpdate m \<and> worker m = KSelect \<longrightarrow> leads m \<noteq> [] \<and> last (leads m) = isLeader m)"
  using reachable_inv(3) [OF assms(1)] assms(2) by (auto simp: lead_inv_def)

theorem leader_events_alternate_witness:
  "\<exists>m. reachable (demo_elector alone_conn) m \<and> leads m \<noteq> [] \<and> last (leads m)"
  using alone_run leader_events_alternate by metis

text \<open>
  C11: winding down ends. Once a goroutine of an elector has failed, every sequence of its own
  steps (with the client receiving) is finite, with a bound known in advance, and can stop only
  when \<open>start\<close> has returned and the channel of events is closed.
\<close>

theorem failing_elector_ends:
  assumes "reachable e m" "failing m" "(own_step e ^^ n) m m'"
  shows "n \<le> rank m \<and> ((\<nexists>m''. own_step e m' m'') \<longrightarrow> main m' = MEnd \<and> events_closed m')"
proof -
  from winding.steps_bounded [of e m n m'] assms
  have m': "n + rank m' \<le> rank m" "reachable e m'" "failing m'" by auto
  with failing_progress [of m' e] reachable_inv(1,2) [of e m'] show ?thesis
    by (auto simp: event_inv_def)
qed

theorem failing_elector_ends_witness:
  "\<exists>m m'. reachable (demo_elector broken_conn) m \<and> failing m \<and>
     (own_step (demo_elector broken_conn) ^^ 1) m m' \<and> 1 \<le> rank m"
proof -
  obtain m err where m: "reachable (demo_elector broken_conn) m" "main m = MSendErr err" using broken_run by blast
  then have f: "failing m" using reachable_inv(1) by (fastforce simp: err_inv_def failing_def)
  from own_receive [OF error_received [OF m(2)]] obtain m' where s: "(own_step (demo_elector broken_conn) ^^ 1) m m'"
    by auto
  from failing_elector_ends [OF m(1) f s] m(1) f s show ?thesis by blast
qed

end
