(* ===== verification/Mem_Store.thy ===== *)
theory Mem_Store
  imports Go_Strings "HOL-Library.Mapping"
begin

text \<open>
  Package \<open>store\<close> (\<open>store/store.go\<close>): an in-memory key-value store. Every method holds the
  store's mutex from its first to its last statement, so a method is one step on the map of
  objects and any interleaving of goroutines is a sequence of such steps.
\<close>

section \<open>The store and its methods\<close>

record 'v object =
  contents :: 'v

record 'v storeImpl =
  objects :: "(string, 'v object) mapping"

definition New :: "'v storeImpl" where
  "New = \<lparr>objects = Mapping.empty\<rparr>"

definition Delete :: "'v storeImpl \<Rightarrow> string \<Rightarrow> 'v storeImpl" where
  "Delete s key = s\<lparr>objects := Mapping.delete key (objects s)\<rparr>"

definition Get :: "'v storeImpl \<Rightarrow> string \<Rightarrow> 'v option \<times> bool" where
  "Get s key =
     (case Mapping.lookup (objects s) key of
        None \<Rightarrow> (None, False)
      | Some ob \<Rightarrow> (Some (contents ob), True))"

text \<open>
  A \<open>range\<close> over a map visits its keys in an unspecified order: the order is an argument. The
  syntax of regular expressions is that of package \<open>regexp\<close>, whose \<open>MatchString\<close> is an argument
  too: \<open>None\<close> for an expression that does not compile.
\<close>

fun GetByRegex_loop ::
  "(string \<Rightarrow> bool) option \<Rightarrow> (string, 'v object) mapping \<Rightarrow> string list \<Rightarrow> (string, 'v) mapping \<Rightarrow> (string, 'v) mapping \<times> bool" where
  "GetByRegex_loop re obs [] m = (m, False)"
| "GetByRegex_loop re obs (k # ks) m =
     (case re of
        None \<Rightarrow> (m, True)
      | Some matches \<Rightarrow>
          (case Mapping.lookup obs k of
             None \<Rightarrow> GetByRegex_loop re obs ks m
           | Some v \<Rightarrow>
               GetByRegex_loop re obs ks (if matches k then Mapping.update k (contents v) m else m)))"

definition GetByRegex ::
  "(string \<Rightarrow> (string \<Rightarrow> bool) option) \<Rightarrow> string list \<Rightarrow> 'v storeImpl \<Rightarrow> string \<Rightarrow> (string, 'v) mapping \<times> bool" where
  \<comment> \<open>the second result says whether an error is returned\<close>
  "GetByRegex compile order s expr = GetByRegex_loop (compile expr) (objects s) order Mapping.empty"

fun Objects_loop :: "(string, 'v object) mapping \<Rightarrow> string list \<Rightarrow> (string, 'v) mapping \<Rightarrow> (string, 'v) mapping" where
  "Objects_loop obs [] m = m"
| "Objects_loop obs (k # ks) m =
     (case Mapping.lookup obs k of
        None \<Rightarrow> Objects_loop obs ks m
      | Some v \<Rightarrow> Objects_loop obs ks (Mapping.update k (contents v) m))"

definition Objects :: "string list \<Rightarrow> 'v storeImpl \<Rightarrow> (string, 'v) mapping option" where
  \<comment> \<open>\<open>None\<close> is the nil map\<close>
  "Objects order s =
     (let sz = Mapping.size (objects s) in
      if sz = 0 then None else Some (Objects_loop (objects s) order Mapping.empty))"

definition Purge :: "'v storeImpl \<Rightarrow> 'v storeImpl" where
  "Purge s = s\<lparr>objects := Mapping.empty\<rparr>"

definition Set :: "'v storeImpl \<Rightarrow> string \<Rightarrow> 'v \<Rightarrow> 'v storeImpl" where
  "Set s key val = s\<lparr>objects := Mapping.update key \<lparr>contents = val\<rparr> (objects s)\<rparr>"

definition Size :: "'v storeImpl \<Rightarrow> nat" where
  "Size s = Mapping.size (objects s)"

fun Supplant_loop :: "(string, 'v) mapping \<Rightarrow> string list \<Rightarrow> (string, 'v object) mapping \<Rightarrow> (string, 'v object) mapping" where
  "Supplant_loop m [] n = n"
| "Supplant_loop m (k # ks) n =
     (case Mapping.lookup m k of
        None \<Rightarrow> Supplant_loop m ks n
      | Some v \<Rightarrow> Supplant_loop m ks (Mapping.update k \<lparr>contents = v\<rparr> n))"

definition Supplant :: "string list \<Rightarrow> 'v storeImpl \<Rightarrow> (string, 'v) mapping \<Rightarrow> 'v storeImpl" where
  "Supplant order s m = s\<lparr>objects := Supplant_loop m order Mapping.empty\<rparr>"

section \<open>The store as a map\<close>

definition enumerates :: "string list \<Rightarrow> (string, 'a) mapping \<Rightarrow> bool" where
  "enumerates order m \<longleftrightarrow> distinct order \<and> set order = Mapping.keys m"

definition store_map :: "'v storeImpl \<Rightarrow> string \<rightharpoonup> 'v" where
  "store_map s k = map_option contents (Mapping.lookup (objects s) k)"

lemma store_map_dom: "dom (store_map s) = Mapping.keys (objects s)"
  by (auto simp: store_map_def Mapping.keys_dom_lookup dom_def)

lemma enumerates_lookup: "enumerates order m \<Longrightarrow> Mapping.lookup m k \<noteq> None \<longleftrightarrow> k \<in> set order"
  by (auto simp: enumerates_def Mapping.keys_dom_lookup)

lemma lookup_delete_if: "Mapping.lookup (Mapping.delete k m) k' = (if k = k' then None else Mapping.lookup m k')"
  by (cases "k = k'") auto

lemma store_map_simps [simp]:
  "store_map New = Map.empty"
  "store_map (Delete s k) = (store_map s)(k := None)"
  "store_map (Purge s) = Map.empty"
  "store_map (Set s k v) = (store_map s)(k \<mapsto> v)"
  by (auto simp: store_map_def New_def Delete_def Purge_def Set_def fun_eq_iff lookup_update' lookup_delete_if
      lookup_empty)

lemma Supplant_loop_lookup:
  "Mapping.lookup (Supplant_loop m ks n) k =
     (if k \<in> set ks \<and> Mapping.lookup m k \<noteq> None then map_option object.make (Mapping.lookup m k)
      else Mapping.lookup n k)"
  by (induction ks arbitrary: n) (auto simp: lookup_update' object.make_def split: option.splits)

lemma Objects_loop_lookup:
  "Mapping.lookup (Objects_loop obs ks m) k =
     (if k \<in> set ks \<and> Mapping.lookup obs k \<noteq> None then map_option contents (Mapping.lookup obs k)
      else Mapping.lookup m k)"
  by (induction ks arbitrary: m) (auto simp: lookup_update' split: option.splits)

lemma GetByRegex_loop_lookup:
  "snd (GetByRegex_loop (Some p) obs ks m) = False \<and>
   Mapping.lookup (fst (GetByRegex_loop (Some p) obs ks m)) k =
     (if k \<in> set ks \<and> p k \<and> Mapping.lookup obs k \<noteq> None then map_option contents (Mapping.lookup obs k)
      else Mapping.lookup m k)"
  by (induction ks arbitrary: m) (auto simp: lookup_update' split: option.splits)

lemma store_map_Supplant: "enumerates order m \<Longrightarrow> store_map (Supplant order s m) = Mapping.lookup m"
  by (auto simp: store_map_def Supplant_def Supplant_loop_lookup fun_eq_iff object.make_def option.map_comp
      enumerates_lookup [symmetric] lookup_empty split: option.splits)

section \<open>The contract of a shared store\<close>

text \<open>A call that changes the store, and a sequence of such calls in the order they take the mutex.\<close>

datatype 'v call =
    SetC string 'v
  | DeleteC string
  | PurgeC
  | SupplantC "string list" "(string, 'v) mapping"

fun call_map :: "'v call \<Rightarrow> (string \<rightharpoonup> 'v) \<Rightarrow> string \<rightharpoonup> 'v" where
  "call_map (SetC k v) m = m(k \<mapsto> v)"
| "call_map (DeleteC k) m = m(k := None)"
| "call_map PurgeC m = Map.empty"
| "call_map (SupplantC order n) m = Mapping.lookup n"

fun call_ok :: "'v call \<Rightarrow> bool" where
  "call_ok (SupplantC order n) = enumerates order n"
| "call_ok _ = True"

fun do_call :: "'v call \<Rightarrow> 'v storeImpl \<Rightarrow> 'v storeImpl" where
  "do_call (SetC k v) s = Set s k v"
| "do_call (DeleteC k) s = Delete s k"
| "do_call PurgeC s = Purge s"
| "do_call (SupplantC order n) s = Supplant order s n"

locale shared_map =
  fixes new :: 's
    and step :: "'v call \<Rightarrow> 's \<Rightarrow> 's"
    and get :: "'s \<Rightarrow> string \<Rightarrow> 'v option \<times> bool"
    and abs :: "'s \<Rightarrow> string \<rightharpoonup> 'v"
  assumes new_law: "abs new = Map.empty"
    and step_law: "call_ok c \<Longrightarrow> abs (step c s) = call_map c (abs s)"
    and get_law: "get s k = (abs s k, abs s k \<noteq> None)"
begin

lemma abs_run: "list_all call_ok cs \<Longrightarrow> abs (fold step cs s) = fold call_map cs (abs s)"
  by (induction cs arbitrary: s) (auto simp: step_law)

lemma get_run:
  "list_all call_ok cs \<Longrightarrow> get (fold step cs new) k = (fold call_map cs Map.empty k, fold call_map cs Map.empty k \<noteq> None)"
  by (simp add: get_law abs_run new_law)

lemma get_last_set:
  assumes "list_all call_ok cs" "list_all call_ok ds"
    and "\<And>c m. c \<in> set ds \<Longrightarrow> call_map c m k = m k"
  shows "get (fold step (cs @ SetC k v # ds) new) k = (Some v, True)"
proof -
  have "fold call_map ds m k = m k" for m
    using assms(3) by (induction ds arbitrary: m) auto
  with assms(1,2) show ?thesis by (simp add: get_law abs_run step_law)
qed

end

interpretation mem: shared_map New do_call Get store_map
proof
  fix c :: "'v call" and s
  show "call_ok c \<Longrightarrow> store_map (do_call c s) = call_map c (store_map s)"
    by (cases c) (simp_all add: store_map_Supplant)
next
  fix s :: "'v storeImpl" and k
  show "Get s k = (store_map s k, store_map s k \<noteq> None)"
    by (simp add: Get_def store_map_def split: option.splits)
qed simp

section \<open>Properties\<close>

text \<open>
  C12: the store is a map shared by its goroutines. After any sequence of \<open>Set\<close>, \<open>Delete\<close>, \<open>Purge\<close> and
  \<open>Supplant\<close> calls, in the order they hold the mutex, \<open>Get\<close> answers as the map the calls describe,
  and \<open>Size\<close> is the number of its keys. The example in the package's README gives \<open>Size\<close> as 1 after a \<open>Set\<close> of \<open>foo\<close>
  and one of \<open>bar\<close>; the code answers 2.
\<close>

theorem mem_store_is_map:
  fixes cs :: "'v call list"
  assumes "list_all call_ok cs"
  shows "Get (fold do_call cs New) k = (fold call_map cs Map.empty k, fold call_map cs Map.empty k \<noteq> None) \<and>
    Size (fold do_call cs New) = card (dom (fold call_map cs Map.empty))"
proof -
  have "Size s = card (dom (store_map s))" for s :: "'v storeImpl"
    by (simp add: Size_def Mapping.size_def store_map_dom)
  then show ?thesis using mem.get_run [OF assms] mem.abs_run [OF assms, of New] by simp
qed

theorem mem_store_is_map_witness:
  "Get (fold do_call [SetC ''a'' (1 :: int), SetC ''b'' 2, DeleteC ''a''] New) ''b'' = (Some 2, True)"
  using mem_store_is_map [of "[SetC ''a'' (1 :: int), SetC ''b'' 2, DeleteC ''a'']" "''b''"] by simp

text \<open>
  \<open>Objects\<close> returns the nil map for an empty store and otherwise exactly the contents; \<open>GetByRegex\<close>
  with an expression that compiles returns exactly the entries whose key matches, and no error.
\<close>

theorem mem_store_snapshots:
  assumes "enumerates order (objects s)" "compile expr = Some p"
  shows "(case Objects order s of
        None \<Rightarrow> store_map s = Map.empty
      | Some m \<Rightarrow> store_map s \<noteq> Map.empty \<and> Mapping.lookup m = store_map s) \<and>
    snd (GetByRegex compile order s expr) = False \<and>
    Mapping.lookup (fst (GetByRegex compile order s expr)) = (\<lambda>k. if p k then store_map s k else None)"
proof -
  note key = enumerates_lookup [OF assms(1), symmetric]
  have fin: "finite (Mapping.keys (objects s))" using assms(1) by (metis List.finite_set enumerates_def)
  have sz: "Mapping.size (objects s) = 0 \<longleftrightarrow> store_map s = Map.empty"
    using fin by (simp add: Mapping.size_def store_map_dom [symmetric])
  have "Mapping.lookup (Objects_loop (objects s) order Mapping.empty) = store_map s"
    by (auto simp: fun_eq_iff Objects_loop_lookup key store_map_def lookup_empty)
  moreover have "Mapping.lookup (fst (GetByRegex compile order s expr)) = (\<lambda>k. if p k then store_map s k else None)"
    by (auto simp: fun_eq_iff GetByRegex_def assms(2) GetByRegex_loop_lookup key store_map_def lookup_empty)
  moreover have "snd (GetByRegex compile order s expr) = False"
    by (simp add: GetByRegex_def assms(2) GetByRegex_loop_lookup)
  ultimately show ?thesis using sz by (auto simp: Objects_def Let_def)
qed

theorem mem_store_snapshots_witness:
  "Mapping.lookup (fst (GetByRegex (\<lambda>e. Some (\<lambda>k. k = e)) [''a''] (Set New ''a'' (1 :: int)) ''a'')) ''a'' = Some 1"
proof -
  have "enumerates [''a''] (objects (Set New ''a'' (1 :: int)))"
    by (simp add: enumerates_def Set_def New_def)
  from mem_store_snapshots [OF this, of "\<lambda>e. Some (\<lambda>k. k = e)" "''a''"] show ?thesis by simp
qed

text \<open>
  \<open>GetByRegex\<close> reports an expression that does not compile only when the store is not empty: the
  expression is compiled anew for each key.
\<close>

theorem mem_store_bad_regex:
  assumes "enumerates order (objects s)" "compile expr = None"
  shows "snd (GetByRegex compile order s expr) \<longleftrightarrow> store_map s \<noteq> Map.empty"
proof -
  have "order = [] \<longleftrightarrow> store_map s = Map.empty"
    using assms(1) store_map_dom [of s] by (metis dom_eq_empty_conv enumerates_def set_empty)
  then show ?thesis by (cases order) (auto simp: GetByRegex_def assms(2))
qed

theorem mem_store_bad_regex_witness: "\<not> snd (GetByRegex (\<lambda>_. None) [] (New :: int storeImpl) ''('')"
proof -
  have "enumerates [] (objects (New :: int storeImpl))" by (simp add: enumerates_def New_def)
  from mem_store_bad_regex [OF this, of "\<lambda>_. None" "''(''"] show ?thesis by simp
qed

end
