(* ===== verification/Go_Net.thy ===== *)
theory Go_Net
  imports Go_Strings
begin

text \<open>
  What the source uses of Go's package \<open>net\<close>: \<open>IP\<close>, \<open>ParseIP\<close> and \<open>IP.Equal\<close>, as in the standard
  library of Go 1.11 (the version the repository builds with). An address is its list of bytes.
\<close>

type_synonym IP = "nat list"

definition v4InV6Prefix :: IP where
  "v4InV6Prefix = [0, 0, 0, 0, 0, 0, 0, 0, 0, 0, 0xFF, 0xFF]"

definition IPv4 :: "nat list \<Rightarrow> IP" where
  "IPv4 q = v4InV6Prefix @ q"

definition IP_Equal :: "IP \<Rightarrow> IP \<Rightarrow> bool" where
  "IP_Equal ip x =
     (if length ip = length x then ip = x
      else if length ip = 4 \<and> length x = 16 then x = v4InV6Prefix @ ip
      else if length ip = 16 \<and> length x = 4 then ip = v4InV6Prefix @ x
      else False)"

section \<open>Numbers\<close>

fun dtoi_loop :: "string \<Rightarrow> nat \<Rightarrow> nat \<Rightarrow> nat \<times> nat \<times> bool" where
  "dtoi_loop [] n i = (n, i, True)"
| "dtoi_loop (c # cs) n i =
     (if \<not> is_digit c then (n, i, True)
      else let n' = 10 * n + (byte c - 48) in
           if n' \<ge> 0xFFFFFF then (0xFFFFFF, i, False) else dtoi_loop cs n' (i + 1))"

definition dtoi :: "string \<Rightarrow> nat \<times> nat \<times> bool" where
  "dtoi s = (case dtoi_loop s 0 0 of (n, i, ok) \<Rightarrow> if i = 0 then (if ok then 0 else n, 0, False) else (n, i, ok))"

definition hex_digit :: "char \<Rightarrow> nat option" where
  "hex_digit c =
     (if is_digit c then Some (byte c - 48)
      else if 97 \<le> byte c \<and> byte c \<le> 102 then Some (byte c - 97 + 10)
      else if 65 \<le> byte c \<and> byte c \<le> 70 then Some (byte c - 65 + 10)
      else None)"

fun xtoi_loop :: "string \<Rightarrow> nat \<Rightarrow> nat \<Rightarrow> nat \<times> nat \<times> bool" where
  "xtoi_loop [] n i = (n, i, True)"
| "xtoi_loop (c # cs) n i =
     (case hex_digit c of
        None \<Rightarrow> (n, i, True)
      | Some d \<Rightarrow>
          let n' = 16 * n + d in
          if n' \<ge> 0xFFFFFF then (0, i, False) else xtoi_loop cs n' (i + 1))"

definition xtoi :: "string \<Rightarrow> nat \<times> nat \<times> bool" where
  "xtoi s = (case xtoi_loop s 0 0 of (n, i, ok) \<Rightarrow> if i = 0 then (0, 0, False) else (n, i, ok))"

section \<open>Addresses\<close>

text \<open>\<open>v4_loop k p s\<close>: \<open>k\<close> of the four numbers are still to be read, \<open>p\<close> are the ones read.\<close>

fun v4_loop :: "nat \<Rightarrow> nat list \<Rightarrow> string \<Rightarrow> (nat list \<times> string) option" where
  "v4_loop 0 p s = Some (p, s)"
| "v4_loop (Suc k) p s =
     (if s = [] then None
      else if p \<noteq> [] \<and> hd s \<noteq> CHR ''.'' then None
      else let s' = (if p \<noteq> [] then tl s else s) in
           case dtoi s' of (n, c, ok) \<Rightarrow>
             if \<not> ok \<or> n > 0xFF then None else v4_loop k (p @ [n]) (drop c s'))"

definition parseIPv4 :: "string \<Rightarrow> IP option" where
  "parseIPv4 s =
     (case v4_loop 4 [] s of
        None \<Rightarrow> None
      | Some (p, rest) \<Rightarrow> if rest \<noteq> [] then None else Some (IPv4 p))"

text \<open>\<open>v6_loop ip ellipsis s\<close>: \<open>ip\<close> are the bytes read; the result also says what was not read.\<close>

function v6_loop :: "nat list \<Rightarrow> nat option \<Rightarrow> string \<Rightarrow> (nat list \<times> nat option \<times> string) option" where
  "v6_loop ip ellipsis s =
     (if length ip \<ge> 16 then Some (ip, ellipsis, s)
      else case xtoi s of (n, c, ok) \<Rightarrow>
        if \<not> ok \<or> n > 0xFFFF then None
        else if c < length s \<and> s ! c = CHR ''.'' then
          (if ellipsis = None \<and> length ip \<noteq> 12 then None
           else if length ip + 4 > 16 then None
           else case parseIPv4 s of
                  None \<Rightarrow> None
                | Some ip4 \<Rightarrow> Some (ip @ drop 12 ip4, ellipsis, []))
        else
          let ip' = ip @ [n div 256, n mod 256]; s1 = drop c s in
          if s1 = [] then Some (ip', ellipsis, [])
          else if hd s1 \<noteq> CHR '':'' \<or> length s1 = 1 then None
          else let s2 = tl s1 in
            if hd s2 = CHR '':'' then
              (if ellipsis \<noteq> None then None
               else if tl s2 = [] then Some (ip', Some (length ip'), [])
               else v6_loop ip' (Some (length ip')) (tl s2))
            else v6_loop ip' ellipsis s2)"
  by pat_completeness auto
termination
  by (relation "measure (\<lambda>(ip, ellipsis, s). 16 - length ip)") auto

declare v6_loop.simps [simp del]

definition parseIPv6 :: "string \<Rightarrow> IP option" where
  "parseIPv6 s =
     (let leading = prefix ''::'' s;
          s' = (if leading then drop 2 s else s)
      in if leading \<and> s' = [] then Some (replicate 16 0)
         else case v6_loop [] (if leading then Some 0 else None) s' of
                None \<Rightarrow> None
              | Some (ip, ellipsis, rest) \<Rightarrow>
                  if rest \<noteq> [] then None
                  else if length ip < 16 then
                    (case ellipsis of
                       None \<Rightarrow> None
                     | Some e \<Rightarrow> Some (take e ip @ replicate (16 - length ip) 0 @ drop e ip))
                  else if ellipsis \<noteq> None then None
                  else Some ip)"

fun parse_by_separator :: "string \<Rightarrow> string \<Rightarrow> IP option" where
  "parse_by_separator s [] = None"
| "parse_by_separator s (c # cs) =
     (if c = CHR ''.'' then parseIPv4 s
      else if c = CHR '':'' then parseIPv6 s
      else parse_by_separator s cs)"

definition ParseIP :: "string \<Rightarrow> IP option" where
  "ParseIP s = parse_by_separator s s"

section \<open>Dotted decimal\<close>

definition dotted :: "nat list \<Rightarrow> string" where
  "dotted q = Join (map nat_str q) ''.''"

lemma foldl_digits_mono: "n \<le> foldl (\<lambda>a c. 10 * a + (byte c - 48)) (n :: nat) ds"
proof (induction ds arbitrary: n)
  case (Cons c ds)
  have "n \<le> 10 * n + (byte c - 48)" by simp
  also have "\<dots> \<le> foldl (\<lambda>a c. 10 * a + (byte c - 48)) (10 * n + (byte c - 48)) ds" by (rule Cons)
  finally show ?case by simp
qed simp

lemma dtoi_loop_digits:
  assumes "list_all is_digit ds" "rest = [] \<or> \<not> is_digit (hd rest)"
    "foldl (\<lambda>a c. 10 * a + (byte c - 48)) n ds < 0xFFFFFF"
  shows "dtoi_loop (ds @ rest) n i = (foldl (\<lambda>a c. 10 * a + (byte c - 48)) n ds, i + length ds, True)"
  using assms
proof (induction ds arbitrary: n i)
  case Nil
  then show ?case by (cases rest) auto
next
  case (Cons c ds)
  have "10 * n + (byte c - 48) \<le> foldl (\<lambda>a c. 10 * a + (byte c - 48)) (10 * n + (byte c - 48)) ds"
    by (rule foldl_digits_mono)
  with Cons show ?case by (simp add: Let_def)
qed

lemma dtoi_nat_str:
  assumes "n < 256" "rest = [] \<or> \<not> is_digit (hd rest)"
  shows "dtoi (nat_str n @ rest) = (n, length (nat_str n), True)"
proof -
  have v: "foldl (\<lambda>a c. 10 * a + (byte c - 48)) 0 (nat_str n) = n"
    using digits_value_nat_str [of n] by (simp add: digits_value_def)
  from dtoi_loop_digits [OF nat_str_digits assms(2), of 0 n 0] assms(1) v
  show ?thesis by (simp add: dtoi_def)
qed

lemma v4_loop_dotted:
  assumes "length q = k" "list_all (\<lambda>n. n < 256) q"
  shows "v4_loop k p ((if p = [] \<or> q = [] then [] else ''.'') @ dotted q) = Some (p @ q, [])"
  using assms
proof (induction k arbitrary: p q)
  case 0
  then show ?case by (simp add: dotted_def)
next
  case (Suc k)
  then obtain n q' where q: "q = n # q'" by (cases q) auto
  let ?rest = "(if q' = [] then [] else ''.'') @ dotted q'"
  have d: "dotted q = nat_str n @ ?rest"
    by (cases q') (simp_all add: dotted_def q)
  have "?rest = [] \<or> \<not> is_digit (hd ?rest)" by (auto simp: dotted_def is_digit_def byte_def)
  with Suc.prems q have n: "dtoi (nat_str n @ ?rest) = (n, length (nat_str n), True)" "n < 256"
    using dtoi_nat_str by auto
  have "v4_loop k (p @ [n]) ((if p @ [n] = [] \<or> q' = [] then [] else ''.'') @ dotted q') = Some ((p @ [n]) @ q', [])"
    using Suc q by (intro Suc.IH) auto
  then show ?case using n by (auto simp: q [symmetric] d Let_def simp flip: q) (auto simp: q)
qed

lemma parseIPv4_dotted:
  assumes "length q = 4" "list_all (\<lambda>n. n < 256) q"
  shows "parseIPv4 (dotted q) = Some (IPv4 q)"
  using v4_loop_dotted [OF assms, of "[]"] by (simp add: parseIPv4_def)

lemma parse_by_separator_dot:
  "list_all is_digit ds \<Longrightarrow> parse_by_separator s (ds @ CHR ''.'' # rest) = parseIPv4 s"
  by (induction ds) (auto simp: is_digit_def byte_def)

theorem ParseIP_dotted:
  assumes "length q = 4" "list_all (\<lambda>n. n < 256) q"
  shows "ParseIP (dotted q) = Some (IPv4 q)"
proof -
  obtain n q' where q: "q = n # q'" "q' \<noteq> []" using assms(1) by (cases q; cases "tl q") auto
  then have "dotted q = nat_str n @ CHR ''.'' # dotted q'"
    by (cases q') (simp_all add: dotted_def)
  then show ?thesis using parse_by_separator_dot [OF nat_str_digits] parseIPv4_dotted [OF assms]
    by (simp add: ParseIP_def)
qed

lemma dotted_chars: "c \<in> set (dotted q) \<Longrightarrow> is_digit c \<or> c = CHR ''.''"
proof -
  assume "c \<in> set (dotted q)"
  with Join_chars [of "map nat_str q" "''.''"] have "c = CHR ''.'' \<or> (\<exists>n. c \<in> set (nat_str n))"
    by (auto simp: dotted_def)
  with nat_str_digits show ?thesis by (auto simp: list_all_iff)
qed

lemma v4_loop_length: "v4_loop k p s = Some (p', rest) \<Longrightarrow> length p' = length p + k \<and> (list_all (\<lambda>n. n < 256) p \<longrightarrow> list_all (\<lambda>n. n < 256) p')"
  by (induction k p s rule: v4_loop.induct) (auto simp: Let_def split: prod.splits if_splits)

lemma parseIPv4_shape: "parseIPv4 s = Some ip \<Longrightarrow> \<exists>q. ip = IPv4 q \<and> length q = 4 \<and> list_all (\<lambda>n. n < 256) q"
  using v4_loop_length by (fastforce simp: parseIPv4_def split: option.splits prod.splits if_splits)

lemma parse_by_separator_no_colon:
  "CHR '':'' \<notin> set t \<Longrightarrow> parse_by_separator s t = Some ip \<Longrightarrow> parseIPv4 s = Some ip"
  by (induction t) (auto split: if_splits)

lemma ParseIP_no_colon:
  "CHR '':'' \<notin> set s \<Longrightarrow> ParseIP s = Some ip \<Longrightarrow> \<exists>q. ip = IPv4 q \<and> length q = 4 \<and> list_all (\<lambda>n. n < 256) q"
  unfolding ParseIP_def by (rule parseIPv4_shape) (rule parse_by_separator_no_colon)

end
