(* ===== verification/Exec.thy ===== *)
theory Exec
  imports Go_Strings
begin

text \<open>
  Package \<open>exec\<close> (\<open>exec.go\<close>): exit codes, \<open>FullOutput\<close>, and \<open>Run\<close> with its two goroutines, the
  pipe between the command and the reader, and the channels \<open>done\<close> and \<open>Done\<close>. The operating
  system that runs the command is a parameter or an actor of the step relation;
  \<open>runtime.GOOS\<close> is the parameter \<open>goos\<close>.
\<close>

unbundle bit_operations_syntax

section \<open>Exit codes\<close>

text \<open>
  \<open>ExitError\<close> carries what \<open>Sys()\<close> returns: a \<open>syscall.WaitStatus\<close> (of Linux), or something else.
\<close>

datatype exec_error =
    ErrCanceled
  | ErrDeadlineExceeded
  | ExitError "32 word option"
  | ErrCommand string \<comment> \<open>the command was not started, or its output could not be copied\<close>

definition WaitStatus_Exited :: "32 word \<Rightarrow> bool" where
  "WaitStatus_Exited w \<longleftrightarrow> w AND 0x7F = 0"

definition ExitStatus :: "32 word \<Rightarrow> int" where
  "ExitStatus w = (if \<not> WaitStatus_Exited w then -1 else uint (drop_bit 8 w AND 0xFF))"

definition exitCode :: "exec_error option \<Rightarrow> int \<times> exec_error option" where
  "exitCode e =
     (case e of
        None \<Rightarrow> (0, None)
      | Some (ExitError (Some status)) \<Rightarrow>
          if ExitStatus status \<noteq> -1 then (ExitStatus status, None) else (0, e)
      | Some _ \<Rightarrow> (0, e))"

lemma ExitStatus_range: "WaitStatus_Exited w \<Longrightarrow> 0 \<le> ExitStatus w \<and> ExitStatus w \<le> 255"
  by (simp add: ExitStatus_def uint_and AND_upper2)

lemma exitCode_exited:
  assumes "e = Some (ExitError (Some w))"
  shows "exitCode e = (if w AND 0x7F = 0 then (uint (drop_bit 8 w AND 0xFF), None) else (0, e))"
proof (cases "WaitStatus_Exited w")
  case True
  have "ExitStatus w \<noteq> -1" using ExitStatus_range [OF True] by linarith
  with True assms show ?thesis by (simp add: exitCode_def ExitStatus_def WaitStatus_Exited_def)
next
  case False
  with assms show ?thesis by (simp add: exitCode_def ExitStatus_def WaitStatus_Exited_def)
qed

lemma exitCode_other: "(\<And>w. e \<noteq> Some (ExitError (Some w))) \<Longrightarrow> exitCode e = (0, e)"
  by (auto simp: exitCode_def split: option.splits exec_error.splits)

section \<open>Commands\<close>

datatype exec_context = Background | WithCancel | WithTimeout int64

record Cmd =
  Args :: "string list"
  CmdContext :: "exec_context option"

definition commandParts :: "string list \<Rightarrow> (string \<times> string list) option" where
  \<comment> \<open>\<open>None\<close>: the panic \<open>empty command\<close>\<close>
  "commandParts command = (if length command = 0 then None else Some (command ! 0, drop 1 command))"

definition Command :: "string list \<Rightarrow> Cmd option" where
  "Command command =
     (case commandParts command of
        None \<Rightarrow> None
      | Some (nm, arg) \<Rightarrow> Some \<lparr>Args = nm # arg, CmdContext = None\<rparr>)"

definition CommandContext :: "exec_context \<Rightarrow> string list \<Rightarrow> Cmd option" where
  "CommandContext ctx command =
     (case commandParts command of
        None \<Rightarrow> None
      | Some (nm, arg) \<Rightarrow> Some \<lparr>Args = nm # arg, CmdContext = Some ctx\<rparr>)"

text \<open>
  The operating system: what \<open>Start\<close> and \<open>Wait\<close> do with a command, an error of \<open>Start\<close>, or what
  the command wrote to its two outputs with the error of \<open>Wait\<close>.
\<close>

type_synonym 's os = "Cmd \<Rightarrow> 's \<Rightarrow> (exec_error + bytes \<times> bytes \<times> exec_error option) \<times> 's"

definition powershell_args :: "string \<Rightarrow> string list \<Rightarrow> string list" where
  "powershell_args goos args =
     (if goos = ''windows'' \<and> length args = 2 \<and> Contains (args ! 0) ''powershell.exe'' \<and>
         HasSuffix (args ! 1) ''.ps1''
      then [args ! 0, ''-File'', args ! 1] else args)"

definition FullOutput ::
  "string \<Rightarrow> 's os \<Rightarrow> Cmd \<Rightarrow> 's \<Rightarrow> (bytes \<times> bytes \<times> int \<times> exec_error option) \<times> 's" where
  "FullOutput goos os c s =
     (case os (c\<lparr>Args := powershell_args goos (Args c)\<rparr>) s of
        (Inl err, s1) \<Rightarrow> (([], [], 0, Some err), s1)
      | (Inr (outbuf, errbuf, err), s1) \<Rightarrow>
          (case exitCode err of (code, err') \<Rightarrow> ((outbuf, errbuf, code, err'), s1)))"

text \<open>
  What became of a process: \<open>exited e code\<close> when the error of \<open>Wait\<close> says that it ended by itself with that code,
  \<open>not_exited e err\<close> when it is an error of another kind.
\<close>

definition exited :: "exec_error option \<Rightarrow> int \<Rightarrow> bool" where
  "exited e code \<longleftrightarrow>
     e = None \<and> code = 0 \<or>
     (\<exists>w. e = Some (ExitError (Some w)) \<and> w AND 0x7F = 0 \<and> code = uint (drop_bit 8 w AND 0xFF))"

definition not_exited :: "exec_error option \<Rightarrow> exec_error \<Rightarrow> bool" where
  "not_exited e err \<longleftrightarrow> e = Some err \<and> (\<forall>w. err = ExitError (Some w) \<longrightarrow> w AND 0x7F \<noteq> 0)"

lemma exitCode_iff:
  "exitCode e = (c, None) \<longleftrightarrow> exited e c"
  "exitCode e = (c, Some err) \<longleftrightarrow> c = 0 \<and> not_exited e err"
proof -
  have "(exitCode e = (c, None) \<longleftrightarrow> exited e c) \<and> (exitCode e = (c, Some err) \<longleftrightarrow> c = 0 \<and> not_exited e err)"
  proof (cases "\<exists>w. e = Some (ExitError (Some w))")
    case True
    then obtain w where "e = Some (ExitError (Some w))" by blast
    then show ?thesis by (auto simp: exitCode_exited exited_def not_exited_def)
  next
    case False
    then show ?thesis by (auto simp: exitCode_other exited_def not_exited_def)
  qed
  then show "exitCode e = (c, None) \<longleftrightarrow> exited e c" "exitCode e = (c, Some err) \<longleftrightarrow> c = 0 \<and> not_exited e err"
    by simp_all
qed

lemma exited_range: "exited e code \<Longrightarrow> 0 \<le> code \<and> code \<le> 255"
  by (auto simp: exited_def uint_and AND_upper2)

definition SimpleFullOutput ::
  "string \<Rightarrow> 's os \<Rightarrow> int64 \<Rightarrow> string list \<Rightarrow> 's \<Rightarrow> ((bytes \<times> bytes \<times> int \<times> exec_error option) \<times> 's) option" where
  "SimpleFullOutput goos os timeout command s =
     (case CommandContext (WithTimeout timeout) command of
        None \<Rightarrow> None
      | Some c \<Rightarrow> Some (FullOutput goos os c s))"

section \<open>Run\<close>

text \<open>
  The state of a running command. \<open>ctx_err\<close> is \<open>ctx.Err()\<close>, non-nil from the moment \<open>ctx.Done()\<close> is
  closed; \<open>written\<close> is what the command has written to its outputs, \<open>pending\<close> the part of it
  not yet taken from the pipe, \<open>got\<close> what \<open>Read\<close> has returned. \<open>proc\<close> is the process with the result that
  \<open>Wait\<close> has for it (nil for exit code 0, an \<open>ExitError\<close>, or another error), \<open>waiter\<close> and
  \<open>runner\<close> are the two goroutines, \<open>done_ch\<close> and \<open>Done_ch\<close> the buffers (of capacity 1) of the two
  channels, and \<open>Done_got\<close> is what the client has received from \<open>Done\<close>.
\<close>

datatype proc =
    NotStarted
  | Running
  | Exited "exec_error option" \<comment> \<open>the process is gone, its descendants may still hold the output\<close>
  | Ended "exec_error option"

datatype waiter_pc = AwaitSelect | AwaitSend "exec_error option" | AwaitEnd

datatype runner_pc = RunCmd | RunSend "exec_error option" | RunClose | RunEnd

record run =
  run_args :: "string list"
  run_ctx :: exec_context
  ctx_err :: "exec_error option"
  proc :: proc
  written :: bytes
  pending :: bytes
  got :: bytes
  w_closed :: bool
  done_ch :: "exec_error option list"
  Done_ch :: "exec_error option list"
  Done_got :: "exec_error option list"
  waiter :: waiter_pc
  runner :: runner_pc

definition Run :: "string \<Rightarrow> exec_context option \<Rightarrow> string \<Rightarrow> string list \<Rightarrow> run" where
  "Run goos ctx command arg =
     (let ctx' = (case ctx of None \<Rightarrow> Background | Some c \<Rightarrow> c);
          arg' = (if goos = ''windows'' \<and> length arg = 1 \<and> HasSuffix (arg ! 0) ''.ps1'' then ''-File'' # arg else arg)
      in \<lparr>run_args = command # arg', run_ctx = ctx', ctx_err = None, proc = NotStarted, written = [], pending = [],
          got = [], w_closed = False, done_ch = [], Done_ch = [], Done_got = [], waiter = AwaitSelect,
          runner = RunCmd\<rparr>)"

definition Read :: "nat \<Rightarrow> run \<Rightarrow> (bytes \<times> run) option" where
  \<comment> \<open>\<open>pipe.Read\<close> into a buffer of \<open>n\<close> bytes; \<open>None\<close> while it blocks or at the end of the stream\<close>
  "Read n m =
     (if pending m = [] \<or> n = 0 then None
      else Some (take n (pending m), m\<lparr>pending := drop n (pending m), got := got m @ take n (pending m)\<rparr>))"

text \<open>
  Who makes a step: the goroutines, the client of the executor (reading the output, receiving
  from \<open>Done\<close>), or the outside (the context, the process).
\<close>

datatype run_actor = Goroutine | Caller | Outside

inductive run_step :: "run_actor \<Rightarrow> run \<Rightarrow> run \<Rightarrow> bool" where
  ctx_ends: "run_ctx m \<noteq> Background \<Longrightarrow> ctx_err m = None \<Longrightarrow>
    e \<in> {ErrCanceled, ErrDeadlineExceeded} \<Longrightarrow> run_step Outside m (m\<lparr>ctx_err := Some e\<rparr>)"
| start_fails: "runner m = RunCmd \<Longrightarrow> proc m = NotStarted \<Longrightarrow>
    run_step Outside m (m\<lparr>proc := Ended (Some (ErrCommand msg))\<rparr>)"
| start_late: "runner m = RunCmd \<Longrightarrow> proc m = NotStarted \<Longrightarrow> ctx_err m = Some e \<Longrightarrow>
    run_step Outside m (m\<lparr>proc := Ended (Some e)\<rparr>)"
| start_ok: "runner m = RunCmd \<Longrightarrow> proc m = NotStarted \<Longrightarrow> ctx_err m = None \<Longrightarrow>
    run_step Outside m (m\<lparr>proc := Running\<rparr>)"
| proc_write: "proc m = Running \<or> proc m = Exited res \<Longrightarrow>
    run_step Outside m (m\<lparr>written := written m @ bs, pending := pending m @ bs\<rparr>)"
| proc_exits: "proc m = Running \<Longrightarrow> run_step Outside m (m\<lparr>proc := Exited res\<rparr>)"
| output_closes: "proc m = Exited res \<Longrightarrow> run_step Outside m (m\<lparr>proc := Ended res\<rparr>)"
| read: "Read n m = Some (bs, m') \<Longrightarrow> run_step Caller m m'"
| run_returns: "runner m = RunCmd \<Longrightarrow> proc m = Ended res \<Longrightarrow> pending m = [] \<Longrightarrow>
    run_step Goroutine m (m\<lparr>runner := RunSend res\<rparr>)"
| run_sends: "runner m = RunSend res \<Longrightarrow> done_ch m = [] \<Longrightarrow>
    run_step Goroutine m (m\<lparr>done_ch := [res], runner := RunClose\<rparr>)"
| run_closes: "runner m = RunClose \<Longrightarrow> run_step Goroutine m (m\<lparr>w_closed := True, runner := RunEnd\<rparr>)"
| wait_ctx: "waiter m = AwaitSelect \<Longrightarrow> ctx_err m = Some e \<Longrightarrow>
    run_step Goroutine m (m\<lparr>waiter := AwaitSend (Some e)\<rparr>)"
| wait_done: "waiter m = AwaitSelect \<Longrightarrow> done_ch m = res # rest \<Longrightarrow>
    run_step Goroutine m (m\<lparr>done_ch := rest, waiter := AwaitSend res\<rparr>)"
| wait_sends: "waiter m = AwaitSend res \<Longrightarrow> Done_ch m = [] \<Longrightarrow>
    run_step Goroutine m (m\<lparr>Done_ch := [res], waiter := AwaitEnd\<rparr>)"
| receive: "Done_ch m = res # rest \<Longrightarrow> run_step Caller m (m\<lparr>Done_ch := rest, Done_got := Done_got m @ [res]\<rparr>)"

inductive run_reachable :: "string \<Rightarrow> exec_context option \<Rightarrow> string \<Rightarrow> string list \<Rightarrow> run \<Rightarrow> bool" for goos ctx command arg where
  run_init: "run_reachable goos ctx command arg (Run goos ctx command arg)"
| run_next: "run_reachable goos ctx command arg m \<Longrightarrow> run_step a m m' \<Longrightarrow> run_reachable goos ctx command arg m'"

section \<open>Invariant\<close>

definition delivered :: "run \<Rightarrow> exec_error option list" where
  "delivered m = Done_got m @ Done_ch m"

text \<open>
  \<open>cmd_result m v\<close>: the command has ended with \<open>v\<close> and \<open>cmd.Run\<close> has returned it, which it does
  only after all output was read.
\<close>

definition cmd_result :: "run \<Rightarrow> exec_error option \<Rightarrow> bool" where
  "cmd_result m v \<longleftrightarrow> proc m = Ended v \<and> pending m = [] \<and> runner m \<noteq> RunCmd"

definition valid_report :: "run \<Rightarrow> exec_error option \<Rightarrow> bool" where
  "valid_report m v \<longleftrightarrow> (v \<noteq> None \<and> v = ctx_err m) \<or> cmd_result m v"

definition done_holds :: "run \<Rightarrow> bool" where
  "done_holds m \<longleftrightarrow> (\<exists>v. cmd_result m v \<and> (done_ch m = [v] \<or> done_ch m = [] \<and> waiter m \<noteq> AwaitSelect))"

definition run_inv :: "run \<Rightarrow> bool" where
  "run_inv m \<longleftrightarrow>
     written m = got m @ pending m \<and>
     (case runner m of
        RunCmd \<Rightarrow> done_ch m = [] \<and> \<not> w_closed m
      | RunSend v \<Rightarrow> done_ch m = [] \<and> \<not> w_closed m \<and> cmd_result m v
      | RunClose \<Rightarrow> \<not> w_closed m \<and> done_holds m
      | RunEnd \<Rightarrow> w_closed m \<and> done_holds m) \<and>
     (case waiter m of
        AwaitSelect \<Rightarrow> delivered m = []
      | AwaitSend v \<Rightarrow> delivered m = [] \<and> valid_report m v
      | AwaitEnd \<Rightarrow> (\<exists>v. delivered m = [v] \<and> valid_report m v))"

lemma run_inv_init: "run_inv (Run goos ctx command arg)"
  by (simp add: run_inv_def Run_def Let_def delivered_def)


lemma Read_Some:
  "Read n m = Some (bs, m') \<longleftrightarrow>
     pending m \<noteq> [] \<and> n \<noteq> 0 \<and> bs = take n (pending m) \<and>
     m' = m\<lparr>pending := drop n (pending m), got := got m @ take n (pending m)\<rparr>"
  by (auto simp: Read_def)

lemmas run_inv_defs = run_inv_def done_holds_def cmd_result_def valid_report_def delivered_def

lemma run_inv_step: "run_step a m m' \<Longrightarrow> run_inv m \<Longrightarrow> run_inv m'"
  by (induction rule: run_step.induct)
    (auto simp: Read_Some run_inv_defs split: runner_pc.splits waiter_pc.splits)

lemma run_inv_reachable: "run_reachable goos ctx command arg m \<Longrightarrow> run_inv m"
  by (induction rule: run_reachable.induct) (auto intro: run_inv_init run_inv_step)

lemma run_inv_delivered: "run_inv m \<Longrightarrow> delivered m = [] \<or> (\<exists>v. delivered m = [v] \<and> valid_report m v)"
  by (auto simp: run_inv_def split: waiter_pc.splits)

lemma run_inv_ended: "run_inv m \<Longrightarrow> waiter m = AwaitEnd \<Longrightarrow> length (delivered m) = 1"
  by (auto simp: run_inv_def)

lemma run_inv_stream:
  assumes "run_inv m"
  shows "written m = got m @ pending m" "w_closed m \<Longrightarrow> pending m = [] \<and> (\<exists>v. proc m = Ended v)"
  using assms by (auto simp: run_inv_def done_holds_def cmd_result_def split: runner_pc.splits)

section \<open>Progress\<close>

fun waiter_rank :: "waiter_pc \<Rightarrow> nat" where
  "waiter_rank AwaitSelect = 2"
| "waiter_rank (AwaitSend _) = 1"
| "waiter_rank AwaitEnd = 0"

fun runner_rank :: "runner_pc \<Rightarrow> nat" where
  "runner_rank RunCmd = 3"
| "runner_rank (RunSend _) = 2"
| "runner_rank RunClose = 1"
| "runner_rank RunEnd = 0"

definition run_rank :: "run \<Rightarrow> nat" where
  "run_rank m = waiter_rank (waiter m) + runner_rank (runner m)"

text \<open>
  The executor has something to report once the context has ended, or the command has ended
  and its output has been read.
\<close>

definition reportable :: "run \<Rightarrow> bool" where
  "reportable m \<longleftrightarrow> ctx_err m \<noteq> None \<or> (\<exists>v. proc m = Ended v) \<and> pending m = []"

lemma goroutine_decreases: "run_step a m m' \<Longrightarrow> a = Goroutine \<Longrightarrow> run_rank m' < run_rank m"
  by (induction rule: run_step.induct) (auto simp: run_rank_def)

lemma goroutine_reportable: "run_step a m m' \<Longrightarrow> a = Goroutine \<Longrightarrow> reportable m \<Longrightarrow> reportable m'"
  by (induction rule: run_step.induct) (auto simp: reportable_def)

interpretation reporting: ranked "run_step Goroutine" run_rank "\<lambda>m. run_inv m \<and> reportable m"
  by unfold_locales (auto intro: run_inv_step goroutine_reportable goroutine_decreases)

lemma reportable_progress:
  assumes "run_inv m" "reportable m" "waiter m \<noteq> AwaitEnd"
  shows "\<exists>m'. run_step Goroutine m m'"
proof (cases "waiter m")
  case (AwaitSend v)
  with assms(1) have "Done_ch m = []" by (simp add: run_inv_defs)
  with AwaitSend show ?thesis by (blast intro: wait_sends)
next
  case AwaitSelect
  show ?thesis
  proof (cases "ctx_err m")
    case (Some e)
    with AwaitSelect show ?thesis by (blast intro: wait_ctx)
  next
    case None
    with assms(2) obtain v where v: "proc m = Ended v" "pending m = []" by (auto simp: reportable_def)
    show ?thesis
    proof (cases "runner m")
      case RunCmd
      with v show ?thesis by (blast intro: run_returns)
    next
      case (RunSend r)
      with assms(1) have "done_ch m = []" by (simp add: run_inv_defs)
      with RunSend show ?thesis by (blast intro: run_sends)
    next
      case RunClose
      then show ?thesis by (blast intro: run_closes)
    next
      case RunEnd
      with assms(1) AwaitSelect obtain r rest where "done_ch m = r # rest"
        by (cases "done_ch m") (auto simp: run_inv_defs)
      with AwaitSelect show ?thesis by (blast intro: wait_done)
    qed
  qed
qed (use assms in simp)

section \<open>Scheduled runs\<close>

text \<open>
  A run, step by step: a choice names the next step of the goroutines, of the outside or of the reader; a choice
  that is not possible is passed over. Receiving from \<open>Done\<close> is left to the client.
\<close>

datatype choice =
    CtxEnds exec_error
  | StartFails string
  | Starts
  | Writes bytes
  | Exits "exec_error option"
  | OutputCloses
  | Reads nat
  | RunnerSteps
  | WaiterSeesCtx
  | WaiterSeesDone
  | WaiterSends

fun play :: "choice \<Rightarrow> run \<Rightarrow> run" where
  "play (CtxEnds e) m =
     (if run_ctx m \<noteq> Background \<and> ctx_err m = None \<and> e \<in> {ErrCanceled, ErrDeadlineExceeded}
      then m\<lparr>ctx_err := Some e\<rparr> else m)"
| "play (StartFails msg) m =
     (if runner m = RunCmd \<and> proc m = NotStarted then m\<lparr>proc := Ended (Some (ErrCommand msg))\<rparr> else m)"
| "play Starts m =
     (if runner m = RunCmd \<and> proc m = NotStarted
      then case ctx_err m of None \<Rightarrow> m\<lparr>proc := Running\<rparr> | Some e \<Rightarrow> m\<lparr>proc := Ended (Some e)\<rparr>
      else m)"
| "play (Writes bs) m =
     (case proc m of
        NotStarted \<Rightarrow> m
      | Ended _ \<Rightarrow> m
      | _ \<Rightarrow> m\<lparr>written := written m @ bs, pending := pending m @ bs\<rparr>)"
| "play (Exits res) m = (if proc m = Running then m\<lparr>proc := Exited res\<rparr> else m)"
| "play OutputCloses m = (case proc m of Exited res \<Rightarrow> m\<lparr>proc := Ended res\<rparr> | _ \<Rightarrow> m)"
| "play (Reads n) m = (case Read n m of Some (bs, m') \<Rightarrow> m' | None \<Rightarrow> m)"
| "play RunnerSteps m =
     (case runner m of
        RunCmd \<Rightarrow> (case proc m of Ended res \<Rightarrow> if pending m = [] then m\<lparr>runner := RunSend res\<rparr> else m | _ \<Rightarrow> m)
      | RunSend res \<Rightarrow> if done_ch m = [] then m\<lparr>done_ch := [res], runner := RunClose\<rparr> else m
      | RunClose \<Rightarrow> m\<lparr>w_closed := True, runner := RunEnd\<rparr>
      | RunEnd \<Rightarrow> m)"
| "play WaiterSeesCtx m =
     (case ctx_err m of
        Some e \<Rightarrow> if waiter m = AwaitSelect then m\<lparr>waiter := AwaitSend (Some e)\<rparr> else m
      | None \<Rightarrow> m)"
| "play WaiterSeesDone m =
     (case done_ch m of
        res # rest \<Rightarrow> if waiter m = AwaitSelect then m\<lparr>done_ch := rest, waiter := AwaitSend res\<rparr> else m
      | [] \<Rightarrow> m)"
| "play WaiterSends m =
     (case waiter m of
        AwaitSend res \<Rightarrow> if Done_ch m = [] then m\<lparr>Done_ch := [res], waiter := AwaitEnd\<rparr> else m
      | _ \<Rightarrow> m)"

definition plays :: "choice list \<Rightarrow> run \<Rightarrow> run" where
  "plays cs m = fold play cs m"

text \<open>Every choice is a step or none, and every step but the client's receiving is a choice.\<close>

lemma play_step: "play c m = m \<or> (\<exists>a. run_step a m (play c m))"
proof (cases c)
  case Starts
  then show ?thesis by (cases "ctx_err m") (auto intro: start_ok start_late)
next
  case (Writes bs)
  then show ?thesis by (cases "proc m") (auto intro: proc_write)
next
  case RunnerSteps
  then show ?thesis
    by (cases "runner m"; cases "proc m") (auto intro: run_returns run_sends run_closes)
qed (auto intro: run_step.intros split: proc.splits option.splits list.splits waiter_pc.splits)

lemma step_play: "run_step a m m' \<Longrightarrow> (\<exists>c. m' = play c m) \<or> Done_got m' \<noteq> Done_got m"
proof (induction rule: run_step.induct)
  case (ctx_ends m e)
  then show ?case by (intro disjI1 exI [of _ "CtxEnds e"]) auto
next
  case (start_fails m msg)
  then show ?case by (intro disjI1 exI [of _ "StartFails msg"]) auto
next
  case (start_late m e)
  then show ?case by (intro disjI1 exI [of _ Starts]) auto
next
  case (start_ok m)
  then show ?case by (intro disjI1 exI [of _ Starts]) auto
next
  case (proc_write m res bs)
  then show ?case by (intro disjI1 exI [of _ "Writes bs"]) auto
next
  case (proc_exits m res)
  then show ?case by (intro disjI1 exI [of _ "Exits res"]) auto
next
  case (output_closes m res)
  then show ?case by (intro disjI1 exI [of _ OutputCloses]) auto
next
  case (read n m bs m')
  then show ?case by (intro disjI1 exI [of _ "Reads n"]) auto
next
  case (run_returns m res)
  then show ?case by (intro disjI1 exI [of _ RunnerSteps]) auto
next
  case (run_sends m res)
  then show ?case by (intro disjI1 exI [of _ RunnerSteps]) auto
next
  case (run_closes m)
  then show ?case by (intro disjI1 exI [of _ RunnerSteps]) auto
next
  case (wait_ctx m e)
  then show ?case by (intro disjI1 exI [of _ WaiterSeesCtx]) auto
next
  case (wait_done m res rest)
  then show ?case by (intro disjI1 exI [of _ WaiterSeesDone]) auto
next
  case (wait_sends m res)
  then show ?case by (intro disjI1 exI [of _ WaiterSends]) auto
next
  case (receive m res rest)
  then show ?case by simp
qed

lemma plays_reachable: "run_reachable goos ctx command arg m \<Longrightarrow> run_reachable goos ctx command arg (plays cs m)"
proof (induction cs arbitrary: m)
  case (Cons c cs)
  then have "run_reachable goos ctx command arg (play c m)"
    using play_step [of c m] by (auto intro: run_next)
  with Cons.IH show ?case by (simp add: plays_def)
qed (simp add: plays_def)

lemma play_Done_got: "Done_got (play c m) = Done_got m"
  by (cases c) (auto simp: Read_def split: proc.splits option.splits list.splits waiter_pc.splits runner_pc.splits)

lemma plays_Done_got: "Done_got (plays cs m) = Done_got m"
  by (induction cs arbitrary: m) (simp_all add: plays_def play_Done_got)

lemma plays_inv: "run_inv (plays cs (Run goos ctx command arg))"
  using run_inv_reachable [OF plays_reachable [OF run_init]] .

section \<open>Concrete runs\<close>

definition demo_run :: run where
  "demo_run = Run ''linux'' (Some (WithTimeout 10)) ''/bin/bash'' [''detect_ip'']"

text \<open>The command starts, writes, exits with code 0, its output is read, and \<open>cmd.Run\<close> returns.\<close>

lemma demo_finished:
  "\<exists>m. run_reachable ''linux'' (Some (WithTimeout 10)) ''/bin/bash'' [''detect_ip''] m \<and>
     waiter m = AwaitSelect \<and> runner m = RunEnd \<and> done_ch m = [None] \<and> ctx_err m = None \<and>
     proc m = Ended None \<and> got m = ''10.0.0.1'' \<and> Done_ch m = [] \<and> Done_got m = [] \<and>
     run_ctx m = WithTimeout 10 \<and> w_closed m"
proof -
  let ?R = "run_reachable ''linux'' (Some (WithTimeout 10)) ''/bin/bash'' [''detect_ip'']"
  let ?ok = "\<lambda>m. waiter m = AwaitSelect \<and> ctx_err m = None \<and> Done_ch m = [] \<and> Done_got m = [] \<and>
     run_ctx m = WithTimeout 10"
  have "?R demo_run" unfolding demo_run_def by (rule run_init)
  then obtain m0 where m0: "?R m0" "?ok m0" "runner m0 = RunCmd" "proc m0 = NotStarted" "got m0 = []"
    "pending m0 = []" "done_ch m0 = []"
    by (auto simp: demo_run_def Run_def)
  then obtain m1 where m1: "?R m1" "?ok m1" "runner m1 = RunCmd" "proc m1 = Running" "got m1 = []"
    "pending m1 = []" "done_ch m1 = []"
    using run_next [OF m0(1) start_ok] by fastforce
  then obtain m2 where m2: "?R m2" "?ok m2" "runner m2 = RunCmd" "proc m2 = Running" "got m2 = []"
    "pending m2 = ''10.0.0.1''" "done_ch m2 = []"
    using run_next [OF m1(1) proc_write [of m1 _ "''10.0.0.1''"]] by fastforce
  then obtain m2' where m2': "?R m2'" "?ok m2'" "runner m2' = RunCmd" "proc m2' = Exited None" "got m2' = []"
    "pending m2' = ''10.0.0.1''" "done_ch m2' = []"
    using run_next [OF m2(1) proc_exits [of m2 None]] by fastforce
  then obtain m3 where m3: "?R m3" "?ok m3" "runner m3 = RunCmd" "proc m3 = Ended None" "got m3 = []"
    "pending m3 = ''10.0.0.1''" "done_ch m3 = []"
    using run_next [OF m2'(1) output_closes [of m2' None]] by fastforce
  then obtain m4 where m4: "?R m4" "?ok m4" "runner m4 = RunCmd" "proc m4 = Ended None" "got m4 = ''10.0.0.1''"
    "pending m4 = []" "done_ch m4 = []"
    using run_next [OF m3(1) read [of 512]] by (fastforce simp: Read_def)
  then obtain m5 where m5: "?R m5" "?ok m5" "runner m5 = RunSend None" "proc m5 = Ended None" "got m5 = ''10.0.0.1''"
    "pending m5 = []" "done_ch m5 = []"
    using run_next [OF m4(1) run_returns] by fastforce
  then obtain m6 where m6: "?R m6" "?ok m6" "runner m6 = RunClose" "proc m6 = Ended None" "got m6 = ''10.0.0.1''"
    "pending m6 = []" "done_ch m6 = [None]"
    using run_next [OF m5(1) run_sends] by fastforce
  show ?thesis using run_next [OF m6(1) run_closes] m6 by fastforce
qed

section \<open>Properties\<close>

text \<open>
  C13: what an executor reports. In every reachable state at most one value was sent on \<open>Done\<close>; it is
  the error of the context, which has ended, or the result of the command, whose output has then
  been read completely. What \<open>Read\<close> returned is a prefix of what the command wrote, and the end of
  the stream is reached only after all of it.
\<close>

theorem Run_reports:
  assumes "run_reachable goos ctx command arg m"
  shows "length (delivered m) \<le> 1 \<and>
    (\<forall>v \<in> set (delivered m). v \<noteq> None \<and> v = ctx_err m \<or> proc m = Ended v \<and> got m = written m) \<and>
    prefix (got m) (written m) \<and>
    (w_closed m \<longrightarrow> got m = written m \<and> (\<exists>v. proc m = Ended v))"
proof -
  note inv = run_inv_reachable [OF assms]
  show ?thesis using run_inv_delivered [OF inv] run_inv_stream [OF inv]
    by (auto simp: valid_report_def cmd_result_def)
qed

theorem Run_reports_witness:
  "\<exists>m. run_reachable ''linux'' (Some (WithTimeout 10)) ''/bin/bash'' [''detect_ip''] m \<and> w_closed m \<and>
     written m = ''10.0.0.1'' \<and> got m = written m"
  using demo_finished Run_reports by metis

text \<open>
  C14: an executor always reports. Once the context has ended (even while the command runs on and
  nobody reads its output), or the command has ended and its output was read, the goroutines
  need at most \<open>run_rank m\<close> further steps, at most five, and can stop only when a value was sent on
  \<open>Done\<close>.
\<close>

theorem Run_always_reports:
  assumes "run_reachable goos ctx command arg m" "reportable m" "(run_step Goroutine ^^ n) m m'"
  shows "n \<le> run_rank m \<and> run_rank m \<le> 5 \<and> ((\<nexists>m''. run_step Goroutine m' m'') \<longrightarrow> length (delivered m') = 1)"
proof -
  from reporting.steps_bounded [of m n m'] run_inv_reachable [OF assms(1)] assms(2,3)
  have m': "n \<le> run_rank m" "run_inv m'" "reportable m'" by auto
  moreover have "run_rank m \<le> 5"
    by (cases "waiter m"; cases "runner m") (simp_all add: run_rank_def)
  ultimately show ?thesis using reportable_progress [of m'] run_inv_ended by blast
qed

theorem Run_always_reports_witness:
  "\<exists>m m'. run_reachable ''linux'' (Some (WithTimeout 10)) ''/bin/bash'' [''detect_ip''] m \<and> reportable m \<and>
     (run_step Goroutine ^^ 1) m m' \<and> 1 \<le> run_rank m"
proof -
  obtain m where m: "run_reachable ''linux'' (Some (WithTimeout 10)) ''/bin/bash'' [''detect_ip''] m"
    "waiter m = AwaitSelect" "runner m = RunEnd" "done_ch m = [None]" "proc m = Ended None" "w_closed m"
    using demo_finished by blast
  have "reportable m" using m run_inv_stream(2) [OF run_inv_reachable [OF m(1)]] by (simp add: reportable_def)
  moreover obtain m' where "(run_step Goroutine ^^ 1) m m'" using wait_done [OF m(2,4)] by auto
  ultimately show ?thesis using Run_always_reports [OF m(1)] m(1) by blast
qed

text \<open>
  C38: a success may be reported as a timeout. The documentation says that \<open>context deadline exceeded\<close>
  means that the command was killed; but the waiting goroutine may choose the ended context when
  both channels are ready, so there is a run in which the command has exited with code 0, all its
  output was read, and \<open>Done\<close> delivers the error of the context.
\<close>

theorem Run_success_reported_as_timeout:
  "\<exists>m. run_reachable ''linux'' (Some (WithTimeout 10)) ''/bin/bash'' [''detect_ip''] m \<and>
     proc m = Ended None \<and> w_closed m \<and> got m = written m \<and> delivered m = [Some ErrDeadlineExceeded]"
proof -
  let ?R = "run_reachable ''linux'' (Some (WithTimeout 10)) ''/bin/bash'' [''detect_ip'']"
  obtain m where m: "?R m" "waiter m = AwaitSelect" "w_closed m" "proc m = Ended None"
    "Done_ch m = []" "Done_got m = []" "ctx_err m = None" "run_ctx m = WithTimeout 10"
    using demo_finished by blast
  then obtain m1 where m1: "?R m1" "waiter m1 = AwaitSelect" "w_closed m1" "proc m1 = Ended None"
    "Done_ch m1 = []" "Done_got m1 = []" "ctx_err m1 = Some ErrDeadlineExceeded"
    using run_next [OF m(1) ctx_ends [of m ErrDeadlineExceeded]] by fastforce
  then obtain m2 where m2: "?R m2" "waiter m2 = AwaitSend (Some ErrDeadlineExceeded)" "w_closed m2" "proc m2 = Ended None"
    "Done_ch m2 = []" "Done_got m2 = []"
    using run_next [OF m1(1) wait_ctx] by fastforce
  then obtain m3 where m3: "?R m3" "w_closed m3" "proc m3 = Ended None" "delivered m3 = [Some ErrDeadlineExceeded]"
    using run_next [OF m2(1) wait_sends] by (fastforce simp: delivered_def)
  then show ?thesis using run_inv_stream [OF run_inv_reachable [OF m3(1)]] by auto
qed

text \<open>
  C37: what \<open>FullOutput\<close> returns. It returns a nil error exactly when the command was started and ended by itself,
  and then the code is its eight-bit exit status and the outputs are what it wrote. Otherwise the code is 0 and
  the error is the one of \<open>Start\<close>, with empty outputs, or the one of \<open>Wait\<close> (a signal, for example) with what
  was written. The command that is run is the one given, but for a PowerShell script on Windows.
\<close>

theorem FullOutput_exact:
  fixes goos cmd
  defines "started \<equiv> cmd\<lparr>Args := powershell_args goos (Args cmd)\<rparr>"
  shows "(FullOutput goos os cmd s = ((out, er, code, None), s') \<longleftrightarrow>
       (\<exists>e. os started s = (Inr (out, er, e), s') \<and> exited e code)) \<and>
     (FullOutput goos os cmd s = ((out, er, code, Some err), s') \<longleftrightarrow>
       code = 0 \<and>
       (os started s = (Inl err, s') \<and> out = [] \<and> er = [] \<or>
        (\<exists>e. os started s = (Inr (out, er, e), s') \<and> not_exited e err))) \<and>
     (exited e c \<longrightarrow> 0 \<le> c \<and> c \<le> 255)"
proof -
  obtain r s1 where run: "os started s = (r, s1)" by fastforce
  have "(FullOutput goos os cmd s = ((out, er, code, None), s') \<longleftrightarrow>
       (\<exists>e. os started s = (Inr (out, er, e), s') \<and> exited e code)) \<and>
     (FullOutput goos os cmd s = ((out, er, code, Some err), s') \<longleftrightarrow>
       code = 0 \<and>
       (os started s = (Inl err, s') \<and> out = [] \<and> er = [] \<or>
        (\<exists>e. os started s = (Inr (out, er, e), s') \<and> not_exited e err)))"
  proof (cases r)
    case (Inl e)
    with run show ?thesis by (auto simp: FullOutput_def started_def)
  next
    case (Inr x)
    obtain out' er' e where x: "x = (out', er', e)" by (metis prod_cases3)
    have "FullOutput goos os cmd s = ((out', er', fst (exitCode e), snd (exitCode e)), s1)"
      using run Inr x by (simp add: FullOutput_def started_def case_prod_beta)
    then show ?thesis using run Inr x exitCode_iff [of e code]
      by (cases "exitCode e") auto
  qed
  then show ?thesis using exited_range by blast
qed

definition demo_os :: "unit os" where
  "demo_os c s = (Inr (''out'', [], Some (ExitError (Some 0x300))), s)"

theorem FullOutput_exact_witness:
  "FullOutput ''linux'' demo_os \<lparr>Args = [''ls''], CmdContext = None\<rparr> () = ((''out'', [], 3, None), ())"
  using FullOutput_exact [of "''linux''" demo_os "\<lparr>Args = [''ls''], CmdContext = None\<rparr>" "()" "''out''" "[]" 3 "()"]
  by (simp add: demo_os_def exited_def)

end
