(* ===== verification/Nodeutil.thy ===== *)
theory Nodeutil
  imports Go_Net Go_Regexp Exec
begin

text \<open>
  Packages \<open>dcos\<close> (\<open>constants.go\<close>, \<open>dns_records.go\<close>, \<open>ports.go\<close>) and \<open>nodeutil\<close> (\<open>util.go\<close>, \<open>mesos.go\<close>,
  \<open>options.go\<close>, \<open>helper.go\<close>): the address, the role, the Mesos id and the cluster id of a node, with
  their caches, and the canonical id of a task. The file system, the name service and the HTTP
  client are parameters, as is the JSON decoder, which goes by reflection; the script runs in package \<open>exec\<close>.

  A method that releases the lock of the node in between is divided into its sections, so that the calls of several
  goroutines can interleave between them.
\<close>

declare Option.is_none_def [simp]

section \<open>Package dcos\<close>

definition RoleMaster :: string where "RoleMaster = ''master''"

definition RoleAgent :: string where "RoleAgent = ''agent''"

definition RoleAgentPublic :: string where "RoleAgentPublic = ''agent_public''"

definition GetFileDetectIPLocation :: "string \<Rightarrow> string" where
  "GetFileDetectIPLocation os =
     (if os = ''windows'' then ''/opt/mesosphere/bin/detect_ip.ps1'' else ''/opt/mesosphere/bin/detect_ip'')"

definition DNSRecordLeader :: string where "DNSRecordLeader = ''leader.mesos''"

definition PortMesosMaster :: int where "PortMesosMaster = 5050"

section \<open>The Mesos state\<close>

datatype NestedValue = NestedValue (NValue: string) (NParent: "NestedValue option")

record ContainerStatus =
  ContainerID :: NestedValue

record Status =
  Status_container :: ContainerStatus

record Task =
  Task_ID :: string
  Task_Name :: string
  FrameworkID :: string
  ExecutorID :: string
  SlaveID :: string
  Task_State :: string
  Task_Role :: string
  Statuses :: "Status list"

record Framework =
  Framework_ID :: string
  Framework_Name :: string
  PID :: string
  Framework_Role :: string
  Tasks :: "Task list"
  CompletedTasks :: "Task list"

record Slave =
  Slave_ID :: string
  Hostname :: string
  Port :: int
  Pid :: string

record State =
  State_ID :: string
  Slaves :: "Slave list"
  Frameworks :: "Framework list"
  CompletedFrameworks :: "Framework list"

record CanonicalTaskID =
  CID :: string
  CAgentID :: string
  CFrameworkID :: string
  CExecutorID :: string
  CContainerIDs :: "string list"

datatype nu_error =
    ErrNodeInfo string
  | ErrIPNotInState IP State \<comment> \<open>an \<open>ErrNodeInfo\<close> that prints the address and the state\<close>
  | ErrTaskNotFound
  | ErrManyTasks string "string list"
  | ErrContainerIDNotFound
  | ErrEmptyParam
  | ErrExec exec_error
  | ErrOutside string \<comment> \<open>an error of the operating system, the network or a decoder\<close>
  | Panicked string \<comment> \<open>not an error value: the call panics\<close>
  | Blocked \<comment> \<open>not an error value: the call does not return\<close>

section \<open>Contexts and requests\<close>

type_synonym Header = "string \<rightharpoonup> string list"

datatype ctx_key = Key int | ForeignKey string

datatype ctx_value = HeaderValue Header | ForeignValue string

type_synonym Context = "ctx_key \<Rightarrow> ctx_value option"

definition requestHeaderKey :: ctx_key where "requestHeaderKey = Key 1"

record request =
  Method :: string
  URL :: string
  ReqHeader :: Header
  ReqContext :: "Context option"

record response =
  StatusCode :: int
  Body :: bytes

definition HeaderFromContext :: "Context option \<Rightarrow> nu_error + (Header \<times> bool)" where
  "HeaderFromContext ctx =
     (case ctx of
        None \<Rightarrow> Inl (Panicked ''Context cannot be nil'')
      | Some c \<Rightarrow>
          (case c requestHeaderKey of
             None \<Rightarrow> Inr (Map.empty, False)
           | Some (HeaderValue h) \<Rightarrow> Inr (h, True)
           | Some (ForeignValue _) \<Rightarrow> Inr (Map.empty, False)))"

definition NewContextWithHeaders :: "Context option \<Rightarrow> Header \<Rightarrow> Context" where
  "NewContextWithHeaders ctx header =
     (case ctx of None \<Rightarrow> Map.empty | Some c \<Rightarrow> c)(requestHeaderKey \<mapsto> HeaderValue header)"

section \<open>The node\<close>

text \<open>
  \<open>Schedule command args timeout\<close> is how the goroutines of \<open>exec.Run\<close>, the script, its context and the reader take
  turns: the choices of a run of package \<open>exec\<close>.
\<close>

record 's node_env =
  goos :: string
  OS_Stat :: "string \<Rightarrow> 's \<Rightarrow> nu_error option \<times> 's"
  Schedule :: "string \<Rightarrow> string list \<Rightarrow> int64 \<Rightarrow> 's \<Rightarrow> choice list \<times> 's"
  LookupIP :: "string \<Rightarrow> 's \<Rightarrow> (nu_error + IP list) \<times> 's"
  ReadFile :: "string \<Rightarrow> 's \<Rightarrow> (nu_error + bytes) \<times> 's"
  BadURL :: "string \<Rightarrow> nu_error option" \<comment> \<open>the error of \<open>http.NewRequest\<close>\<close>
  Decode :: "bytes \<Rightarrow> State \<times> nu_error option"

record 's dcosInfo =
  cache :: bool
  cachedIP :: "IP option"
  cachedIsLeader :: "bool option"
  cachedMesosID :: string
  cachedClusterID :: string
  client :: "(request \<Rightarrow> 's \<Rightarrow> (nu_error + response) \<times> 's) option"
  detectIPLocation :: string
  detectIPTimeout :: int64
  role :: string
  mesosStateURL :: string
  dnsRecordLeader :: string
  clusterIDLocation :: string

definition getDefaultShellPath :: "string \<Rightarrow> string" where
  "getDefaultShellPath os = (if os = ''windows'' then ''powershell.exe'' else ''/bin/bash'')"

definition defaultStateURL :: string where
  "defaultStateURL = ''http://'' @ DNSRecordLeader @ '':'' @ Itoa PortMesosMaster @ ''/state''"

definition defaultExecTimeout :: int64 where "defaultExecTimeout = 10 * 1000000000"

definition defaultClusterIDLocation :: string where
  "defaultClusterIDLocation = ''/var/lib/dcos/cluster-id''"

section \<open>Options\<close>

type_synonym 's Option = "'s dcosInfo \<Rightarrow> 's \<Rightarrow> nu_error option \<times> 's dcosInfo \<times> 's"

definition OptionDetectIP :: "'s node_env \<Rightarrow> string \<Rightarrow> 's Option" where
  "OptionDetectIP env path d s =
     (case OS_Stat env path s of
        (Some err, s1) \<Rightarrow> (Some err, d, s1)
      | (None, s1) \<Rightarrow> (None, d\<lparr>detectIPLocation := path\<rparr>, s1))"

definition OptionDetectIPTimeout :: "int64 \<Rightarrow> 's Option" where
  "OptionDetectIPTimeout timeout d s =
     (if sint timeout \<le> 0 then (Some ErrEmptyParam, d, s) else (None, d\<lparr>detectIPTimeout := timeout\<rparr>, s))"

definition OptionMesosStateURL :: "string \<Rightarrow> 's Option" where
  "OptionMesosStateURL stateURL d s =
     (if stateURL = [] then (Some ErrEmptyParam, d, s) else (None, d\<lparr>mesosStateURL := stateURL\<rparr>, s))"

definition OptionNoCache :: "'s Option" where
  "OptionNoCache d s = (None, d\<lparr>cache := False\<rparr>, s)"

definition OptionLeaderDNSRecord :: "string \<Rightarrow> 's Option" where
  "OptionLeaderDNSRecord r d s =
     (if r = [] then (Some ErrEmptyParam, d, s) else (None, d\<lparr>dnsRecordLeader := r\<rparr>, s))"

definition OptionClusterIDFile :: "string \<Rightarrow> 's Option" where
  "OptionClusterIDFile f d s =
     (if f = [] then (Some ErrEmptyParam, d, s) else (None, d\<lparr>clusterIDLocation := f\<rparr>, s))"

fun apply_options :: "'s Option option list \<Rightarrow> 's dcosInfo \<Rightarrow> 's \<Rightarrow> (nu_error + 's dcosInfo) \<times> 's" where
  "apply_options [] d s = (Inr d, s)"
| "apply_options (None # opts) d s = apply_options opts d s"
| "apply_options (Some opt # opts) d s =
     (case opt d s of
        (Some err, _, s1) \<Rightarrow> (Inl err, s1)
      | (None, d1, s1) \<Rightarrow> apply_options opts d1 s1)"

definition NewNodeInfo ::
  "'s node_env \<Rightarrow> (request \<Rightarrow> 's \<Rightarrow> (nu_error + response) \<times> 's) option \<Rightarrow> string \<Rightarrow> 's Option option list \<Rightarrow> 's
   \<Rightarrow> (nu_error + 's dcosInfo) \<times> 's" where
  "NewNodeInfo env cl r options s =
     (if Option.is_none cl then (Inl (ErrNodeInfo ''Client paramter cannot be empty''), s)
      else if r \<notin> set [RoleMaster, RoleAgent, RoleAgentPublic]
      then (Inl (ErrNodeInfo (''Role paramter is invalid or empty. Got '' @ r)), s)
      else
        apply_options options
          \<lparr>cache = True, cachedIP = None, cachedIsLeader = None, cachedMesosID = [], cachedClusterID = [],
           client = cl, detectIPLocation = GetFileDetectIPLocation (goos env), detectIPTimeout = defaultExecTimeout,
           role = r, mesosStateURL = defaultStateURL, dnsRecordLeader = DNSRecordLeader,
           clusterIDLocation = defaultClusterIDLocation\<rparr> s)"

section \<open>Operations\<close>

text \<open>
  The run of the script: \<open>exec.Run\<close> with a context that times out, and the choices of the schedule. What the
  caller sees of it is all that \<open>ioutil.ReadAll\<close> reads until the pipe is closed, and then the value received from
  \<open>Done\<close>; \<open>None\<close> when the schedule does not get there. \<open>exec.Run\<close> returns no error, and the pipe ends without one.
\<close>

definition run_script :: "'s node_env \<Rightarrow> 's dcosInfo \<Rightarrow> 's \<Rightarrow> run \<times> 's" where
  "run_script env d s =
     (let shell = getDefaultShellPath (goos env); arg = [detectIPLocation d]; timeout = detectIPTimeout d in
      case Schedule env shell arg timeout s of
        (choices, s1) \<Rightarrow> (plays choices (Run (goos env) (Some (WithTimeout timeout)) shell arg), s1))"

definition ReadAll_Done :: "run \<Rightarrow> (bytes \<times> exec_error option) option" where
  "ReadAll_Done m =
     (if w_closed m \<and> pending m = []
      then case Done_ch m of err # _ \<Rightarrow> Some (got m, err) | [] \<Rightarrow> None
      else None)"

definition DetectIP :: "'s node_env \<Rightarrow> 's dcosInfo \<Rightarrow> 's \<Rightarrow> (nu_error + IP) \<times> 's dcosInfo \<times> 's" where
  "DetectIP env d s =
     (case if cache d then cachedIP d else None of
        Some ip \<Rightarrow> (Inr ip, d, s)
      | None \<Rightarrow>
          (case OS_Stat env (detectIPLocation d) s of
             (Some err, s1) \<Rightarrow> (Inl err, d, s1)
           | (None, s1) \<Rightarrow>
               (case run_script env d s1 of (ce, s2) \<Rightarrow>
                (case ReadAll_Done ce of
                  None \<Rightarrow> (Inl Blocked, d, s2)
                | Some (buf, Some err) \<Rightarrow> (Inl (ErrExec err), d, s2)
                | Some (buf, None) \<Rightarrow>
                    let detectedIP = TrimSpace buf; script = GetFileDetectIPLocation (goos env) in
                    if detectedIP = []
                    then (Inl (ErrNodeInfo (''command '' @ script @ '' return empty output'')), d, s2)
                    else
                      (case ParseIP detectedIP of
                         None \<Rightarrow> (Inl (ErrNodeInfo (''command '' @ script @ '' returned invalid IP address '' @ detectedIP)), d, s2)
                       | Some validIP \<Rightarrow> (Inr validIP, if cache d then d\<lparr>cachedIP := Some validIP\<rparr> else d, s2))))))"

text \<open>\<open>IsLeader\<close> takes the lock a second time after \<open>DetectIP\<close>; this is its second section.\<close>

definition IsLeader_locked ::
  "'s node_env \<Rightarrow> IP \<Rightarrow> 's dcosInfo \<Rightarrow> 's \<Rightarrow> (nu_error + bool) \<times> 's dcosInfo \<times> 's" where
  "IsLeader_locked env localIP d s =
     (case if cache d then cachedIsLeader d else None of
        Some b \<Rightarrow> (Inr b, d, s)
      | None \<Rightarrow>
          if role d \<noteq> RoleMaster then (Inr False, d, s)
          else
            (case LookupIP env (dnsRecordLeader d) s of
               (Inl err, s1) \<Rightarrow> (Inl err, d, s1)
             | (Inr addrs, s1) \<Rightarrow>
                 if list_ex (IP_Equal localIP) addrs
                 then (Inr True, if cache d then d\<lparr>cachedIsLeader := Some True\<rparr> else d, s1)
                 else (Inl (ErrNodeInfo (''Error getting mesos leader. Number of ip addresses '' @ Itoa (int (length addrs)))),
                       d, s1)))"

definition IsLeader :: "'s node_env \<Rightarrow> 's dcosInfo \<Rightarrow> 's \<Rightarrow> (nu_error + bool) \<times> 's dcosInfo \<times> 's" where
  "IsLeader env d s =
     (case DetectIP env d s of
        (Inl err, d1, s1) \<Rightarrow> (Inl err, d1, s1)
      | (Inr localIP, d1, s1) \<Rightarrow> IsLeader_locked env localIP d1 s1)"

definition state_request :: "string \<Rightarrow> Context option \<Rightarrow> nu_error + request" where
  "state_request url ctx =
     (let req = \<lparr>Method = ''GET'', URL = url, ReqHeader = Map.empty, ReqContext = None\<rparr> in
      case ctx of
        None \<Rightarrow> Inr req
      | Some c \<Rightarrow>
          (case HeaderFromContext ctx of
             Inl p \<Rightarrow> Inl p
           | Inr (header, ok) \<Rightarrow> Inr ((if ok then req\<lparr>ReqHeader := header\<rparr> else req)\<lparr>ReqContext := ctx\<rparr>)))"

definition state :: "'s node_env \<Rightarrow> 's dcosInfo \<Rightarrow> Context option \<Rightarrow> 's \<Rightarrow> (nu_error + State) \<times> 's" where
  "state env d ctx s =
     (case BadURL env (mesosStateURL d) of
        Some err \<Rightarrow> (Inl err, s)
      | None \<Rightarrow>
          (case state_request (mesosStateURL d) ctx of
             Inl p \<Rightarrow> (Inl p, s)
           | Inr req \<Rightarrow>
               (case client d of
                  None \<Rightarrow> (Inl (Panicked ''nil pointer dereference''), s)
                | Some Do \<Rightarrow>
                    (case Do req s of
                       (Inl err, s1) \<Rightarrow> (Inl err, s1)
                     | (Inr resp, s1) \<Rightarrow>
                         if StatusCode resp \<noteq> 200
                         then (Inl (ErrNodeInfo (''GET request to '' @ mesosStateURL d @ '' returned response code '' @ Itoa (StatusCode resp))), s1)
                         else (case Decode env (Body resp) of
                                 (st, None) \<Rightarrow> (Inr st, s1)
                               | (st, Some err) \<Rightarrow> (Inl err, s1))))))"

definition getIPFromPIDField :: "string \<Rightarrow> nu_error + IP" where
  "getIPFromPIDField s =
     (let errMsg = ''Expecting pid in the following format `slave(1)@ip-address:port`. Got '' @ s;
          slaveStr = Split s CHR ''@''
      in if length slaveStr \<noteq> 2 then Inl (ErrNodeInfo errMsg)
         else
           let ipPortStr = Split (slaveStr ! 1) CHR '':'' in
           if length ipPortStr \<noteq> 2 then Inl (ErrNodeInfo errMsg)
           else
             (case ParseIP (ipPortStr ! 0) of
                None \<Rightarrow> Inl (ErrNodeInfo (''Incorrect IP in response '' @ ipPortStr ! 0))
              | Some ip \<Rightarrow> Inr ip))"

fun slaves_loop :: "IP \<Rightarrow> Slave list \<Rightarrow> nu_error + string option" where
  "slaves_loop localIP [] = Inr None"
| "slaves_loop localIP (slave # slaves) =
     (case getIPFromPIDField (Pid slave) of
        Inl err \<Rightarrow> Inl err
      | Inr ip \<Rightarrow> if IP_Equal localIP ip then Inr (Some (Slave_ID slave)) else slaves_loop localIP slaves)"

text \<open>
  The sections of \<open>MesosID\<close>: the checks and the look into the cache (with the result, if that is all), the id that
  the state of Mesos gives, and the update of the cache. Between the first and the last the lock is free, but for
  the time of \<open>DetectIP\<close>.
\<close>

definition MesosID_cached :: "'s dcosInfo \<Rightarrow> (nu_error + string) option" where
  "MesosID_cached d =
     (if Option.is_none (client d) then Some (Inl (Panicked ''Unable to get mesos ID. Uninitialized http client''))
      else if mesosStateURL d = [] then Some (Inl (Panicked ''Unable to get mesos ID. Uninitialized url''))
      else if cache d \<and> cachedMesosID d \<noteq> [] then Some (Inr (cachedMesosID d))
      else None)"

definition MesosID_in :: "'s dcosInfo \<Rightarrow> IP \<Rightarrow> State \<Rightarrow> nu_error + string" where
  "MesosID_in d localIP st =
     (if role d = RoleMaster then
        (if State_ID st = []
         then Inl (ErrNodeInfo ''Unable to retrieve mesos id for master node. ID field is empty'')
         else Inr (State_ID st))
      else
        (case slaves_loop localIP (Slaves st) of
           Inl err \<Rightarrow> Inl err
         | Inr None \<Rightarrow> Inl (ErrIPNotInState localIP st)
         | Inr (Some i) \<Rightarrow> Inr i))"

definition MesosID_store :: "string \<Rightarrow> 's dcosInfo \<Rightarrow> 's dcosInfo" where
  "MesosID_store i d = (if cache d then d\<lparr>cachedMesosID := i\<rparr> else d)"

text \<open>A call of \<open>MesosID\<close> that no other call overlaps.\<close>

definition MesosID :: "'s node_env \<Rightarrow> 's dcosInfo \<Rightarrow> Context option \<Rightarrow> 's \<Rightarrow> (nu_error + string) \<times> 's dcosInfo \<times> 's" where
  "MesosID env d ctx s =
     (case MesosID_cached d of
        Some r \<Rightarrow> (r, d, s)
      | None \<Rightarrow>
        (case DetectIP env d s of
           (Inl err, d1, s1) \<Rightarrow> (Inl err, d1, s1)
         | (Inr localIP, d1, s1) \<Rightarrow>
             (case state env d1 ctx s1 of
                (Inl err, s2) \<Rightarrow> (Inl err, d1, s2)
              | (Inr st, s2) \<Rightarrow>
                  (case MesosID_in d1 localIP st of
                     Inl err \<Rightarrow> (Inl err, d1, s2)
                   | Inr i \<Rightarrow> (Inr i, MesosID_store i d1, s2)))))"

definition hex_lower :: "char \<Rightarrow> bool" where
  \<comment> \<open>the class \<open>[a-f0-9]\<close>\<close>
  "hex_lower c \<longleftrightarrow> is_digit c \<or> 97 \<le> byte c \<and> byte c \<le> 102"

definition uuid_rexp :: rexp where
  "uuid_rexp =
     RSeq (RRep 8 (RChar hex_lower)) (RSeq (RLit CHR ''-'')
     (RSeq (RRep 4 (RChar hex_lower)) (RSeq (RLit CHR ''-'') (RSeq (RLit CHR ''4'')
     (RSeq (RRep 3 (RChar hex_lower)) (RSeq (RLit CHR ''-'') (RSeq (RChar (\<lambda>c. c \<in> set ''8|9aAbB''))
     (RSeq (RRep 3 (RChar hex_lower)) (RSeq (RLit CHR ''-'') (RRep 12 (RChar hex_lower)))))))))))"

definition validateUUID :: "string \<Rightarrow> bool" where
  "validateUUID text = MatchString \<lparr>at_begin = False, at_end = False, body = uuid_rexp\<rparr> text"

definition ClusterID :: "'s node_env \<Rightarrow> 's dcosInfo \<Rightarrow> 's \<Rightarrow> (nu_error + string) \<times> 's dcosInfo \<times> 's" where
  "ClusterID env d s =
     (if cache d \<and> cachedClusterID d \<noteq> [] then (Inr (cachedClusterID d), d, s)
      else
        (case ReadFile env (clusterIDLocation d) s of
           (Inl err, s1) \<Rightarrow> (Inl err, d, s1)
         | (Inr bdy, s1) \<Rightarrow>
             let clusterID = TrimSpace bdy in
             if clusterID = [] then (Inl (ErrNodeInfo ''Empty cluster ID''), d, s1)
             else if \<not> validateUUID clusterID
             then (Inl (ErrNodeInfo (''UUID validation failed. ClusterID: '' @ clusterID)), d, s1)
             else (Inr clusterID, if cache d then d\<lparr>cachedClusterID := clusterID\<rparr> else d, s1)))"

section \<open>Tasks\<close>

fun parent_ids :: "NestedValue \<Rightarrow> string list" where
  "parent_ids (NestedValue v None) = []"
| "parent_ids (NestedValue v (Some p)) = NValue p # parent_ids p"

fun statuses_loop :: "Status list \<Rightarrow> string list \<Rightarrow> nu_error + string list" where
  "statuses_loop [] ids = Inr ids"
| "statuses_loop (status # rest) ids =
     (let containerID = ContainerID (Status_container status) in
      if NValue containerID = [] then Inl ErrContainerIDNotFound
      else statuses_loop rest (ids @ [NValue containerID] @ parent_ids containerID))"

definition ContainerIDs :: "Task \<Rightarrow> nu_error + string list" where
  "ContainerIDs t =
     (case statuses_loop (Statuses t) [] of
        Inl err \<Rightarrow> Inl err
      | Inr ids \<Rightarrow> if length ids = 0 then Inl ErrContainerIDNotFound else Inr ids)"

fun tasks_loop :: "string \<Rightarrow> Task list \<Rightarrow> Task list \<Rightarrow> Task list" where
  "tasks_loop nm [] found = found"
| "tasks_loop nm (t # ts) found =
     (if Task_Name t \<noteq> nm \<and> \<not> Contains (Task_ID t) nm then tasks_loop nm ts found
      else tasks_loop nm ts (found @ [t]))"

fun findTask_loop :: "string \<Rightarrow> bool \<Rightarrow> Framework list \<Rightarrow> Task list \<Rightarrow> Task list" where
  "findTask_loop nm completed [] found = found"
| "findTask_loop nm completed (framework # frameworks) found =
     findTask_loop nm completed frameworks
       (tasks_loop nm (if completed then CompletedTasks framework else Tasks framework) found)"

definition findTask :: "string \<Rightarrow> bool \<Rightarrow> Framework list \<Rightarrow> Task list" where
  "findTask nm completed frameworks = findTask_loop nm completed frameworks []"

definition TaskCanonicalID ::
  "'s node_env \<Rightarrow> 's dcosInfo \<Rightarrow> Context option \<Rightarrow> string \<Rightarrow> bool \<Rightarrow> 's \<Rightarrow> (nu_error + CanonicalTaskID) \<times> 's" where
  "TaskCanonicalID env d ctx task completed s =
     (case state env d ctx s of
        (Inl err, s1) \<Rightarrow> (Inl err, s1)
      | (Inr st, s1) \<Rightarrow>
          let frameworksTasks = findTask task completed (Frameworks st);
              completedFrameworksTasks = (if completed then findTask task completed (CompletedFrameworks st) else []);
              foundTasks = frameworksTasks @ completedFrameworksTasks
          in if length foundTasks = 0 then (Inl ErrTaskNotFound, s1)
             else if length foundTasks > 1 then (Inl (ErrManyTasks task (map Task_ID foundTasks)), s1)
             else
               let t = foundTasks ! 0 in
               (case ContainerIDs t of
                  Inl err \<Rightarrow> (Inl err, s1)
                | Inr ids \<Rightarrow>
                    (Inr \<lparr>CID = Task_ID t, CAgentID = SlaveID t, CFrameworkID = FrameworkID t,
                          CExecutorID = ExecutorID t, CContainerIDs = ids\<rparr>, s1)))"

end
