(* ===== verification/Nodeutil_Theorems.thy ===== *)
theory Nodeutil_Theorems
  imports Nodeutil
begin

text \<open>
  Properties of package \<open>nodeutil\<close>: what the caches promise to goroutines whose calls interleave, which panics are
  excluded, which run of the script an address comes from, and what each lookup returns.
\<close>

section \<open>Calls of several goroutines\<close>

text \<open>
  A node used by any number of goroutines. A goroutine is outside the package, or in a call between two of its
  sections: \<open>IsLeader\<close> after \<open>DetectIP\<close>; \<open>MesosID\<close> after its look into the cache, after \<open>DetectIP\<close>, and with the id
  it is about to store. Each step is one section, which holds the lock (or reads only the configuration), in any
  state of the world; a section that does not return is not a step. The answers are those returned so far.
\<close>

datatype call_pc =
    NoCall
  | LeaderIP IP
  | MesosMiss "Context option"
  | MesosIP "Context option" IP
  | MesosFound string

record 's node_sys =
  node :: "'s dcosInfo"
  calls :: "nat \<Rightarrow> call_pc"
  ip_answers :: "(nu_error + IP) list"
  leader_answers :: "(nu_error + bool) list"
  mesos_answers :: "(nu_error + string) list"
  cluster_answers :: "(nu_error + string) list"

definition new_sys :: "'s dcosInfo \<Rightarrow> 's node_sys" where
  "new_sys d = \<lparr>node = d, calls = (\<lambda>_. NoCall), ip_answers = [], leader_answers = [], mesos_answers = [], cluster_answers = []\<rparr>"

inductive node_step :: "'s node_env \<Rightarrow> 's node_sys \<Rightarrow> 's node_sys \<Rightarrow> bool" for env where
  detects: "calls y g = NoCall \<Longrightarrow> DetectIP env (node y) s = (r, d, s') \<Longrightarrow> r \<noteq> Inl Blocked \<Longrightarrow>
    node_step env y (y\<lparr>node := d, ip_answers := ip_answers y @ [r]\<rparr>)"
| clusters: "calls y g = NoCall \<Longrightarrow> ClusterID env (node y) s = (rc, d, s') \<Longrightarrow>
    node_step env y (y\<lparr>node := d, cluster_answers := cluster_answers y @ [rc]\<rparr>)"
| leader_no_ip: "calls y g = NoCall \<Longrightarrow> DetectIP env (node y) s = (Inl err, d, s') \<Longrightarrow> err \<noteq> Blocked \<Longrightarrow>
    node_step env y (y\<lparr>node := d, leader_answers := leader_answers y @ [Inl err]\<rparr>)"
| leader_ip: "calls y g = NoCall \<Longrightarrow> DetectIP env (node y) s = (Inr ip, d, s') \<Longrightarrow>
    node_step env y (y\<lparr>node := d, calls := (calls y)(g := LeaderIP ip)\<rparr>)"
| leader_asks: "calls y g = LeaderIP ip \<Longrightarrow> IsLeader_locked env ip (node y) s = (rl, d, s') \<Longrightarrow>
    node_step env y (y\<lparr>node := d, calls := (calls y)(g := NoCall), leader_answers := leader_answers y @ [rl]\<rparr>)"
| mesos_hit: "calls y g = NoCall \<Longrightarrow> MesosID_cached (node y) = Some rm \<Longrightarrow>
    node_step env y (y\<lparr>mesos_answers := mesos_answers y @ [rm]\<rparr>)"
| mesos_miss: "calls y g = NoCall \<Longrightarrow> MesosID_cached (node y) = None \<Longrightarrow>
    node_step env y (y\<lparr>calls := (calls y)(g := MesosMiss ctx)\<rparr>)"
| mesos_no_ip: "calls y g = MesosMiss ctx \<Longrightarrow> DetectIP env (node y) s = (Inl err, d, s') \<Longrightarrow> err \<noteq> Blocked \<Longrightarrow>
    node_step env y (y\<lparr>node := d, calls := (calls y)(g := NoCall), mesos_answers := mesos_answers y @ [Inl err]\<rparr>)"
| mesos_ip: "calls y g = MesosMiss ctx \<Longrightarrow> DetectIP env (node y) s = (Inr ip, d, s') \<Longrightarrow>
    node_step env y (y\<lparr>node := d, calls := (calls y)(g := MesosIP ctx ip)\<rparr>)"
| mesos_no_state: "calls y g = MesosIP ctx ip \<Longrightarrow> state env (node y) ctx s = (Inl err, s') \<Longrightarrow>
    node_step env y (y\<lparr>calls := (calls y)(g := NoCall), mesos_answers := mesos_answers y @ [Inl err]\<rparr>)"
| mesos_not_in: "calls y g = MesosIP ctx ip \<Longrightarrow> state env (node y) ctx s = (Inr st, s') \<Longrightarrow>
    MesosID_in (node y) ip st = Inl err \<Longrightarrow>
    node_step env y (y\<lparr>calls := (calls y)(g := NoCall), mesos_answers := mesos_answers y @ [Inl err]\<rparr>)"
| mesos_in: "calls y g = MesosIP ctx ip \<Longrightarrow> state env (node y) ctx s = (Inr st, s') \<Longrightarrow>
    MesosID_in (node y) ip st = Inr i \<Longrightarrow>
    node_step env y (y\<lparr>calls := (calls y)(g := MesosFound i)\<rparr>)"
| mesos_stores: "calls y g = MesosFound i \<Longrightarrow>
    node_step env y (y\<lparr>node := MesosID_store i (node y), calls := (calls y)(g := NoCall),
      mesos_answers := mesos_answers y @ [Inr i]\<rparr>)"

text \<open>A call of \<open>MesosID\<close> or \<open>IsLeader\<close> that no other call overlaps is a run of its sections.\<close>

lemma IsLeader_sections:
  assumes "calls y g = NoCall" "IsLeader env (node y) s = (r, d, s')" "r \<noteq> Inl Blocked"
  shows "(node_step env)\<^sup>*\<^sup>* y (y\<lparr>node := d, leader_answers := leader_answers y @ [r]\<rparr>)"
proof -
  obtain r1 d1 s1 where D: "DetectIP env (node y) s = (r1, d1, s1)" by (metis prod_cases3)
  show ?thesis
  proof (cases r1)
    case (Inl err)
    with assms D show ?thesis
      using leader_no_ip [of y g env s err d1 s1] by (auto simp: IsLeader_def)
  next
    case (Inr ip)
    let ?y = "y\<lparr>node := d1, calls := (calls y)(g := LeaderIP ip)\<rparr>"
    have 1: "node_step env y ?y" using leader_ip [of y g env s ip d1 s1] assms(1) D Inr by simp
    have "IsLeader_locked env ip (node ?y) s1 = (r, d, s')" using assms(2) D Inr by (simp add: IsLeader_def)
    from leader_asks [of ?y g ip, OF _ this] have "node_step env ?y (y\<lparr>node := d, leader_answers := leader_answers y @ [r]\<rparr>)"
      using assms(1) by (simp add: fun_upd_idem)
    with 1 show ?thesis by (meson r_into_rtranclp rtranclp.rtrancl_into_rtrancl)
  qed
qed

lemma MesosID_sections:
  assumes "calls y g = NoCall" "MesosID env (node y) ctx s = (r, d, s')" "r \<noteq> Inl Blocked"
  shows "(node_step env)\<^sup>*\<^sup>* y (y\<lparr>node := d, mesos_answers := mesos_answers y @ [r]\<rparr>)"
proof (cases "MesosID_cached (node y)")
  case (Some x)
  then show ?thesis using assms mesos_hit [of y g x env] by (auto simp: MesosID_def)
next
  case None
  let ?y1 = "y\<lparr>calls := (calls y)(g := MesosMiss ctx)\<rparr>"
  have 1: "(node_step env)\<^sup>*\<^sup>* y ?y1" using mesos_miss [OF assms(1) None] by blast
  obtain r1 d1 s1 where D: "DetectIP env (node y) s = (r1, d1, s1)" by (metis prod_cases3)
  show ?thesis
  proof (cases r1)
    case (Inl err)
    then show ?thesis using 1 assms None D mesos_no_ip [of ?y1 g ctx env s err d1 s1]
      by (auto simp: MesosID_def fun_upd_idem intro: rtranclp.rtrancl_into_rtrancl)
  next
    case (Inr ip)
    let ?y2 = "y\<lparr>node := d1, calls := (calls y)(g := MesosIP ctx ip)\<rparr>"
    have 2: "(node_step env)\<^sup>*\<^sup>* y ?y2"
      using 1 D Inr mesos_ip [of ?y1 g ctx env s ip d1 s1] by (auto intro: rtranclp.rtrancl_into_rtrancl)
    obtain rs s2 where S: "state env d1 ctx s1 = (rs, s2)" by fastforce
    show ?thesis
    proof (cases rs)
      case (Inl err)
      then show ?thesis using 2 assms None D \<open>r1 = Inr ip\<close> S mesos_no_state [of ?y2 g ctx ip env s1 err s2]
        by (auto simp: MesosID_def fun_upd_idem intro: rtranclp.rtrancl_into_rtrancl)
    next
      case (Inr st)
      show ?thesis
      proof (cases "MesosID_in d1 ip st")
        case (Inl err)
        then show ?thesis using 2 assms None D \<open>r1 = Inr ip\<close> S Inr mesos_not_in [of ?y2 g ctx ip env s1 st s2 err]
          by (auto simp: MesosID_def fun_upd_idem intro: rtranclp.rtrancl_into_rtrancl)
      next
        case (Inr i)
        let ?y3 = "y\<lparr>node := d1, calls := (calls y)(g := MesosFound i)\<rparr>"
        have 3: "(node_step env)\<^sup>*\<^sup>* y ?y3"
          using 2 S \<open>rs = Inr st\<close> Inr mesos_in [of ?y2 g ctx ip env s1 st s2 i] by (auto intro: rtranclp.rtrancl_into_rtrancl)
        show ?thesis using 3 assms None D \<open>r1 = Inr ip\<close> S \<open>rs = Inr st\<close> Inr mesos_stores [of ?y3 g i env]
          by (auto simp: MesosID_def fun_upd_idem intro: rtranclp.rtrancl_into_rtrancl)
      qed
    qed
  qed
qed
section \<open>Cached answers\<close>


definition configured :: "'s dcosInfo \<Rightarrow> bool" where
  "configured d \<longleftrightarrow> client d \<noteq> None \<and> mesosStateURL d \<noteq> []"

text \<open>\<open>fills d d'\<close>: the configuration is the same, and what \<open>d\<close> had cached (but for the Mesos id), \<open>d'\<close> has cached.\<close>

definition fills :: "'s dcosInfo \<Rightarrow> 's dcosInfo \<Rightarrow> bool" where
  "fills d d' \<longleftrightarrow>
     cache d' = cache d \<and> client d' = client d \<and> mesosStateURL d' = mesosStateURL d \<and> role d' = role d \<and>
     (cache d \<and> cachedIP d \<noteq> None \<longrightarrow> cachedIP d' = cachedIP d) \<and>
     (cache d \<and> cachedIsLeader d \<noteq> None \<longrightarrow> cachedIsLeader d' = cachedIsLeader d) \<and>
     (cachedIsLeader d' = cachedIsLeader d \<or> role d = RoleMaster \<and> cachedIsLeader d' = Some True) \<and>
     (cache d \<and> cachedClusterID d \<noteq> [] \<longrightarrow> cachedClusterID d' = cachedClusterID d)"

lemma fills_refl [simp]: "fills d d"
  by (simp add: fills_def)

lemma DetectIP_uncached:
  assumes "\<not> cache d \<or> cachedIP d = None"
  shows "(\<exists>err s'. DetectIP env d s = (Inl err, d, s')) \<or>
    (\<exists>ip s'. DetectIP env d s = (Inr ip, if cache d then d\<lparr>cachedIP := Some ip\<rparr> else d, s'))"
proof -
  have "(if cache d then cachedIP d else None) = None" using assms by auto
  then show ?thesis by (auto simp: DetectIP_def Let_def split: option.splits prod.splits)
qed

lemma DetectIP_cases:
  assumes "DetectIP env d s = (r, d', s')"
  obtains (hit) ip where "cache d" "cachedIP d = Some ip" "r = Inr ip" "d' = d" "s' = s"
  | (failed) err where "\<not> cache d \<or> cachedIP d = None" "r = Inl err" "d' = d"
  | (found) ip where "\<not> cache d \<or> cachedIP d = None" "r = Inr ip" "d' = (if cache d then d\<lparr>cachedIP := Some ip\<rparr> else d)"
proof (cases "cache d \<and> cachedIP d \<noteq> None")
  case True
  then obtain ip where ip: "cache d" "cachedIP d = Some ip" by blast
  then have "DetectIP env d s = (Inr ip, d, s)" by (simp add: DetectIP_def)
  with assms have "r = Inr ip" "d' = d" "s' = s" by simp_all
  then show thesis by (rule hit [OF ip])
next
  case False
  then have u: "\<not> cache d \<or> cachedIP d = None" by blast
  from DetectIP_uncached [OF u, of env s] show thesis
  proof
    assume "\<exists>err s'. DetectIP env d s = (Inl err, d, s')"
    then obtain err where "r = Inl err" "d' = d" using assms by auto
    then show thesis by (rule failed [OF u])
  next
    assume "\<exists>ip s'. DetectIP env d s = (Inr ip, if cache d then d\<lparr>cachedIP := Some ip\<rparr> else d, s')"
    then obtain ip where "r = Inr ip" "d' = (if cache d then d\<lparr>cachedIP := Some ip\<rparr> else d)" using assms by auto
    then show thesis by (rule found [OF u])
  qed
qed

lemma fills_DetectIP: "DetectIP env d s = (r, d', s') \<Longrightarrow> fills d d' \<and> cachedMesosID d' = cachedMesosID d"
  by (erule DetectIP_cases) (auto simp: fills_def)

lemma DetectIP_frame:
  assumes "DetectIP env d s = (r, d1, s1)"
  shows "d1 = d \<or> (\<exists>ip. cache d \<and> cachedIP d = None \<and> d1 = d\<lparr>cachedIP := Some ip\<rparr>)"
    "r = Inr ip \<Longrightarrow> cache d \<Longrightarrow> cachedIP d1 = Some ip"
    "cache d \<Longrightarrow> cachedIP d = Some ip \<Longrightarrow> r = Inr ip"
  using assms by (auto elim!: DetectIP_cases split: if_splits)



















definition have_IP :: "'s dcosInfo \<Rightarrow> IP option" where
  "have_IP d = (if cache d then cachedIP d else None)"

definition have_mesos :: "'s dcosInfo \<Rightarrow> string option" where
  "have_mesos d = (if cache d \<and> cachedMesosID d \<noteq> [] then Some (cachedMesosID d) else None)"

section \<open>A concrete node\<close>

definition demo_uuid :: string where
  "demo_uuid = ''2a0d9bd1-3f3f-4c5e-9a3b-0123456789ab''"

definition demo_task :: Task where
  "demo_task =
     \<lparr>Task_ID = ''web.1'', Task_Name = ''web'', FrameworkID = ''f'', ExecutorID = ''e'', SlaveID = ''S1'', Task_State = ''R'',
      Task_Role = ''r'',
      Statuses = [\<lparr>Status_container = \<lparr>ContainerID = NestedValue ''c1'' (Some (NestedValue ''p1'' None))\<rparr>\<rparr>]\<rparr>"

definition demo_state :: State where
  "demo_state =
     \<lparr>State_ID = ''M0'',
      Slaves = [\<lparr>Slave_ID = ''S0'', Hostname = ''h0'', Port = 5051, Pid = ''slave(1)@10.0.0.2:5051''\<rparr>,
                \<lparr>Slave_ID = ''S1'', Hostname = ''h1'', Port = 5051, Pid = ''slave(1)@10.0.0.1:5051''\<rparr>],
      Frameworks = [\<lparr>Framework_ID = ''f'', Framework_Name = ''m'', PID = [], Framework_Role = [], Tasks = [demo_task], CompletedTasks = []\<rparr>],
      CompletedFrameworks = []\<rparr>"

text \<open>The script starts, writes its address, exits with code 0, and is read and reported.\<close>

definition demo_choices :: "string \<Rightarrow> choice list" where
  "demo_choices out =
     [Starts, Writes out, Exits None, OutputCloses, Reads 512, RunnerSteps, RunnerSteps, RunnerSteps,
      WaiterSeesDone, WaiterSends]"

definition demo_env :: "unit node_env" where
  "demo_env =
     \<lparr>goos = ''linux'', OS_Stat = (\<lambda>p s. (None, s)), Schedule = (\<lambda>c a t s. (demo_choices ''10.0.0.1'', s)),
      LookupIP = (\<lambda>r s. (Inr [[10, 0, 0, 1]], s)), ReadFile = (\<lambda>f s. (Inr demo_uuid, s)),
      BadURL = (\<lambda>u. None), Decode = (\<lambda>b. (demo_state, None))\<rparr>"

definition demo_client :: "request \<Rightarrow> unit \<Rightarrow> (nu_error + response) \<times> unit" where
  "demo_client req s = (Inr \<lparr>StatusCode = 200, Body = []\<rparr>, s)"

definition demo_info :: "string \<Rightarrow> unit dcosInfo" where
  "demo_info r =
     \<lparr>cache = True, cachedIP = None, cachedIsLeader = None, cachedMesosID = [], cachedClusterID = [],
      client = Some demo_client, detectIPLocation = ''detect_ip'', detectIPTimeout = 10, role = r,
      mesosStateURL = defaultStateURL, dnsRecordLeader = DNSRecordLeader, clusterIDLocation = defaultClusterIDLocation\<rparr>"


lemma demo_configured: "configured (demo_info r)" "cache (demo_info r)"
  by (simp_all add: configured_def demo_info_def defaultStateURL_def)

lemma demo_ip: "ParseIP ''10.0.0.1'' = Some (IPv4 [10, 0, 0, 1])" "TrimSpace ''10.0.0.1'' = ''10.0.0.1''"
  by code_simp+

lemma demo_DetectIP:
  "DetectIP demo_env (demo_info r) s = (Inr (IPv4 [10, 0, 0, 1]), (demo_info r)\<lparr>cachedIP := Some (IPv4 [10, 0, 0, 1])\<rparr>, s)"
proof -
  have run: "ReadAll_Done (fst (run_script demo_env (demo_info r) s)) = Some (''10.0.0.1'', None)"
    by (simp add: ReadAll_Done_def run_script_def demo_env_def demo_info_def demo_choices_def plays_def Run_def Read_def Let_def)
  moreover have "snd (run_script demo_env (demo_info r) s) = s"
    by (simp add: run_script_def demo_env_def Let_def)
  ultimately have "case run_script demo_env (demo_info r) s of (m, s') \<Rightarrow> ReadAll_Done m = Some (''10.0.0.1'', None) \<and> s' = s"
    by (simp add: case_prod_beta)
  then show ?thesis
    by (auto simp: DetectIP_def demo_ip demo_info_def demo_env_def split: prod.splits)
qed

section \<open>Properties\<close>


definition nothing_cached :: "'s dcosInfo \<Rightarrow> bool" where
  "nothing_cached d \<longleftrightarrow>
     configured d \<and> cache d \<and> cachedIP d = None \<and> cachedIsLeader d = None \<and> cachedMesosID d = [] \<and> cachedClusterID d = []"








text \<open>
  Overlapping calls of \<open>MesosID\<close>, which show that the condition on the Mesos id is needed. When two goroutines look into the empty cache before either stores an id, and
  the state of Mesos gives them different ids, each gets its own, and the second replaces the id that was already
  returned.
\<close>

theorem MesosID_overlap:
  fixes d :: "'a dcosInfo"
  assumes "nothing_cached d" "DetectIP env d s = (Inr ip, d1, s')"
    and "state env d1 ctx s1 = (Inr st1, s1')" "MesosID_in d1 ip st1 = Inr i"
    and "state env d1 ctx s2 = (Inr st2, s2')" "MesosID_in d1 ip st2 = Inr j"
  shows "\<exists>z. (node_step env)\<^sup>*\<^sup>* (new_sys d) z \<and> mesos_answers z = [Inr i, Inr j] \<and> cachedMesosID (node z) = j \<and>
    (\<forall>g. calls z g = NoCall)"
proof -
  have d: "configured d" "cache d" "cachedMesosID d = []" using assms(1) by (auto simp: nothing_cached_def)
  have d1: "cache d1" "cachedIP d1 = Some ip" using DetectIP_frame(1,2) [OF assms(2)] d by auto
  have miss: "MesosID_cached d = None" using d by (simp add: MesosID_cached_def configured_def)
  have hit: "DetectIP env d1 s = (Inr ip, d1, s)" using d1 by (simp add: DetectIP_def)
  define y :: "'a dcosInfo \<Rightarrow> call_pc \<Rightarrow> call_pc \<Rightarrow> (nu_error + string) list \<Rightarrow> 'a node_sys"
    where "y = (\<lambda>e p q as. \<lparr>node = e, calls = (\<lambda>g. if g = (0 :: nat) then p else if g = 1 then q else NoCall),
    ip_answers = [], leader_answers = [], mesos_answers = as, cluster_answers = []\<rparr>)"
  have new: "new_sys d = y d NoCall NoCall []" by (auto simp: new_sys_def y_def)
  have upd: "(y e p q as)\<lparr>calls := (calls (y e p q as))(0 := p')\<rparr> = y e p' q as"
    "(y e p q as)\<lparr>calls := (calls (y e p q as))(1 := q')\<rparr> = y e p q' as"
    "(y e p q as)\<lparr>node := e', calls := (calls (y e p q as))(0 := p')\<rparr> = y e' p' q as"
    "(y e p q as)\<lparr>node := e', calls := (calls (y e p q as))(1 := q')\<rparr> = y e' p q' as"
    "(y e p q as)\<lparr>mesos_answers := as'\<rparr> = y e p q as'"
    for e p q as p' q' e' as'
    by (auto simp: y_def)
  have get: "node (y e p q as) = e" "mesos_answers (y e p q as) = as" "calls (y e p q as) 0 = p" "calls (y e p q as) 1 = q" for e p q as
    by (auto simp: y_def)
  have 1: "node_step env (y d NoCall NoCall []) (y d (MesosMiss ctx) NoCall [])"
    using mesos_miss [of "y d NoCall NoCall []" 0 env ctx] miss by (simp only: upd get)
  have 2: "node_step env (y d (MesosMiss ctx) NoCall []) (y d (MesosMiss ctx) (MesosMiss ctx) [])"
    using mesos_miss [of "y d (MesosMiss ctx) NoCall []" 1 env ctx] miss by (simp only: upd get)
  have 3: "node_step env (y d (MesosMiss ctx) (MesosMiss ctx) []) (y d1 (MesosIP ctx ip) (MesosMiss ctx) [])"
    using mesos_ip [of "y d (MesosMiss ctx) (MesosMiss ctx) []" 0 ctx env s ip d1 s'] assms(2)
    by (simp only: upd get)
  have 4: "node_step env (y d1 (MesosIP ctx ip) (MesosMiss ctx) []) (y d1 (MesosIP ctx ip) (MesosIP ctx ip) [])"
    using mesos_ip [of "y d1 (MesosIP ctx ip) (MesosMiss ctx) []" 1 ctx env s ip d1 s] hit
    by (simp only: upd get)
  have 5: "node_step env (y d1 (MesosIP ctx ip) (MesosIP ctx ip) []) (y d1 (MesosFound i) (MesosIP ctx ip) [])"
    using mesos_in [of "y d1 (MesosIP ctx ip) (MesosIP ctx ip) []" 0 ctx ip env s1 st1 s1' i] assms(3,4)
    by (simp only: upd get)
  have 6: "node_step env (y d1 (MesosFound i) (MesosIP ctx ip) []) (y d1 (MesosFound i) (MesosFound j) [])"
    using mesos_in [of "y d1 (MesosFound i) (MesosIP ctx ip) []" 1 ctx ip env s2 st2 s2' j] assms(5,6)
    by (simp only: upd get)
  have 7: "node_step env (y d1 (MesosFound i) (MesosFound j) []) (y (d1\<lparr>cachedMesosID := i\<rparr>) NoCall (MesosFound j) [Inr i])"
    using mesos_stores [of "y d1 (MesosFound i) (MesosFound j) []" 0 i env] d1
    by (simp add: upd get MesosID_store_def del: One_nat_def)
  have 8: "node_step env (y (d1\<lparr>cachedMesosID := i\<rparr>) NoCall (MesosFound j) [Inr i])
      (y (d1\<lparr>cachedMesosID := j\<rparr>) NoCall NoCall [Inr i, Inr j])"
    using mesos_stores [of "y (d1\<lparr>cachedMesosID := i\<rparr>) NoCall (MesosFound j) [Inr i]" 1 j env] d1
    by (simp add: upd get MesosID_store_def del: One_nat_def)
  have "(node_step env)\<^sup>*\<^sup>* (new_sys d) (y (d1\<lparr>cachedMesosID := j\<rparr>) NoCall NoCall [Inr i, Inr j])"
    unfolding new
    by (rule 1 2 3 4 5 6 7 8 rtranclp.rtrancl_refl converse_rtranclp_into_rtranclp)+
  then show ?thesis by (intro exI) (auto simp: y_def)
qed

definition demo_worlds :: "bool node_env" where
  "demo_worlds =
     \<lparr>goos = ''linux'', OS_Stat = (\<lambda>p s. (None, s)), Schedule = (\<lambda>c a t s. (demo_choices ''10.0.0.1'', s)),
      LookupIP = (\<lambda>r s. (Inr [], s)), ReadFile = (\<lambda>f s. (Inr demo_uuid, s)),
      BadURL = (\<lambda>u. None), Decode = (\<lambda>b. (demo_state\<lparr>State_ID := b\<rparr>, None))\<rparr>"

definition demo_master :: "bool dcosInfo" where
  "demo_master =
     \<lparr>cache = True, cachedIP = None, cachedIsLeader = None, cachedMesosID = [], cachedClusterID = [],
      client = Some (\<lambda>req s. (Inr \<lparr>StatusCode = 200, Body = (if s then ''M1'' else ''M2'')\<rparr>, s)),
      detectIPLocation = ''detect_ip'', detectIPTimeout = 10, role = RoleMaster,
      mesosStateURL = defaultStateURL, dnsRecordLeader = DNSRecordLeader, clusterIDLocation = defaultClusterIDLocation\<rparr>"

theorem MesosID_overlap_witness:
  "\<exists>z. (node_step demo_worlds)\<^sup>*\<^sup>* (new_sys demo_master) z \<and> mesos_answers z = [Inr ''M1'', Inr ''M2''] \<and>
     cachedMesosID (node z) = ''M2''"
proof -
  let ?ip = "IPv4 [10, 0, 0, 1]" and ?d1 = "demo_master\<lparr>cachedIP := Some (IPv4 [10, 0, 0, 1])\<rparr>"
  have "nothing_cached demo_master"
    by (simp add: nothing_cached_def configured_def demo_master_def defaultStateURL_def)
  moreover have "DetectIP demo_worlds demo_master True = (Inr ?ip, ?d1, True)"
    by (simp add: DetectIP_def run_script_def ReadAll_Done_def demo_worlds_def demo_master_def demo_choices_def plays_def
        Run_def Read_def Let_def demo_ip)
  moreover have "state demo_worlds ?d1 None s = (Inr (demo_state\<lparr>State_ID := if s then ''M1'' else ''M2''\<rparr>), s)" for s
    by (simp add: state_def state_request_def demo_worlds_def demo_master_def)
  moreover have "MesosID_in ?d1 ?ip (demo_state\<lparr>State_ID := ''M1''\<rparr>) = Inr ''M1''"
    "MesosID_in ?d1 ?ip (demo_state\<lparr>State_ID := ''M2''\<rparr>) = Inr ''M2''"
    by (simp_all add: MesosID_in_def demo_master_def)
  ultimately show ?thesis
    using MesosID_overlap [of demo_master demo_worlds True ?ip ?d1 True None True _ True "''M1''" False _ False "''M2''"]
    by fastforce
qed

text \<open>
  C17: the address comes from the script. An address that was not cached is the parsed, trimmed, complete output of
  the run of the script that the call made, which was started with the configured script and timeout, whose
  command exited with code 0, and whose result was delivered on \<open>Done\<close> as nil; and a run that delivers an error
  makes the call fail with that error and leave the cache alone.
\<close>

theorem DetectIP_from_script:
  assumes "have_IP d = None" "OS_Stat env (detectIPLocation d) s = (None, s1)" "run_script env d s1 = (m, s2)"
  shows "run_reachable (goos env) (Some (WithTimeout (detectIPTimeout d))) (getDefaultShellPath (goos env)) [detectIPLocation d] m \<and>
    (fst (DetectIP env d s) = Inr ip \<longrightarrow>
       proc m = Ended None \<and> got m = written m \<and> delivered m = [None] \<and> ParseIP (TrimSpace (written m)) = Some ip) \<and>
    (fst (DetectIP env d s) = Inl (ErrExec err) \<longleftrightarrow> w_closed m \<and> delivered m = [Some err]) \<and>
    (delivered m \<noteq> [None] \<longrightarrow> fst (snd (DetectIP env d s)) = d)"
proof -
  have none: "(if cache d then cachedIP d else None) = None" using assms(1) by (simp add: have_IP_def)
  obtain cs where m: "m = plays cs (Run (goos env) (Some (WithTimeout (detectIPTimeout d))) (getDefaultShellPath (goos env))
      [detectIPLocation d])"
    using assms(3) by (auto simp: run_script_def Let_def split: prod.splits)
  then have reach: "run_reachable (goos env) (Some (WithTimeout (detectIPTimeout d))) (getDefaultShellPath (goos env)) [detectIPLocation d] m"
    by (simp add: plays_reachable run_init)
  note inv = run_inv_reachable [OF reach]
  have "Done_got m = []" unfolding m by (simp add: plays_Done_got Run_def Let_def)
  then have del: "delivered m = Done_ch m" by (simp add: delivered_def)
  show ?thesis
  proof (cases "ReadAll_Done m")
    case None
    then have "fst (DetectIP env d s) = Inl Blocked" "fst (snd (DetectIP env d s)) = d"
      using none assms(2,3) by (simp_all add: DetectIP_def)
    moreover have "\<not> (w_closed m \<and> delivered m = [Some err])"
      using None del run_inv_stream(2) [OF inv] by (auto simp: ReadAll_Done_def split: if_splits)
    ultimately show ?thesis using reach by simp
  next
    case (Some x)
    then obtain r where x: "x = (got m, r)" "Done_ch m = [r]" "w_closed m"
      using run_inv_delivered [OF inv] del by (auto simp: ReadAll_Done_def split: if_splits list.splits)
    have full: "got m = written m" using run_inv_stream [OF inv] x(3) by simp
    have ended: "r = None \<Longrightarrow> proc m = Ended None"
      using run_inv_delivered [OF inv] x(2) del by (auto simp: valid_report_def cmd_result_def)
    show ?thesis
    proof (cases r)
      case None
      then show ?thesis using Some x full ended reach del none assms(2,3)
        by (auto simp: DetectIP_def Let_def split: option.splits if_splits)
    next
      case (Some e)
      then show ?thesis using \<open>ReadAll_Done m = Some x\<close> x reach del none assms(2,3)
        by (auto simp: DetectIP_def)
    qed
  qed
qed

theorem DetectIP_from_script_witness:
  "let m = fst (run_script demo_env (demo_info RoleAgent) ()) in
     proc m = Ended None \<and> written m = ''10.0.0.1'' \<and> ParseIP (TrimSpace (written m)) = Some (IPv4 [10, 0, 0, 1])"
proof -
  let ?r = "run_script demo_env (demo_info RoleAgent) ()"
  have "have_IP (demo_info RoleAgent) = None" "OS_Stat demo_env (detectIPLocation (demo_info RoleAgent)) () = (None, ())"
    by (simp_all add: have_IP_def demo_info_def demo_env_def)
  from DetectIP_from_script [OF this prod.collapse [symmetric], THEN conjunct2, THEN conjunct1, of "IPv4 [10, 0, 0, 1]"]
    demo_DetectIP [of RoleAgent "()"]
  have "proc (fst ?r) = Ended None" "ParseIP (TrimSpace (written (fst ?r))) = Some (IPv4 [10, 0, 0, 1])" by simp_all
  moreover have "written (fst ?r) = ''10.0.0.1''"
    by (simp add: run_script_def demo_env_def demo_info_def demo_choices_def plays_def Run_def Read_def Let_def)
  ultimately show ?thesis by (simp add: Let_def)
qed

section \<open>Lookups in the state of Mesos\<close>

lemma Split_two:
  "length (Split s c) = 2 \<longleftrightarrow> (\<exists>a b. s = a @ c # b \<and> c \<notin> set a \<and> c \<notin> set b)"
proof
  assume "length (Split s c) = 2"
  then obtain a b where ab: "Split s c = [a, b]" by (auto simp: length_Suc_conv numeral_2_eq_2)
  then have "s = Join [a, b] [c]" using Join_Split [of s c] by simp
  moreover have "c \<notin> set a" "c \<notin> set b" using ab Split_parts [of _ s c] by auto
  ultimately show "\<exists>a b. s = a @ c # b \<and> c \<notin> set a \<and> c \<notin> set b" by auto
next
  assume "\<exists>a b. s = a @ c # b \<and> c \<notin> set a \<and> c \<notin> set b"
  then show "length (Split s c) = 2" by (auto simp: Split_append_sep Split_no_sep)
qed

lemma Split_parts_two: "c \<notin> set a \<Longrightarrow> c \<notin> set b \<Longrightarrow> Split (a @ c # b) c = [a, b]"
  by (simp add: Split_append_sep Split_no_sep)

lemma getIPFromPIDField_parts:
  assumes "CHR ''@'' \<notin> set (nm @ rest)"
  shows "getIPFromPIDField (nm @ CHR ''@'' # rest) = Inr ip \<longleftrightarrow>
    (\<exists>host port. rest = host @ CHR '':'' # port \<and> CHR '':'' \<notin> set (host @ port) \<and> ParseIP host = Some ip)"
proof -
  have "Split (nm @ CHR ''@'' # rest) CHR ''@'' = [nm, rest]" using assms by (simp add: Split_parts_two)
  then have "getIPFromPIDField (nm @ CHR ''@'' # rest) = Inr ip \<longleftrightarrow>
      length (Split rest CHR '':'') = 2 \<and> ParseIP (Split rest CHR '':'' ! 0) = Some ip"
    by (auto simp: getIPFromPIDField_def Let_def split: option.splits)
  also have "\<dots> \<longleftrightarrow> (\<exists>host port. rest = host @ CHR '':'' # port \<and> CHR '':'' \<notin> set (host @ port) \<and> ParseIP host = Some ip)"
    unfolding Split_two by (auto simp: Split_parts_two) blast
  finally show ?thesis .
qed

lemma getIPFromPIDField_Inr:
  "getIPFromPIDField p = Inr i \<longleftrightarrow>
     (\<exists>nm host port. p = nm @ ''@'' @ host @ '':'' @ port \<and> CHR ''@'' \<notin> set (nm @ host @ port) \<and>
        CHR '':'' \<notin> set (host @ port) \<and> ParseIP host = Some i)" (is "?l \<longleftrightarrow> ?r")
proof
  assume l: ?l
  then have "length (Split p CHR ''@'') = 2" by (auto simp: getIPFromPIDField_def Let_def split: if_splits)
  then obtain nm rest where p: "p = nm @ CHR ''@'' # rest" "CHR ''@'' \<notin> set (nm @ rest)" by (auto simp: Split_two)
  with l getIPFromPIDField_parts [OF p(2)] obtain host port where "rest = host @ CHR '':'' # port"
    "CHR '':'' \<notin> set (host @ port)" "ParseIP host = Some i" by auto
  with p show ?r by (intro exI [of _ nm] exI [of _ host] exI [of _ port]) simp
next
  assume ?r
  then obtain nm host port where p: "p = nm @ CHR ''@'' # host @ CHR '':'' # port" "CHR ''@'' \<notin> set (nm @ host @ port)"
    "CHR '':'' \<notin> set (host @ port)" "ParseIP host = Some i" by auto
  have "CHR ''@'' \<notin> set (nm @ host @ CHR '':'' # port)" using p(2) by simp
  from getIPFromPIDField_parts [OF this] p show ?l by auto
qed

lemma slaves_loop_None:
  "slaves_loop localIP ss = Inr None \<longleftrightarrow>
     (\<forall>b \<in> set ss. \<exists>ip'. getIPFromPIDField (Pid b) = Inr ip' \<and> \<not> IP_Equal localIP ip')"
  by (induction ss) (auto split: sum.splits)

lemma slaves_loop_Some:
  "slaves_loop localIP ss = Inr (Some i) \<longleftrightarrow>
     (\<exists>before slave after ip. ss = before @ slave # after \<and> Slave_ID slave = i \<and>
        getIPFromPIDField (Pid slave) = Inr ip \<and> IP_Equal localIP ip \<and>
        (\<forall>b \<in> set before. \<exists>ip'. getIPFromPIDField (Pid b) = Inr ip' \<and> \<not> IP_Equal localIP ip'))"
proof (induction ss)
  case (Cons s ss)
  show ?case
  proof (cases "\<exists>ip'. getIPFromPIDField (Pid s) = Inr ip' \<and> \<not> IP_Equal localIP ip'")
    case True
    then have "slaves_loop localIP (s # ss) = slaves_loop localIP ss" by auto
    moreover have "(\<exists>before slave after ip. s # ss = before @ slave # after \<and> Slave_ID slave = i \<and>
        getIPFromPIDField (Pid slave) = Inr ip \<and> IP_Equal localIP ip \<and>
        (\<forall>b \<in> set before. \<exists>ip'. getIPFromPIDField (Pid b) = Inr ip' \<and> \<not> IP_Equal localIP ip')) \<longleftrightarrow>
      (\<exists>before slave after ip. ss = before @ slave # after \<and> Slave_ID slave = i \<and>
        getIPFromPIDField (Pid slave) = Inr ip \<and> IP_Equal localIP ip \<and>
        (\<forall>b \<in> set before. \<exists>ip'. getIPFromPIDField (Pid b) = Inr ip' \<and> \<not> IP_Equal localIP ip'))" (is "?l \<longleftrightarrow> ?r")
    proof
      assume ?l
      then obtain before slave after ip where b: "s # ss = before @ slave # after" "Slave_ID slave = i"
        "getIPFromPIDField (Pid slave) = Inr ip" "IP_Equal localIP ip"
        "\<forall>b \<in> set before. \<exists>ip'. getIPFromPIDField (Pid b) = Inr ip' \<and> \<not> IP_Equal localIP ip'" by blast
      with True obtain bs where "before = s # bs" by (cases before) auto
      with b show ?r by (intro exI [of _ bs] exI [of _ slave] exI [of _ after] exI [of _ ip]) auto
    next
      assume ?r
      then obtain before slave after ip where b: "ss = before @ slave # after" "Slave_ID slave = i"
        "getIPFromPIDField (Pid slave) = Inr ip" "IP_Equal localIP ip"
        "\<forall>b \<in> set before. \<exists>ip'. getIPFromPIDField (Pid b) = Inr ip' \<and> \<not> IP_Equal localIP ip'" by blast
      with True show ?l by (intro exI [of _ "s # before"] exI [of _ slave] exI [of _ after] exI [of _ ip]) auto
    qed
    ultimately show ?thesis using Cons.IH by simp
  next
    case False
    then have "(\<exists>before slave after ip. s # ss = before @ slave # after \<and> Slave_ID slave = i \<and>
        getIPFromPIDField (Pid slave) = Inr ip \<and> IP_Equal localIP ip \<and>
        (\<forall>b \<in> set before. \<exists>ip'. getIPFromPIDField (Pid b) = Inr ip' \<and> \<not> IP_Equal localIP ip')) \<longleftrightarrow>
      Slave_ID s = i \<and> (\<exists>ip. getIPFromPIDField (Pid s) = Inr ip \<and> IP_Equal localIP ip)"
      by (fastforce simp: Cons_eq_append_conv)
    with False show ?thesis by (auto split: sum.splits)
  qed
qed simp

lemma slaves_loop_error: "slaves_loop localIP ss = Inl err \<Longrightarrow> err \<noteq> ErrIPNotInState ip st"
proof (induction ss)
  case (Cons s ss)
  then show ?case
    by (auto simp: getIPFromPIDField_def Let_def split: sum.splits if_splits option.splits)
qed simp

text \<open>
  C20: the address in a process id. \<open>getIPFromPIDField\<close> accepts exactly the strings with one \<open>@\<close> that is
  followed by an address, one colon and a port without a colon; so the address is always an
  IPv4 address, and a dotted address that is put into a process id is read back.
\<close>

theorem getIPFromPIDField_exact:
  "(getIPFromPIDField pid = Inr ip \<longleftrightarrow>
      (\<exists>nm host port. pid = nm @ ''@'' @ host @ '':'' @ port \<and> CHR ''@'' \<notin> set (nm @ host @ port) \<and>
         CHR '':'' \<notin> set (host @ port) \<and> ParseIP host = Some ip)) \<and>
   (getIPFromPIDField pid = Inr ip \<longrightarrow> (\<exists>q. ip = IPv4 q \<and> length q = 4 \<and> list_all (\<lambda>n. n < 256) q)) \<and>
   (length q4 = 4 \<and> list_all (\<lambda>n. n < 256) q4 \<and> CHR ''@'' \<notin> set (nm' @ port') \<and> CHR '':'' \<notin> set port' \<longrightarrow>
      getIPFromPIDField (nm' @ ''@'' @ dotted q4 @ '':'' @ port') = Inr (IPv4 q4))"
proof -
  have iff: "getIPFromPIDField p = Inr i \<longleftrightarrow>
      (\<exists>nm host port. p = nm @ ''@'' @ host @ '':'' @ port \<and> CHR ''@'' \<notin> set (nm @ host @ port) \<and>
         CHR '':'' \<notin> set (host @ port) \<and> ParseIP host = Some i)" for p i
    by (rule getIPFromPIDField_Inr)
  have shape: "ParseIP host = Some ip \<Longrightarrow> CHR '':'' \<notin> set host \<Longrightarrow>
      \<exists>q. ip = IPv4 q \<and> length q = 4 \<and> list_all (\<lambda>n. n < 256) q" for host
    by (rule ParseIP_no_colon)
  have "CHR ''@'' \<notin> set (dotted q4)" "CHR '':'' \<notin> set (dotted q4)"
    using dotted_chars [of _ q4] by (fastforce simp: is_digit_def byte_def)+
  with iff shape ParseIP_dotted [of q4] show ?thesis by auto
qed

theorem getIPFromPIDField_exact_witness:
  "getIPFromPIDField ''slave(1)@10.0.0.1:5051'' = Inr (IPv4 [10, 0, 0, 1])"
proof -
  have d: "dotted [10, 0, 0, 1] = ''10.0.0.1''" by code_simp
  show ?thesis
    using getIPFromPIDField_exact [of _ _ "[10, 0, 0, 1]" "''slave(1)''" "''5051''", THEN conjunct2, THEN conjunct2] d
    by simp
qed

text \<open>
  C18: the Mesos id of an agent. Without a cached id, with the state retrieved, an agent gets the id
  of the first slave whose process id carries its address, provided that every slave before it
  has a well-formed process id: one malformed entry earlier in the list (an IPv6 address, for
  example) makes the call fail for every agent behind it.
\<close>

theorem MesosID_agent:
  assumes "configured d" "have_mesos d = None" "role d \<noteq> RoleMaster"
    "DetectIP env d s = (Inr localIP, d1, s1)" "state env d1 ctx s1 = (Inr st, s2)"
  shows "(fst (MesosID env d ctx s) = Inr i \<longleftrightarrow>
      (\<exists>before slave after ip. Slaves st = before @ slave # after \<and> Slave_ID slave = i \<and>
         getIPFromPIDField (Pid slave) = Inr ip \<and> IP_Equal localIP ip \<and>
         (\<forall>b \<in> set before. \<exists>ip'. getIPFromPIDField (Pid b) = Inr ip' \<and> \<not> IP_Equal localIP ip'))) \<and>
    (fst (MesosID env d ctx s) = Inl (ErrIPNotInState localIP st) \<longleftrightarrow>
      (\<forall>b \<in> set (Slaves st). \<exists>ip'. getIPFromPIDField (Pid b) = Inr ip' \<and> \<not> IP_Equal localIP ip'))"
proof -
  have r: "role d1 \<noteq> RoleMaster" using fills_DetectIP [OF assms(4)] assms(3) by (simp add: fills_def)
  have "fst (MesosID env d ctx s) =
      (case slaves_loop localIP (Slaves st) of
         Inl err \<Rightarrow> Inl err | Inr None \<Rightarrow> Inl (ErrIPNotInState localIP st) | Inr (Some i) \<Rightarrow> Inr i)"
  proof -
    have "MesosID_cached d = None"
      using assms(1,2) by (auto simp: MesosID_cached_def configured_def have_mesos_def split: if_splits)
    then show ?thesis using assms(4,5) r
      by (simp add: MesosID_def MesosID_in_def split: sum.splits option.splits)
  qed
  then show ?thesis
    using slaves_loop_Some [of localIP "Slaves st" i] slaves_loop_None [of localIP "Slaves st"]
      slaves_loop_error [of localIP "Slaves st"]
    by (auto split: sum.splits option.splits)
qed

lemma demo_state_ok: "state demo_env ((demo_info r)\<lparr>cachedIP := c\<rparr>) None s = (Inr demo_state, s)"
  by (simp add: state_def state_request_def demo_env_def demo_info_def demo_client_def)

theorem MesosID_agent_witness:
  "fst (MesosID demo_env (demo_info RoleAgent) None ()) = Inr ''S1''"
proof -
  have m: "have_mesos (demo_info RoleAgent) = None" "role (demo_info RoleAgent) \<noteq> RoleMaster"
    by (simp_all add: have_mesos_def demo_info_def RoleAgent_def RoleMaster_def)
  have "slaves_loop (IPv4 [10, 0, 0, 1]) (Slaves demo_state) = Inr (Some ''S1'')" by code_simp
  then show ?thesis
    unfolding slaves_loop_Some
    by (rule MesosID_agent [OF demo_configured(1) m demo_DetectIP demo_state_ok, THEN conjunct1, THEN iffD2])
qed

section \<open>Tasks\<close>

definition matching_tasks :: "string \<Rightarrow> bool \<Rightarrow> Framework list \<Rightarrow> Task list" where
  "matching_tasks nm completed fs =
     [t \<leftarrow> concat (map (if completed then CompletedTasks else Tasks) fs). Task_Name t = nm \<or> sublist nm (Task_ID t)]"

lemma tasks_loop_filter: "tasks_loop nm ts found = found @ [t \<leftarrow> ts. Task_Name t = nm \<or> sublist nm (Task_ID t)]"
  by (induction nm ts found rule: tasks_loop.induct) (auto simp: Contains_sublist)

lemma findTask_loop_matching: "findTask_loop nm completed fs found = found @ matching_tasks nm completed fs"
  by (induction nm completed fs found rule: findTask_loop.induct) (auto simp: tasks_loop_filter matching_tasks_def)

lemma findTask_matching: "findTask nm completed fs = matching_tasks nm completed fs"
  by (simp add: findTask_def findTask_loop_matching)

abbreviation status_chain :: "Status \<Rightarrow> string list" where
  "status_chain st \<equiv> NValue (ContainerID (Status_container st)) # parent_ids (ContainerID (Status_container st))"

abbreviation names_container :: "Status \<Rightarrow> bool" where
  "names_container st \<equiv> NValue (ContainerID (Status_container st)) \<noteq> []"

lemma statuses_loop_all:
  "statuses_loop sts ids =
     (if \<forall>st \<in> set sts. names_container st then Inr (ids @ concat (map status_chain sts))
      else Inl ErrContainerIDNotFound)"
  by (induction sts ids rule: statuses_loop.induct) (auto simp: Let_def)

lemma ContainerIDs_eq:
  "ContainerIDs t =
     (if Statuses t \<noteq> [] \<and> (\<forall>st \<in> set (Statuses t). names_container st)
      then Inr (concat (map status_chain (Statuses t))) else Inl ErrContainerIDNotFound)"
  by (cases "Statuses t") (auto simp: ContainerIDs_def statuses_loop_all)

lemma ContainerIDs_error: "ContainerIDs t \<noteq> Inl ErrTaskNotFound"
  by (simp add: ContainerIDs_eq)

text \<open>
  C19: the canonical id of a task. With the state retrieved, \<open>TaskCanonicalID\<close> succeeds exactly when one
  task of the running (or, for completed tasks, of the running and the completed) frameworks has
  the name, or an id that contains it, and that task has container ids; the id returned is that
  of this task. No match and several matches are the two other errors.
\<close>

theorem TaskCanonicalID_unique:
  assumes "state env d ctx s = (Inr st, s1)"
    and "found = matching_tasks nm completed (Frameworks st @ (if completed then CompletedFrameworks st else []))"
  shows "(fst (TaskCanonicalID env d ctx nm completed s) = Inr cid \<longleftrightarrow>
      (\<exists>t. found = [t] \<and> CID cid = Task_ID t \<and> CAgentID cid = SlaveID t \<and> CFrameworkID cid = FrameworkID t \<and>
         CExecutorID cid = ExecutorID t \<and> ContainerIDs t = Inr (CContainerIDs cid))) \<and>
    (fst (TaskCanonicalID env d ctx nm completed s) = Inl ErrTaskNotFound \<longleftrightarrow> found = []) \<and>
    (1 < length found \<longrightarrow> fst (TaskCanonicalID env d ctx nm completed s) = Inl (ErrManyTasks nm (map Task_ID found))) \<and>
    snd (TaskCanonicalID env d ctx nm completed s) = s1"
proof -
  have f: "found = findTask nm completed (Frameworks st) @ (if completed then findTask nm completed (CompletedFrameworks st) else [])"
    by (simp add: assms(2) findTask_matching matching_tasks_def)
  have eq: "TaskCanonicalID env d ctx nm completed s =
      (if length found = 0 then (Inl ErrTaskNotFound, s1)
       else if length found > 1 then (Inl (ErrManyTasks nm (map Task_ID found)), s1)
       else (case ContainerIDs (found ! 0) of
               Inl err \<Rightarrow> (Inl err, s1)
             | Inr ids \<Rightarrow>
                 (Inr \<lparr>CID = Task_ID (found ! 0), CAgentID = SlaveID (found ! 0), CFrameworkID = FrameworkID (found ! 0),
                       CExecutorID = ExecutorID (found ! 0), CContainerIDs = ids\<rparr>, s1)))"
    unfolding TaskCanonicalID_def Let_def f assms(1) by simp
  consider "found = []" | t where "found = [t]" | t u ts where "found = t # u # ts"
    by (metis remdups_adj.cases)
  then show ?thesis
  proof cases
    case 1
    with eq show ?thesis by simp
  next
    case (2 t)
    with eq ContainerIDs_error [of t] show ?thesis by (cases "ContainerIDs t"; cases cid) auto
  next
    case 3
    with eq show ?thesis by simp
  qed
qed

theorem TaskCanonicalID_unique_witness:
  "fst (TaskCanonicalID demo_env (demo_info RoleMaster) None ''web'' False ()) =
     Inr \<lparr>CID = ''web.1'', CAgentID = ''S1'', CFrameworkID = ''f'', CExecutorID = ''e'', CContainerIDs = [''c1'', ''p1'']\<rparr>"
proof -
  have st: "state demo_env (demo_info RoleMaster) None () = (Inr demo_state, ())"
    by (simp add: state_def state_request_def demo_env_def demo_info_def demo_client_def)
  have "matching_tasks ''web'' False (Frameworks demo_state @ (if False then CompletedFrameworks demo_state else [])) = [demo_task]"
    by (simp add: matching_tasks_def demo_state_def demo_task_def)
  moreover have "ContainerIDs demo_task = Inr [''c1'', ''p1'']" by code_simp
  ultimately show ?thesis
    using TaskCanonicalID_unique [OF st refl, of "''web''" False, THEN conjunct1] by (simp add: demo_task_def)
qed

text \<open>The container \<open>k\<close> levels above a container.\<close>

fun ancestor :: "nat \<Rightarrow> NestedValue \<Rightarrow> NestedValue option" where
  "ancestor 0 c = Some c"
| "ancestor (Suc k) c = (case NParent c of None \<Rightarrow> None | Some p \<Rightarrow> ancestor k p)"

text \<open>\<open>lists_chain c ids\<close>: \<open>ids\<close> holds the ids of the container and of all its ancestors, from the inside out.\<close>

definition lists_chain :: "NestedValue \<Rightarrow> string list \<Rightarrow> bool" where
  "lists_chain c ids \<longleftrightarrow>
     (\<forall>k. (if k < length ids then Some (ids ! k) else None) = map_option NValue (ancestor k c))"

lemma lists_chain_unique: "lists_chain c ids \<Longrightarrow> lists_chain c ids' \<Longrightarrow> ids = ids'"
proof -
  assume "lists_chain c ids" "lists_chain c ids'"
  then have eq: "(if k < length ids then Some (ids ! k) else None) = (if k < length ids' then Some (ids' ! k) else None)" for k
    unfolding lists_chain_def by metis
  have "length ids = length ids'"
    using eq [of "length ids"] eq [of "length ids'"] by (auto split: if_splits)
  moreover have "ids ! k = ids' ! k" if "k < length ids" for k
    using eq [of k] that \<open>length ids = length ids'\<close> by simp
  ultimately show ?thesis by (rule nth_equalityI)
qed

lemma parent_chain: "lists_chain c (NValue c # parent_ids c)"
proof (induction c rule: parent_ids.induct)
  case (1 v)
  have "(if k < length [v] then Some ([v] ! k) else None) = map_option NValue (ancestor k (NestedValue v None))" for k
    by (cases k) auto
  then show ?case by (simp add: lists_chain_def)
next
  case (2 v p)
  have "(if k < length (v # NValue p # parent_ids p) then Some ((v # NValue p # parent_ids p) ! k) else None) =
      map_option NValue (ancestor k (NestedValue v (Some p)))" for k
    using 2 [unfolded lists_chain_def, rule_format, of "k - 1"] by (cases k) auto
  then show ?case by (simp add: lists_chain_def)
qed

text \<open>
  C40: the container ids of a task. They exist exactly when the task has a status and every status names a
  container; they are then, for each status in order, the id of its container followed by the ids of all its
  ancestors, from the inside out. The comment of the method promises one such chain, the current container's; a
  task with two statuses of one container lists the chain twice.
\<close>

theorem ContainerIDs_exact:
  "(ContainerIDs t = Inr ids \<longleftrightarrow>
      Statuses t \<noteq> [] \<and> (\<forall>st \<in> set (Statuses t). NValue (ContainerID (Status_container st)) \<noteq> []) \<and>
      (\<exists>chains. ids = concat chains \<and>
         list_all2 (\<lambda>st chain. lists_chain (ContainerID (Status_container st)) chain) (Statuses t) chains)) \<and>
   (ContainerIDs t = Inl err \<longrightarrow> err = ErrContainerIDNotFound) \<and>
   (Statuses t = [st0, st0] \<and> ContainerIDs t = Inr ids \<longrightarrow>
      (\<exists>chain. lists_chain (ContainerID (Status_container st0)) chain \<and> ids = chain @ chain))"
proof -
  have chains: "list_all2 (\<lambda>st chain. lists_chain (ContainerID (Status_container st)) chain) sts chs \<longleftrightarrow>
      chs = map status_chain sts" for sts chs
  proof
    assume l: "list_all2 (\<lambda>st chain. lists_chain (ContainerID (Status_container st)) chain) sts chs"
    then show "chs = map status_chain sts"
      by (induction rule: list_all2_induct) (auto intro: lists_chain_unique parent_chain)
  qed (simp add: list_all2_map2 list.rel_refl parent_chain)
  have twice: "\<exists>chain. lists_chain (ContainerID (Status_container st0)) chain \<and> ids = chain @ chain"
    if "Statuses t = [st0, st0]" "ContainerIDs t = Inr ids"
    using that by (intro exI [of _ "status_chain st0"]) (auto simp: ContainerIDs_eq parent_chain split: if_splits)
  show ?thesis unfolding chains using twice by (auto simp: ContainerIDs_eq split: if_splits)
qed

theorem ContainerIDs_exact_witness:
  "\<exists>chain. lists_chain (NestedValue ''c1'' (Some (NestedValue ''p1'' None))) chain \<and>
     ContainerIDs (demo_task\<lparr>Statuses := Statuses demo_task @ Statuses demo_task\<rparr>) = Inr (chain @ chain)"
proof -
  let ?t = "demo_task\<lparr>Statuses := Statuses demo_task @ Statuses demo_task\<rparr>"
  have run: "ContainerIDs ?t = Inr [''c1'', ''p1'', ''c1'', ''p1'']" by code_simp
  have "\<exists>chain. lists_chain (ContainerID (Status_container (hd (Statuses demo_task)))) chain \<and>
      [''c1'', ''p1'', ''c1'', ''p1''] = chain @ chain"
    using ContainerIDs_exact [of ?t "[''c1'', ''p1'', ''c1'', ''p1'']" undefined "hd (Statuses demo_task)"] run
    by (simp add: demo_task_def)
  with run show ?thesis by (auto simp: demo_task_def)
qed

text \<open>
  The check of the cluster id is not anchored and its variant digit may be a bar: a text around a UUID is accepted too.
\<close>

theorem validateUUID_unanchored:
  "validateUUID ''<01234567-89ab-4cde-|012-0123456789ab>''"
  by code_simp

text \<open>
  On a master that has no cached answer, \<open>IsLeader\<close> never answers false without an error: a master that does not
  lead gets an error.
\<close>

theorem IsLeader_master_never_false:
  assumes "role d = RoleMaster" "cachedIsLeader d = None"
  shows "fst (IsLeader env d s) \<noteq> Inr False"
proof -
  obtain r d1 s1 where ip: "DetectIP env d s = (r, d1, s1)" by (cases "DetectIP env d s") auto
  have d1: "role d1 = RoleMaster" "cachedIsLeader d1 = None" using DetectIP_frame(1) [OF ip] assms by auto
  obtain ra s2 where dns: "LookupIP env (dnsRecordLeader d1) s1 = (ra, s2)" by fastforce
  show ?thesis by (cases r; cases ra) (simp_all add: IsLeader_def IsLeader_locked_def ip d1 dns)
qed

end
