(* ===== verification/Transport.thy ===== *)
theory Transport
  imports Go_Strings
begin

text \<open>
  Package \<open>dcos/http/transport\<close>: the options (\<open>option.go\<close>), the transport with its TLS configuration
  (\<open>transport.go\<close>) and the round tripper that logs in and retries (\<open>roundtripper.go\<close>). The network, the
  clock, the files, the JWT library and the formats that are read and written (PEM, PKCS8, JSON,
  URLs) are parameters.
\<close>

section \<open>Requests\<close>

datatype tr_error =
    ErrInvalidCredentials
  | ErrInvalidUserAgent
  | ErrInvalidExpireDuration
  | ErrEmptyToken
  | ErrWrongRoundTripperImpl
  | ErrTokenRefresh string
  | ErrText string \<comment> \<open>\<open>errors.New\<close>\<close>
  | ErrForeign string \<comment> \<open>an error of the network, a file or a library\<close>

type_synonym http_header = "string \<rightharpoonup> string list"

definition header_Set :: "http_header \<Rightarrow> string \<Rightarrow> string \<Rightarrow> http_header" where
  "header_Set h k v = h(k \<mapsto> [v])"

definition header_Add :: "http_header \<Rightarrow> string \<Rightarrow> string \<Rightarrow> http_header" where
  "header_Add h k v = h(k \<mapsto> (case h k of None \<Rightarrow> [] | Some vs \<Rightarrow> vs) @ [v])"

text \<open>\<open>Req_Body\<close> is what is left to read of the body: sending a request consumes it.\<close>

record http_request =
  Req_Method :: string
  Req_URL :: string
  Req_Header :: http_header
  Req_Body :: bytes

record http_response =
  Resp_Status :: int
  Resp_Body :: bytes

type_synonym 's round_trip = "http_request \<Rightarrow> 's \<Rightarrow> (tr_error + http_response) \<times> bytes \<times> 's"

section \<open>State\<close>

type_synonym rsa_key = bytes

type_synonym cert = bytes

record tls_Config =
  RootCAs :: "cert list option"
  InsecureSkipVerify :: bool

record http_Transport =
  TLSClientConfig :: tls_Config

record dcosTransport =
  CaCertificatePath :: string
  IAMConfigPath :: string

record 's dcosRoundtripper =
  token :: string
  expire :: int64
  uid :: string
  loginEndpoint :: string
  userAgent :: string
  secret :: "rsa_key option"
  transport :: "'s round_trip"

datatype 's RoundTripper = HTTPTransport http_Transport | Roundtripper "'s dcosRoundtripper"

datatype private_key = RSAKey rsa_key | OtherKey

record claims =
  Claim_UID :: string
  Claim_Exp :: int64

record authReq =
  Auth_UID :: string
  Auth_Token :: string
  Auth_Exp :: int64

record iam_config =
  Cfg_UID :: string
  Cfg_Secret :: string
  Cfg_LoginEndpoint :: string

text \<open>
  The parameters. \<open>Now\<close> is the clock in nanoseconds; \<open>Sign\<close> is \<open>jwt.Signed(...).CompactSerialize()\<close>;
  \<open>Via\<close> is how \<open>http.Transport\<close> sends a request; \<open>ReadAllOf\<close> opens a file and reads it.
\<close>

record 's tr_env =
  NewSigner :: "rsa_key option \<Rightarrow> tr_error option"
  Sign :: "rsa_key option \<Rightarrow> claims \<Rightarrow> tr_error + string"
  Now :: "'s \<Rightarrow> int \<times> 's"
  MarshalAuth :: "authReq \<Rightarrow> tr_error + bytes"
  NewRequestErr :: "string \<Rightarrow> tr_error option"
  DecodeToken :: "bytes \<Rightarrow> tr_error + string"
  pem_Decode :: "bytes \<Rightarrow> bytes option"
  ParsePKCS8PrivateKey :: "bytes \<Rightarrow> tr_error + private_key"
  UnmarshalIAM :: "bytes \<Rightarrow> tr_error + iam_config"
  CertsFromPEM :: "bytes \<Rightarrow> cert list"
  ReadAllOf :: "string \<Rightarrow> 's \<Rightarrow> (tr_error + bytes) \<times> 's"
  Via :: "http_Transport \<Rightarrow> 's round_trip"
  DefaultTransport :: "'s round_trip"

section \<open>Options\<close>

type_synonym OptionTransportFunc = "dcosTransport \<Rightarrow> tr_error option \<times> dcosTransport"

type_synonym 's OptionRoundtripperFunc = "'s dcosRoundtripper \<Rightarrow> 's \<Rightarrow> tr_error option \<times> 's dcosRoundtripper \<times> 's"

definition errorOnEmpty :: "string \<Rightarrow> tr_error option" where
  "errorOnEmpty arg = (if length arg = 0 then Some (ErrText ''Must pass non-empty string to this option'') else None)"

definition OptionCaCertificatePath :: "string \<Rightarrow> OptionTransportFunc" where
  "OptionCaCertificatePath path oo =
     (case errorOnEmpty path of
        None \<Rightarrow> (None, oo\<lparr>CaCertificatePath := path\<rparr>)
      | Some err \<Rightarrow> (Some err, oo))"

definition OptionIAMConfigPath :: "string \<Rightarrow> OptionTransportFunc" where
  "OptionIAMConfigPath path oo =
     (case errorOnEmpty path of
        None \<Rightarrow> (None, oo\<lparr>IAMConfigPath := path\<rparr>)
      | Some err \<Rightarrow> (Some err, oo))"

definition OptionTokenExpire :: "int64 \<Rightarrow> 's OptionRoundtripperFunc" where
  "OptionTokenExpire d j s =
     (if sint d < 1 then (Some ErrInvalidExpireDuration, j, s) else (None, j\<lparr>expire := d\<rparr>, s))"

definition OptionCredentials :: "'s tr_env \<Rightarrow> string \<Rightarrow> string \<Rightarrow> string \<Rightarrow> 's OptionRoundtripperFunc" where
  "OptionCredentials env u sec login j s =
     (if u = [] \<or> sec = [] \<or> login = [] then (Some ErrInvalidCredentials, j, s)
      else
        let j1 = j\<lparr>uid := u, loginEndpoint := login\<rparr> in
        case pem_Decode env sec of
          None \<Rightarrow> (Some ErrInvalidCredentials, j1, s)
        | Some block \<Rightarrow>
            (case ParsePKCS8PrivateKey env block of
               Inl err \<Rightarrow> (Some ErrInvalidCredentials, j1, s)
             | Inr (RSAKey key) \<Rightarrow> (None, j1\<lparr>secret := Some key\<rparr>, s)
             | Inr OtherKey \<Rightarrow> (Some ErrInvalidCredentials, j1, s)))"

definition OptionUserAgent :: "string \<Rightarrow> 's OptionRoundtripperFunc" where
  "OptionUserAgent ua j s =
     (if ua = [] then (Some ErrInvalidUserAgent, j, s) else (None, j\<lparr>userAgent := ua\<rparr>, s))"

definition OptionReadIAMConfig :: "'s tr_env \<Rightarrow> string \<Rightarrow> 's OptionRoundtripperFunc" where
  "OptionReadIAMConfig env path j s =
     (case ReadAllOf env path s of
        (Inl err, s1) \<Rightarrow> (Some err, j, s1)
      | (Inr fileContent, s1) \<Rightarrow>
          (case UnmarshalIAM env fileContent of
             Inl err \<Rightarrow> (Some err, j, s1)
           | Inr cfg \<Rightarrow> OptionCredentials env (Cfg_UID cfg) (Cfg_Secret cfg) (Cfg_LoginEndpoint cfg) j s1))"

section \<open>The round tripper\<close>

definition exp_time :: "int \<Rightarrow> int64 \<Rightarrow> int64" where
  \<comment> \<open>\<open>time.Now().Add(t.expire).Unix()\<close>\<close>
  "exp_time now d = of_int ((now + sint d) div 1000000000)"

definition GenerateToken :: "'s tr_env \<Rightarrow> 's dcosRoundtripper \<Rightarrow> 's \<Rightarrow> tr_error option \<times> 's dcosRoundtripper \<times> 's" where
  "GenerateToken env t s =
     (case NewSigner env (secret t) of
        Some err \<Rightarrow> (Some err, t, s)
      | None \<Rightarrow>
          (case Now env s of (now1, s1) \<Rightarrow>
           case Sign env (secret t) \<lparr>Claim_UID = uid t, Claim_Exp = exp_time now1 (expire t)\<rparr> of
             Inl err \<Rightarrow> (Some err, t, s1)
           | Inr tokenStr \<Rightarrow>
               if tokenStr = [] then (Some ErrEmptyToken, t, s1)
               else
                 (case Now env s1 of (now2, s2) \<Rightarrow>
                  case MarshalAuth env \<lparr>Auth_UID = uid t, Auth_Token = tokenStr, Auth_Exp = exp_time now2 (expire t)\<rparr> of
                    Inl err \<Rightarrow> (Some err, t, s2)
                  | Inr b \<Rightarrow>
                      (case NewRequestErr env (loginEndpoint t) of
                         Some err \<Rightarrow> (Some err, t, s2)
                       | None \<Rightarrow>
                           (case transport t
                                   \<lparr>Req_Method = ''POST'', Req_URL = loginEndpoint t,
                                    Req_Header = header_Add Map.empty ''Content-Type'' ''application/json'',
                                    Req_Body = b\<rparr> s2 of
                              (Inl err, _, s3) \<Rightarrow> (Some err, t, s3)
                            | (Inr resp, _, s3) \<Rightarrow>
                                if Resp_Status resp \<noteq> 200
                                then (Some (ErrTokenRefresh (''POST '' @ loginEndpoint t @
                                        '' failed, expect response code 200. Got '' @ Itoa (Resp_Status resp))), t, s3)
                                else
                                  (case DecodeToken env (Resp_Body resp) of
                                     Inl err \<Rightarrow> (Some err, t, s3)
                                   | Inr tok \<Rightarrow> (None, t\<lparr>token := tok\<rparr>, s3)))))))"

definition CurrentToken :: "'s dcosRoundtripper \<Rightarrow> string" where
  "CurrentToken t = token t"

fun apply_rt_opts ::
  "'s OptionRoundtripperFunc option list \<Rightarrow> 's dcosRoundtripper \<Rightarrow> 's \<Rightarrow> (tr_error + 's dcosRoundtripper) \<times> 's" where
  "apply_rt_opts [] t s = (Inr t, s)"
| "apply_rt_opts (None # opts) t s = apply_rt_opts opts t s"
| "apply_rt_opts (Some opt # opts) t s =
     (case opt t s of
        (Some err, _, s1) \<Rightarrow> (Inl err, s1)
      | (None, t1, s1) \<Rightarrow> apply_rt_opts opts t1 s1)"

definition NewRoundTripper ::
  "'s tr_env \<Rightarrow> 's round_trip option \<Rightarrow> 's OptionRoundtripperFunc option list \<Rightarrow> 's \<Rightarrow> (tr_error + 's dcosRoundtripper) \<times> 's" where
  "NewRoundTripper env rt opts s =
     (let tr = (case rt of None \<Rightarrow> DefaultTransport env | Some r \<Rightarrow> r) in
      case apply_rt_opts opts
             \<lparr>token = [], expire = 0, uid = [], loginEndpoint = [], userAgent = [], secret = None, transport = tr\<rparr> s of
        (Inl err, s1) \<Rightarrow> (Inl err, s1)
      | (Inr t, s1) \<Rightarrow>
          let t1 = (if sint (expire t) < 1 then t\<lparr>expire := 3600000000000 * 24 * 5\<rparr> else t) in
          case GenerateToken env t1 s1 of
            (Some err, _, s2) \<Rightarrow> (Inl err, s2)
          | (None, t2, s2) \<Rightarrow> (Inr t2, s2))"

definition addAuthToken :: "'s dcosRoundtripper \<Rightarrow> http_request \<Rightarrow> http_request" where
  "addAuthToken t req =
     (if CurrentToken t \<noteq> []
      then req\<lparr>Req_Header := header_Set (Req_Header req) ''Authorization'' (''token='' @ CurrentToken t)\<rparr>
      else req)"

definition setUserAgent :: "'s dcosRoundtripper \<Rightarrow> http_request \<Rightarrow> http_request" where
  "setUserAgent t req =
     req\<lparr>Req_Header := header_Set (Req_Header req) ''User-Agent'' (if userAgent t \<noteq> [] then userAgent t else ''dcos-go'')\<rparr>"

text \<open>The result has both values of Go's result; \<open>req\<close> is shared with the caller, so it is returned too.\<close>

definition RoundTrip ::
  "'s tr_env \<Rightarrow> 's dcosRoundtripper \<Rightarrow> http_request \<Rightarrow> 's
   \<Rightarrow> (http_response option \<times> tr_error option) \<times> http_request \<times> 's dcosRoundtripper \<times> 's" where
  "RoundTrip env t req s =
     (let req1 = addAuthToken t (setUserAgent t req) in
      case transport t req1 s of
        (Inl err, left, s1) \<Rightarrow> ((None, Some err), req1\<lparr>Req_Body := left\<rparr>, t, s1)
      | (Inr resp, left, s1) \<Rightarrow>
          if Resp_Status resp = 401 then
            (case GenerateToken env t s1 of
               (Some err, t1, s2) \<Rightarrow> ((Some resp, Some err), req1\<lparr>Req_Body := left\<rparr>, t1, s2)
             | (None, t1, s2) \<Rightarrow>
                 let req2 = addAuthToken t1 (req1\<lparr>Req_Body := left\<rparr>) in
                 (case transport t1 req2 s2 of
                    (Inl err, left2, s3) \<Rightarrow> ((None, Some err), req2\<lparr>Req_Body := left2\<rparr>, t1, s3)
                  | (Inr resp2, left2, s3) \<Rightarrow> ((Some resp2, None), req2\<lparr>Req_Body := left2\<rparr>, t1, s3)))
          else ((Some resp, None), req1\<lparr>Req_Body := left\<rparr>, t, s1))"

definition DebugTransport :: "'s RoundTripper \<Rightarrow> tr_error + 's dcosRoundtripper" where
  "DebugTransport rt =
     (case rt of
        Roundtripper t \<Rightarrow> Inr t
      | HTTPTransport _ \<Rightarrow> Inl ErrWrongRoundTripperImpl)"

section \<open>The transport\<close>

definition loadCAPool :: "'s tr_env \<Rightarrow> string \<Rightarrow> 's \<Rightarrow> (tr_error + cert list) \<times> 's" where
  "loadCAPool env path s =
     (case ReadAllOf env path s of
        (Inl err, s1) \<Rightarrow> (Inl err, s1)
      | (Inr b, s1) \<Rightarrow>
          let certs = CertsFromPEM env b in
          if certs = [] then (Inl (ErrText ''CACertFile parsing failed''), s1) else (Inr certs, s1))"

definition configureTLS :: "'s tr_env \<Rightarrow> string \<Rightarrow> 's \<Rightarrow> (tr_error + http_Transport) \<times> 's" where
  "configureTLS env path s =
     (if path \<noteq> [] then
        (case loadCAPool env path s of
           (Inl err, s1) \<Rightarrow> (Inl err, s1)
         | (Inr caPool, s1) \<Rightarrow> (Inr \<lparr>TLSClientConfig = \<lparr>RootCAs = Some caPool, InsecureSkipVerify = False\<rparr>\<rparr>, s1))
      else (Inr \<lparr>TLSClientConfig = \<lparr>RootCAs = None, InsecureSkipVerify = True\<rparr>\<rparr>, s))"

fun apply_tr_opts :: "OptionTransportFunc list \<Rightarrow> dcosTransport \<Rightarrow> tr_error + dcosTransport" where
  "apply_tr_opts [] t = Inr t"
| "apply_tr_opts (opt # opts) t =
     (case opt t of
        (Some err, _) \<Rightarrow> Inl err
      | (None, t1) \<Rightarrow> apply_tr_opts opts t1)"

definition NewTransport :: "'s tr_env \<Rightarrow> OptionTransportFunc list \<Rightarrow> 's \<Rightarrow> (tr_error + 's RoundTripper) \<times> 's" where
  "NewTransport env opts s =
     (case apply_tr_opts opts \<lparr>CaCertificatePath = [], IAMConfigPath = []\<rparr> of
        Inl err \<Rightarrow> (Inl err, s)
      | Inr t \<Rightarrow>
          (case configureTLS env (CaCertificatePath t) s of
             (Inl err, s1) \<Rightarrow> (Inl err, s1)
           | (Inr tr, s1) \<Rightarrow>
               if length (IAMConfigPath t) \<noteq> 0 then
                 (case NewRoundTripper env (Some (Via env tr)) [Some (OptionReadIAMConfig env (IAMConfigPath t))] s1 of
                    (Inl err, s2) \<Rightarrow> (Inl err, s2)
                  | (Inr withIAM, s2) \<Rightarrow> (Inr (Roundtripper withIAM), s2))
               else (Inr (HTTPTransport tr), s1)))"

end
