(* ===== verification/Transport_Theorems.thy ===== *)
theory Transport_Theorems
  imports Transport
begin

text \<open>
  Properties of package \<open>transport\<close>: the requests a round trip sends and in which order, what the
  constructors guarantee, and when certificates are verified.
\<close>

section \<open>What is sent\<close>

text \<open>A round trip that keeps a log of the requests sent and the answers received.\<close>

type_synonym 's logged = "(http_request \<times> (tr_error + http_response)) list \<times> 's"

definition recording :: "'s round_trip \<Rightarrow> 's logged round_trip" where
  "recording rt req w = (case rt req (snd w) of (r, left, s) \<Rightarrow> (r, left, (fst w @ [(req, r)], s)))"

definition clock_only :: "'s logged tr_env \<Rightarrow> bool" where
  "clock_only env \<longleftrightarrow> (\<forall>w. fst (snd (Now env w)) = fst w)"

lemma Now_log: "clock_only env \<Longrightarrow> Now env w = (n, w') \<Longrightarrow> fst w' = fst w"
  by (metis clock_only_def snd_conv)

text \<open>A login sends nothing and fails, or sends one request.\<close>

lemma GenerateToken_cases:
  assumes "GenerateToken env t s = (e, t', s')"
  obtains (early) err where "e = Some err" "t' = t" "s' = s \<or> (\<exists>n. Now env s = (n, s')) \<or> (\<exists>n m s1. Now env s = (n, s1) \<and> Now env s1 = (m, s'))"
  | (sent) n m s1 s2 b a left where "Now env s = (n, s1)" "Now env s1 = (m, s2)"
      "transport t \<lparr>Req_Method = ''POST'', Req_URL = loginEndpoint t,
         Req_Header = header_Add Map.empty ''Content-Type'' ''application/json'', Req_Body = b\<rparr> s2 = (a, left, s')"
      "case e of
         Some err \<Rightarrow> t' = t
       | None \<Rightarrow> \<exists>resp tok. a = Inr resp \<and> Resp_Status resp = 200 \<and> DecodeToken env (Resp_Body resp) = Inr tok \<and> t' = t\<lparr>token := tok\<rparr>"
proof (cases "NewSigner env (secret t)")
  case (Some err)
  with assms have "e = Some err \<and> t' = t \<and> s' = s" by (auto simp: GenerateToken_def)
  then show thesis by (intro early [of err]) simp_all
next
  case None
  obtain n s1 where n: "Now env s = (n, s1)" by fastforce
  obtain m s2 where m: "Now env s1 = (m, s2)" by fastforce
  let ?c = "\<lparr>Claim_UID = uid t, Claim_Exp = exp_time n (expire t)\<rparr>"
  consider (no_sign) err where "Sign env (secret t) ?c = Inl err" | (blank) "Sign env (secret t) ?c = Inr []"
    | (signed) tok where "Sign env (secret t) ?c = Inr tok" "tok \<noteq> []"
    by (metis sumE)
  then show thesis
  proof cases
    case no_sign
    with assms None n have "(\<exists>err. e = Some err) \<and> t' = t \<and> s' = s1" by (auto simp: GenerateToken_def)
    then obtain err' where "e = Some err'" "t' = t" "s' = s1" by blast
    then show thesis using n by (intro early [of err']) simp_all
  next
    case blank
    with assms None n have "(\<exists>err. e = Some err) \<and> t' = t \<and> s' = s1" by (auto simp: GenerateToken_def)
    then obtain err' where "e = Some err'" "t' = t" "s' = s1" by blast
    then show thesis using n by (intro early [of err']) simp_all
  next
    case (signed tok)
    let ?a = "\<lparr>Auth_UID = uid t, Auth_Token = tok, Auth_Exp = exp_time m (expire t)\<rparr>"
    consider (no_json) err where "MarshalAuth env ?a = Inl err" | (bad_url) b err where "MarshalAuth env ?a = Inr b" "NewRequestErr env (loginEndpoint t) = Some err"
      | (ready) b where "MarshalAuth env ?a = Inr b" "NewRequestErr env (loginEndpoint t) = None"
      by (metis sumE option.exhaust)
    then show thesis
    proof cases
      case no_json
      with assms None n m signed have "(\<exists>err. e = Some err) \<and> t' = t \<and> s' = s2" by (auto simp: GenerateToken_def)
      then obtain err' where "e = Some err'" "t' = t" "s' = s2" by blast
      then show thesis using n m by (intro early [of err']) simp_all
    next
      case (bad_url b err)
      with assms None n m signed have "e = Some err \<and> t' = t \<and> s' = s2" by (auto simp: GenerateToken_def)
      then obtain err' where "e = Some err'" "t' = t" "s' = s2" by blast
      then show thesis using n m by (intro early [of err']) simp_all
    next
      case (ready b)
      let ?req = "\<lparr>Req_Method = ''POST'', Req_URL = loginEndpoint t,
         Req_Header = header_Add Map.empty ''Content-Type'' ''application/json'', Req_Body = b\<rparr>"
      obtain a left s3 where a: "transport t ?req s2 = (a, left, s3)" by (metis prod_cases3)
      have "s' = s3" and "case e of Some err \<Rightarrow> t' = t
         | None \<Rightarrow> \<exists>resp tok. a = Inr resp \<and> Resp_Status resp = 200 \<and> DecodeToken env (Resp_Body resp) = Inr tok \<and> t' = t\<lparr>token := tok\<rparr>"
        using assms None n m signed ready a
        by (auto simp: GenerateToken_def split: sum.splits if_splits)
      with n m a show thesis by (intro sent [of n s1 m s2 b a left]) simp_all
    qed
  qed
qed

lemma GenerateToken_log:
  assumes "transport t = recording rt" "clock_only env" "GenerateToken env t w = (e, t', w')"
  shows "(fst w' = fst w \<and> e \<noteq> None \<and> t' = t) \<or>
    (\<exists>req a. fst w' = fst w @ [(req, a)] \<and> Req_Method req = ''POST'' \<and> Req_URL req = loginEndpoint t \<and>
       (case e of
          Some err \<Rightarrow> t' = t
        | None \<Rightarrow> \<exists>resp tok. a = Inr resp \<and> Resp_Status resp = 200 \<and> DecodeToken env (Resp_Body resp) = Inr tok \<and> t' = t\<lparr>token := tok\<rparr>))"
  using assms(3)
proof (cases rule: GenerateToken_cases)
  case (early err)
  then have "fst w' = fst w" using Now_log [OF assms(2)] by metis
  with early show ?thesis by simp
next
  case (sent n m s1 s2 b a left)
  let ?req = "\<lparr>Req_Method = ''POST'', Req_URL = loginEndpoint t,
         Req_Header = header_Add Map.empty ''Content-Type'' ''application/json'', Req_Body = b\<rparr>"
  have "fst s2 = fst w" using sent(1,2) Now_log [OF assms(2)] by metis
  with sent(3) have "fst w' = fst w @ [(?req, a)]"
    by (auto simp: assms(1) recording_def split: prod.splits)
  with sent(4) show ?thesis by (intro disjI2 exI [of _ ?req] exI [of _ a]) simp
qed

lemma request_simps [simp]:
  "Req_URL (addAuthToken t req) = Req_URL req" "Req_Body (addAuthToken t req) = Req_Body req"
  "Req_URL (setUserAgent t req) = Req_URL req" "Req_Body (setUserAgent t req) = Req_Body req"
  "token t \<noteq> [] \<Longrightarrow> Req_Header (addAuthToken t req) ''Authorization'' = Some [''token='' @ token t]"
  by (simp_all add: addAuthToken_def setUserAgent_def CurrentToken_def header_Set_def)

lemma RoundTrip_sent:
  assumes "transport t = recording rt" "clock_only env"
    "RoundTrip env t req w = ((resp, err), req', t', w')"
  shows "\<exists>sent. fst w' = fst w @ sent \<and> sent \<noteq> [] \<and> length sent \<le> 3 \<and>
    fst (sent ! 0) = addAuthToken t (setUserAgent t req) \<and>
    (err = None \<and> length sent < 3 \<longrightarrow> (\<exists>r. snd (sent ! 0) = Inr r \<and> Resp_Status r \<noteq> 401 \<and> resp = Some r)) \<and>
    (1 < length sent \<longrightarrow> (\<exists>r. snd (sent ! 0) = Inr r \<and> Resp_Status r = 401) \<and>
       Req_Method (fst (sent ! 1)) = ''POST'' \<and> Req_URL (fst (sent ! 1)) = loginEndpoint t) \<and>
    (length sent = 3 \<longrightarrow>
       (\<exists>r. snd (sent ! 1) = Inr r \<and> Resp_Status r = 200 \<and> DecodeToken env (Resp_Body r) = Inr (token t')) \<and>
       Req_URL (fst (sent ! 2)) = Req_URL req \<and>
       (token t' \<noteq> [] \<longrightarrow> Req_Header (fst (sent ! 2)) ''Authorization'' = Some [''token='' @ token t']) \<and>
       (case snd (sent ! 2) of Inl e \<Rightarrow> (resp, err) = (None, Some e) | Inr r \<Rightarrow> (resp, err) = (Some r, None))) \<and>
    (length sent < 3 \<longrightarrow> t' = t) \<and>
    (length sent = 3 \<longrightarrow> Req_Body (fst (sent ! 2)) = fst (snd (rt (fst (sent ! 0)) (snd w))))"
proof -
  let ?req = "addAuthToken t (setUserAgent t req)"
  obtain a left s1 where a: "rt ?req (snd w) = (a, left, s1)" by (metis prod_cases3)
  let ?w1 = "(fst w @ [(?req, a)], s1)"
  have first: "transport t ?req w = (a, left, ?w1)" by (simp add: assms(1) recording_def a)
  show ?thesis
  proof (cases "\<exists>r. a = Inr r \<and> Resp_Status r = 401")
    case False
    then have "w' = ?w1" "t' = t" "err = None \<longrightarrow> (\<exists>r. a = Inr r \<and> resp = Some r)"
      using assms(3) first by (auto simp: RoundTrip_def Let_def split: sum.splits)
    with False show ?thesis by (intro exI [of _ "[(?req, a)]"]) auto
  next
    case True
    then obtain r where r: "a = Inr r" "Resp_Status r = 401" by blast
    obtain e t1 w2 where g: "GenerateToken env t ?w1 = (e, t1, w2)" by (metis prod_cases3)
    note log = GenerateToken_log [OF assms(1,2) g]
    show ?thesis
    proof (cases e)
      case (Some e')
      then have "w' = w2" "t' = t1" "err = Some e'" using assms(3) first r g by (auto simp: RoundTrip_def Let_def)
      with log Some r show ?thesis
        by (elim disjE exE; intro exI [of _ "drop (length (fst w)) (fst w2)"]) auto
    next
      case None
      with log obtain lreq resp1 tok where l: "fst w2 = fst ?w1 @ [(lreq, Inr resp1)]" "Req_Method lreq = ''POST''"
        "Req_URL lreq = loginEndpoint t" "Resp_Status resp1 = 200" "DecodeToken env (Resp_Body resp1) = Inr tok" "t1 = t\<lparr>token := tok\<rparr>"
        by auto
      let ?req2 = "addAuthToken t1 (?req\<lparr>Req_Body := left\<rparr>)"
      obtain a2 left2 s3 where a2: "rt ?req2 (snd w2) = (a2, left2, s3)" by (metis prod_cases3)
      have "transport t1 ?req2 w2 = (a2, left2, (fst w2 @ [(?req2, a2)], s3))"
        by (simp add: l(6) assms(1) recording_def a2 [unfolded l(6)])
      with assms(3) first r g None have "w' = (fst w2 @ [(?req2, a2)], s3)" "t' = t1"
        "case a2 of Inl e \<Rightarrow> (resp, err) = (None, Some e) | Inr r \<Rightarrow> (resp, err) = (Some r, None)"
        by (auto simp: RoundTrip_def Let_def split: sum.splits)
      moreover have "fst (snd (rt ?req (snd w))) = left" by (simp add: a)
      ultimately show ?thesis using l r
        by (intro exI [of _ "[(?req, a), (lreq, Inr resp1), (?req2, a2)]"]) simp
    qed
  qed
qed

section \<open>A concrete server\<close>

text \<open>A server that refuses the first request, and otherwise answers 200 with a token.\<close>

definition demo_server :: "nat round_trip" where
  "demo_server req n = (Inr \<lparr>Resp_Status = (if n = 0 then 401 else 200), Resp_Body = ''T''\<rparr>, [], Suc n)"

definition demo_tr :: "nat logged tr_env" where
  "demo_tr =
     \<lparr>NewSigner = (\<lambda>k. None), Sign = (\<lambda>k c. Inr ''jwt''), Now = (\<lambda>w. (0, w)), MarshalAuth = (\<lambda>r. Inr ''{}''),
      NewRequestErr = (\<lambda>u. None), DecodeToken = (\<lambda>b. Inr b), pem_Decode = (\<lambda>b. Some b),
      ParsePKCS8PrivateKey = (\<lambda>b. Inr (RSAKey b)),
      UnmarshalIAM = (\<lambda>b. Inr \<lparr>Cfg_UID = ''u'', Cfg_Secret = ''k'', Cfg_LoginEndpoint = ''/login''\<rparr>),
      CertsFromPEM = (\<lambda>b. [b]), ReadAllOf = (\<lambda>p w. (Inr p, w)), Via = (\<lambda>tr. recording demo_server),
      DefaultTransport = recording demo_server\<rparr>"

definition demo_rt :: "nat logged dcosRoundtripper" where
  "demo_rt =
     \<lparr>token = ''old'', expire = 1, uid = ''u'', loginEndpoint = ''/login'', userAgent = [], secret = Some ''k'',
      transport = recording demo_server\<rparr>"

definition demo_req :: http_request where
  "demo_req = \<lparr>Req_Method = ''PUT'', Req_URL = ''/x'', Req_Header = Map.empty, Req_Body = ''data''\<rparr>"

lemma demo_tr_ok: "transport demo_rt = recording demo_server" "clock_only demo_tr"
  by (simp_all add: demo_rt_def clock_only_def demo_tr_def)

lemma demo_round_trip:
  "\<exists>req2 t' x y a. RoundTrip demo_tr demo_rt demo_req ([], 0) =
     ((Some \<lparr>Resp_Status = 200, Resp_Body = ''T''\<rparr>, None), req2\<lparr>Req_Body := []\<rparr>, t', ([x, y, (req2, a)], 3))"
  by (simp add: RoundTrip_def GenerateToken_def demo_rt_def demo_tr_def demo_server_def recording_def Let_def)

section \<open>Properties of a round trip\<close>

text \<open>
  C21: the protocol of a round trip. A round trip sends the request, with user agent and token, and
  nothing else unless the answer is 401. Then it logs in, with a POST to the login endpoint, and
  only when that returns a token sends the request once more, to the same URL and with the new
  token, and returns the second answer, whatever it is: never more than three requests. The
  token changes only by such a login.
\<close>

theorem RoundTrip_protocol:
  assumes "transport t = recording rt" "clock_only env"
    "RoundTrip env t req w = ((resp, err), req', t', w')"
  shows "\<exists>sent. fst w' = fst w @ sent \<and> sent \<noteq> [] \<and> length sent \<le> 3 \<and>
    fst (sent ! 0) = addAuthToken t (setUserAgent t req) \<and>
    (err = None \<and> length sent < 3 \<longrightarrow> (\<exists>r. snd (sent ! 0) = Inr r \<and> Resp_Status r \<noteq> 401 \<and> resp = Some r)) \<and>
    (1 < length sent \<longrightarrow> (\<exists>r. snd (sent ! 0) = Inr r \<and> Resp_Status r = 401) \<and>
       Req_Method (fst (sent ! 1)) = ''POST'' \<and> Req_URL (fst (sent ! 1)) = loginEndpoint t) \<and>
    (length sent = 3 \<longrightarrow>
       (\<exists>r. snd (sent ! 1) = Inr r \<and> Resp_Status r = 200 \<and> DecodeToken env (Resp_Body r) = Inr (token t')) \<and>
       Req_URL (fst (sent ! 2)) = Req_URL req \<and>
       (token t' \<noteq> [] \<longrightarrow> Req_Header (fst (sent ! 2)) ''Authorization'' = Some [''token='' @ token t']) \<and>
       (case snd (sent ! 2) of Inl e \<Rightarrow> (resp, err) = (None, Some e) | Inr r \<Rightarrow> (resp, err) = (Some r, None))) \<and>
    (length sent < 3 \<longrightarrow> t' = t)"
proof -
  from RoundTrip_sent [OF assms] obtain sent where sent: "fst w' = fst w @ sent" "sent \<noteq> []" "length sent \<le> 3"
    "fst (sent ! 0) = addAuthToken t (setUserAgent t req)"
    "err = None \<and> length sent < 3 \<longrightarrow> (\<exists>r. snd (sent ! 0) = Inr r \<and> Resp_Status r \<noteq> 401 \<and> resp = Some r)"
    "1 < length sent \<longrightarrow> (\<exists>r. snd (sent ! 0) = Inr r \<and> Resp_Status r = 401) \<and>
       Req_Method (fst (sent ! 1)) = ''POST'' \<and> Req_URL (fst (sent ! 1)) = loginEndpoint t"
    "length sent = 3 \<longrightarrow>
       (\<exists>r. snd (sent ! 1) = Inr r \<and> Resp_Status r = 200 \<and> DecodeToken env (Resp_Body r) = Inr (token t')) \<and>
       Req_URL (fst (sent ! 2)) = Req_URL req \<and>
       (token t' \<noteq> [] \<longrightarrow> Req_Header (fst (sent ! 2)) ''Authorization'' = Some [''token='' @ token t']) \<and>
       (case snd (sent ! 2) of Inl e \<Rightarrow> (resp, err) = (None, Some e) | Inr r \<Rightarrow> (resp, err) = (Some r, None))"
    "length sent < 3 \<longrightarrow> t' = t"
    by (elim exE conjE) rule
  show ?thesis by (rule exI [of _ sent], intro conjI) (fact sent)+
qed

theorem RoundTrip_protocol_witness:
  "\<exists>t' w' req' sent. RoundTrip demo_tr demo_rt demo_req ([], 0) =
     ((Some \<lparr>Resp_Status = 200, Resp_Body = ''T''\<rparr>, None), req', t', w') \<and>
     fst w' = sent \<and> length sent = 3 \<and> Req_URL (fst (sent ! 1)) = ''/login''"
proof -
  obtain req2 t' x y a where r: "RoundTrip demo_tr demo_rt demo_req ([], 0) =
     ((Some \<lparr>Resp_Status = 200, Resp_Body = ''T''\<rparr>, None), req2\<lparr>Req_Body := []\<rparr>, t', ([x, y, (req2, a)], 3))"
    using demo_round_trip by blast
  from RoundTrip_protocol [OF demo_tr_ok r] have "Req_URL (fst ([x, y, (req2, a)] ! 1)) = ''/login''"
    by (auto simp: demo_rt_def)
  with r show ?thesis by (intro exI [of _ t'] exI [of _ "([x, y, (req2, a)], 3)"] exI [of _ "req2\<lparr>Req_Body := []\<rparr>"]) simp
qed

text \<open>
  C39: the retry loses the body. With a transport that reads the body of the requests it sends, as
  \<open>http.Transport\<close> does, the second attempt after a login is sent with an empty body, whatever
  the body of the request was.
\<close>

theorem retry_without_body:
  assumes "transport t = recording rt" "clock_only env" "\<And>r s. fst (snd (rt r s)) = []"
    "RoundTrip env t req w = ((resp, err), req', t', w')" "fst w' = fst w @ [x, y, (req2, a)]"
  shows "Req_URL req2 = Req_URL req \<and> Req_Body req2 = []"
proof -
  from RoundTrip_sent [OF assms(1,2,4)] assms(5) show ?thesis by (elim exE conjE) (simp add: assms(3))
qed

theorem retry_without_body_witness:
  "\<exists>x y req2 a w' r req' t'. Req_Body demo_req = ''data'' \<and>
     RoundTrip demo_tr demo_rt demo_req ([], 0) = (r, req', t', w') \<and> fst w' = [x, y, (req2, a)] \<and>
     Req_URL req2 = ''/x'' \<and> Req_Body req2 = []"
proof -
  obtain req2 t' x y a where r: "RoundTrip demo_tr demo_rt demo_req ([], 0) =
     ((Some \<lparr>Resp_Status = 200, Resp_Body = ''T''\<rparr>, None), req2\<lparr>Req_Body := []\<rparr>, t', ([x, y, (req2, a)], 3))"
    using demo_round_trip by blast
  have b: "fst (snd (demo_server r s)) = []" for r s by (simp add: demo_server_def)
  from retry_without_body [OF demo_tr_ok b r, of x y req2 a] r show ?thesis
    by (auto simp: demo_req_def)
qed

section \<open>Constructors\<close>

text \<open>The exported options of the two constructors, as data.\<close>

datatype rt_opt = TokenExpire int64 | Credentials string string string | UserAgent string | ReadIAMConfig string

fun rt_fun :: "'s tr_env \<Rightarrow> rt_opt \<Rightarrow> 's OptionRoundtripperFunc" where
  "rt_fun env (TokenExpire d) = OptionTokenExpire d"
| "rt_fun env (Credentials u sec login) = OptionCredentials env u sec login"
| "rt_fun env (UserAgent ua) = OptionUserAgent ua"
| "rt_fun env (ReadIAMConfig path) = OptionReadIAMConfig env path"

fun gives_secret :: "rt_opt \<Rightarrow> bool" where
  "gives_secret (Credentials _ _ _) = True"
| "gives_secret (ReadIAMConfig _) = True"
| "gives_secret _ = False"

fun expiries :: "rt_opt list \<Rightarrow> int64 list" where
  "expiries [] = []"
| "expiries (TokenExpire d # opts) = d # expiries opts"
| "expiries (_ # opts) = expiries opts"

datatype tr_opt = CaCertificate string | IAMConfig string

fun tr_fun :: "tr_opt \<Rightarrow> OptionTransportFunc" where
  "tr_fun (CaCertificate p) = OptionCaCertificatePath p"
| "tr_fun (IAMConfig p) = OptionIAMConfigPath p"

definition rt_inv :: "'s dcosRoundtripper \<Rightarrow> bool" where
  "rt_inv t \<longleftrightarrow> (secret t \<noteq> None \<longrightarrow> uid t \<noteq> [] \<and> loginEndpoint t \<noteq> [])"

lemma OptionCredentials_ok:
  assumes "OptionCredentials env u sec login t s = (None, t', s')"
  shows "\<exists>key. t' = t\<lparr>uid := u, loginEndpoint := login, secret := Some key\<rparr> \<and> u \<noteq> [] \<and> login \<noteq> []"
  using assms
  by (auto simp: OptionCredentials_def Let_def split: if_splits option.splits sum.splits private_key.splits)

lemma rt_fun_ok:
  assumes "rt_fun env opt t s = (None, t', s')"
  shows "transport t' = transport t \<and> expire t' = last (expire t # expiries [opt]) \<and> (\<forall>d \<in> set (expiries [opt]). 1 \<le> sint d) \<and>
    (secret t' \<noteq> None \<longleftrightarrow> secret t \<noteq> None \<or> gives_secret opt) \<and> (rt_inv t \<longrightarrow> rt_inv t')"
proof (cases opt)
  case (ReadIAMConfig path)
  with assms obtain cfg :: iam_config and s1 where
    "OptionCredentials env (Cfg_UID cfg) (Cfg_Secret cfg) (Cfg_LoginEndpoint cfg) t s1 = (None, t', s')"
    by (auto simp: OptionReadIAMConfig_def split: prod.splits sum.splits)
  from OptionCredentials_ok [OF this] ReadIAMConfig show ?thesis by (auto simp: rt_inv_def)
next
  case (Credentials u sec login)
  with assms have "OptionCredentials env u sec login t s = (None, t', s')" by simp
  from OptionCredentials_ok [OF this] Credentials show ?thesis by (auto simp: rt_inv_def)
qed (use assms in \<open>auto simp: OptionTokenExpire_def OptionUserAgent_def rt_inv_def split: if_splits\<close>)

lemma apply_rt_opts_ok:
  "apply_rt_opts (map (\<lambda>opt. Some (rt_fun env opt)) opts) t s = (Inr t', s') \<Longrightarrow>
   transport t' = transport t \<and> expire t' = last (expire t # expiries opts) \<and> (\<forall>d \<in> set (expiries opts). 1 \<le> sint d) \<and>
   (secret t' \<noteq> None \<longleftrightarrow> secret t \<noteq> None \<or> list_ex gives_secret opts) \<and> (rt_inv t \<longrightarrow> rt_inv t')"
proof (induction opts arbitrary: t s)
  case (Cons opt opts)
  from Cons.prems obtain t1 s1 where step: "rt_fun env opt t s = (None, t1, s1)"
    and rest: "apply_rt_opts (map (\<lambda>opt. Some (rt_fun env opt)) opts) t1 s1 = (Inr t', s')"
    by (auto split: prod.splits option.splits)
  have "expiries (opt # opts) = expiries [opt] @ expiries opts" by (cases opt) simp_all
  with rt_fun_ok [OF step] Cons.IH [OF rest] show ?case by (auto split: if_splits)
qed simp

lemma GenerateToken_ok: "GenerateToken env t s = (None, t', s') \<Longrightarrow> \<exists>tok. t' = t\<lparr>token := tok\<rparr>"
  by (erule GenerateToken_cases) auto

lemma NewRoundTripper_ok:
  assumes "NewRoundTripper env rt opts s = (Inr t, s')"
  obtains t0 s1 tok where
    "apply_rt_opts opts \<lparr>token = [], expire = 0, uid = [], loginEndpoint = [], userAgent = [], secret = None,
       transport = (case rt of None \<Rightarrow> DefaultTransport env | Some r \<Rightarrow> r)\<rparr> s = (Inr t0, s1)"
    "t = t0\<lparr>expire := (if sint (expire t0) < 1 then 432000000000000 else expire t0), token := tok\<rparr>"
proof -
  let ?t = "\<lparr>token = [], expire = 0, uid = [], loginEndpoint = [], userAgent = [], secret = None,
       transport = (case rt of None \<Rightarrow> DefaultTransport env | Some r \<Rightarrow> r)\<rparr>"
  obtain t0 s1 where a: "apply_rt_opts opts ?t s = (Inr t0, s1)"
    using assms by (auto simp: NewRoundTripper_def Let_def split: prod.splits sum.splits)
  let ?t1 = "t0\<lparr>expire := (if sint (expire t0) < 1 then 432000000000000 else expire t0)\<rparr>"
  have "(if sint (expire t0) < 1 then t0\<lparr>expire := 3600000000000 * 24 * 5\<rparr> else t0) = ?t1" by simp
  then have "\<exists>s2. GenerateToken env ?t1 s1 = (None, t, s2)"
    using assms a by (auto simp: NewRoundTripper_def Let_def split: prod.splits option.splits)
  then obtain s2 where "GenerateToken env ?t1 s1 = (None, t, s2)" ..
  from GenerateToken_ok [OF this] obtain tok where "t = ?t1\<lparr>token := tok\<rparr>" ..
  with a show thesis by (rule that)
qed

text \<open>
  C23: what \<open>NewRoundTripper\<close> guarantees of its result, for the exported options: it uses the given
  transport (or the default one); its tokens are valid for a positive time, the one of the last
  \<open>OptionTokenExpire\<close> when there is one; and it has a key exactly when credentials were given, which then
  come with a user and a login endpoint.
\<close>

theorem NewRoundTripper_well_formed:
  assumes "NewRoundTripper env rt (map (\<lambda>opt. Some (rt_fun env opt)) opts) s = (Inr t, s')"
  shows "transport t = (case rt of None \<Rightarrow> DefaultTransport env | Some r \<Rightarrow> r) \<and> 1 \<le> sint (expire t) \<and>
    (expiries opts \<noteq> [] \<longrightarrow> expire t = last (expiries opts)) \<and>
    (secret t \<noteq> None \<longleftrightarrow> list_ex gives_secret opts) \<and> rt_inv t"
proof -
  from NewRoundTripper_ok [OF assms] obtain t0 s1 tok where
    a: "apply_rt_opts (map (\<lambda>opt. Some (rt_fun env opt)) opts)
      \<lparr>token = [], expire = 0, uid = [], loginEndpoint = [], userAgent = [], secret = None,
       transport = (case rt of None \<Rightarrow> DefaultTransport env | Some r \<Rightarrow> r)\<rparr> s = (Inr t0, s1)"
    and t: "t = t0\<lparr>expire := (if sint (expire t0) < 1 then 432000000000000 else expire t0), token := tok\<rparr>" by blast
  have "expire t = last (expiries opts) \<and> 1 \<le> sint (expire t)" if "expiries opts \<noteq> []"
    using apply_rt_opts_ok [OF a] t that last_in_set [OF that] by fastforce
  moreover have "1 \<le> sint (expire t)" if "expiries opts = []"
    using apply_rt_opts_ok [OF a] t that by (simp add: sint64)
  ultimately show ?thesis using apply_rt_opts_ok [OF a] t by (auto simp: rt_inv_def)
qed

theorem NewRoundTripper_well_formed_witness:
  "\<exists>t s'. NewRoundTripper demo_tr None (map (\<lambda>opt. Some (rt_fun demo_tr opt)) [TokenExpire 5, ReadIAMConfig ''cfg'', TokenExpire 7]) ([], 1) =
     (Inr t, s') \<and> expire t = 7 \<and> secret t \<noteq> None"
proof -
  have "\<exists>t s'. NewRoundTripper demo_tr None (map (\<lambda>opt. Some (rt_fun demo_tr opt)) [TokenExpire 5, ReadIAMConfig ''cfg'', TokenExpire 7]) ([], 1) =
     (Inr t, s')"
    by (simp add: NewRoundTripper_def OptionReadIAMConfig_def OptionCredentials_def OptionTokenExpire_def GenerateToken_def
        demo_tr_def demo_server_def recording_def Let_def)
  then obtain t s' where t: "NewRoundTripper demo_tr None (map (\<lambda>opt. Some (rt_fun demo_tr opt))
     [TokenExpire 5, ReadIAMConfig ''cfg'', TokenExpire 7]) ([], 1) = (Inr t, s')" by blast
  with NewRoundTripper_well_formed [OF t] show ?thesis by (intro exI [of _ t] exI [of _ s']) simp
qed

text \<open>
  Without that option the tokens are valid for five days. The comment of \<open>OptionTokenExpire\<close> says that the default is
  24 hours.
\<close>

lemma NewRoundTripper_default_expire:
  assumes "NewRoundTripper env rt (map (\<lambda>opt. Some (rt_fun env opt)) opts) s = (Inr t, s')" "expiries opts = []"
  shows "sint (expire t) = 5 * 24 * 60 * 60 * 1000000000"
proof -
  from NewRoundTripper_ok [OF assms(1)] obtain t0 s1 tok where
    a: "apply_rt_opts (map (\<lambda>opt. Some (rt_fun env opt)) opts)
      \<lparr>token = [], expire = 0, uid = [], loginEndpoint = [], userAgent = [], secret = None,
       transport = (case rt of None \<Rightarrow> DefaultTransport env | Some r \<Rightarrow> r)\<rparr> s = (Inr t0, s1)"
    and t: "t = t0\<lparr>expire := (if sint (expire t0) < 1 then 432000000000000 else expire t0), token := tok\<rparr>" by blast
  show ?thesis using apply_rt_opts_ok [OF a] t assms(2) by (simp add: sint64)
qed

lemma apply_tr_opts_ok:
  "apply_tr_opts (map tr_fun opts) t = Inr t' \<Longrightarrow>
   (CaCertificatePath t' \<noteq> [] \<longleftrightarrow> CaCertificatePath t \<noteq> [] \<or> (\<exists>p. CaCertificate p \<in> set opts)) \<and>
   (IAMConfigPath t' \<noteq> [] \<longleftrightarrow> IAMConfigPath t \<noteq> [] \<or> (\<exists>p. IAMConfig p \<in> set opts))"
proof (induction opts arbitrary: t)
  case (Cons opt opts)
  show ?case
  proof (cases opt)
    case (CaCertificate p)
    with Cons.prems have "p \<noteq> []" "apply_tr_opts (map tr_fun opts) (t\<lparr>CaCertificatePath := p\<rparr>) = Inr t'"
      by (auto simp: OptionCaCertificatePath_def errorOnEmpty_def split: if_splits)
    with Cons.IH [OF this(2)] CaCertificate show ?thesis by auto
  next
    case (IAMConfig p)
    with Cons.prems have "p \<noteq> []" "apply_tr_opts (map tr_fun opts) (t\<lparr>IAMConfigPath := p\<rparr>) = Inr t'"
      by (auto simp: OptionIAMConfigPath_def errorOnEmpty_def split: if_splits)
    with Cons.IH [OF this(2)] IAMConfig show ?thesis by auto
  qed
qed simp

lemma configureTLS_ok:
  "configureTLS env path s = (Inr tr, s') \<Longrightarrow>
   (InsecureSkipVerify (TLSClientConfig tr) \<longleftrightarrow> path = []) \<and>
   (case RootCAs (TLSClientConfig tr) of None \<Rightarrow> path = [] | Some pool \<Rightarrow> path \<noteq> [] \<and> pool \<noteq> [])"
  by (auto simp: configureTLS_def loadCAPool_def Let_def split: if_splits prod.splits sum.splits)

text \<open>
  C22: certificates. A transport that \<open>NewTransport\<close> returns, alone or below the round tripper that logs
  in, verifies the certificates of its servers exactly when a CA certificate option was given,
  and then against a non-empty pool; it logs in exactly when an IAM configuration was given.
\<close>

theorem NewTransport_verifies:
  assumes "NewTransport env (map tr_fun opts) s = (Inr r, s')"
  shows "\<exists>tr. (r = HTTPTransport tr \<and> (\<forall>p. IAMConfig p \<notin> set opts) \<or>
       (\<exists>t. r = Roundtripper t \<and> transport t = Via env tr \<and> secret t \<noteq> None) \<and> (\<exists>p. IAMConfig p \<in> set opts)) \<and>
    (InsecureSkipVerify (TLSClientConfig tr) \<longleftrightarrow> (\<forall>p. CaCertificate p \<notin> set opts)) \<and>
    (\<forall>p. CaCertificate p \<in> set opts \<longrightarrow> (\<exists>pool. RootCAs (TLSClientConfig tr) = Some pool \<and> pool \<noteq> []))"
proof -
  from assms obtain t where t: "apply_tr_opts (map tr_fun opts) \<lparr>CaCertificatePath = [], IAMConfigPath = []\<rparr> = Inr t"
    by (auto simp: NewTransport_def split: sum.splits)
  with assms obtain tr s1 where tr: "configureTLS env (CaCertificatePath t) s = (Inr tr, s1)"
    by (auto simp: NewTransport_def split: sum.splits prod.splits)
  note opts = apply_tr_opts_ok [OF t] configureTLS_ok [OF tr]
  have "r = HTTPTransport tr \<and> IAMConfigPath t = [] \<or>
      (\<exists>u. r = Roundtripper u \<and> transport u = Via env tr \<and> secret u \<noteq> None) \<and> IAMConfigPath t \<noteq> []"
  proof (cases "IAMConfigPath t = []")
    case True
    with assms t tr show ?thesis by (simp add: NewTransport_def)
  next
    case False
    with assms t tr obtain u s2 where u: "r = Roundtripper u"
      "NewRoundTripper env (Some (Via env tr)) [Some (OptionReadIAMConfig env (IAMConfigPath t))] s1 = (Inr u, s2)"
      by (auto simp: NewTransport_def split: sum.splits prod.splits)
    then have "NewRoundTripper env (Some (Via env tr)) (map (\<lambda>opt. Some (rt_fun env opt)) [ReadIAMConfig (IAMConfigPath t)]) s1 = (Inr u, s2)"
      by simp
    from NewRoundTripper_ok [OF this, unfolded option.case] obtain u0 s3 tok where
      a: "apply_rt_opts (map (\<lambda>opt. Some (rt_fun env opt)) [ReadIAMConfig (IAMConfigPath t)])
        \<lparr>token = [], expire = 0, uid = [], loginEndpoint = [], userAgent = [], secret = None, transport = Via env tr\<rparr> s1 = (Inr u0, s3)"
      and "u = u0\<lparr>expire := (if sint (expire u0) < 1 then 432000000000000 else expire u0), token := tok\<rparr>"
      by blast
    with apply_rt_opts_ok [OF a] u(1) False show ?thesis by auto
  qed
  with opts show ?thesis by (intro exI [of _ tr]) (auto split: option.splits)
qed

theorem NewTransport_verifies_witness:
  "\<exists>tr. NewTransport demo_tr (map tr_fun [CaCertificate ''ca'']) ([], 1) = (Inr (HTTPTransport tr), ([], 1)) \<and>
     \<not> InsecureSkipVerify (TLSClientConfig tr)"
proof -
  have r: "NewTransport demo_tr (map tr_fun [CaCertificate ''ca'']) ([], 1) =
      (Inr (HTTPTransport \<lparr>TLSClientConfig = \<lparr>RootCAs = Some [''ca''], InsecureSkipVerify = False\<rparr>\<rparr>), ([], 1))"
    by (simp add: NewTransport_def OptionCaCertificatePath_def errorOnEmpty_def configureTLS_def loadCAPool_def demo_tr_def)
  from NewTransport_verifies [OF r] r show ?thesis by auto
qed

end
