(* ===== verification/Go_Select.thy ===== *)
theory Go_Select
  imports Go_Prelude
begin

text \<open>
  Go's \<open>select\<close> in a loop with a deadline. What it chooses in each round is a schedule, a function from the number
  of the round to the outcome. A loop of this kind returns when a round wins, with one result, or when a
  round loses, with another, and goes on otherwise; it may go on forever. The contract is stated and its consequences
  are proved once, for the loops of the packages that have this form.
\<close>

type_synonym duration = int64 \<comment> \<open>\<open>time.Duration\<close>, in nanoseconds\<close>

locale first_of =
  fixes wait :: "(nat \<Rightarrow> 'o) \<Rightarrow> nat \<Rightarrow> 'r option"
    and won :: "'o \<Rightarrow> bool" and lost :: "'o \<Rightarrow> bool" and good :: 'r and bad :: 'r
  assumes on_won: "won (sel i) \<Longrightarrow> wait sel i = Some good"
    and on_lost: "lost (sel i) \<Longrightarrow> wait sel i = Some bad"
    and on_other: "\<not> won (sel i) \<Longrightarrow> \<not> lost (sel i) \<Longrightarrow> wait sel i = wait sel (Suc i)"
    and returns_only: "wait sel i = Some r \<Longrightarrow> \<exists>k \<ge> i. won (sel k) \<or> lost (sel k)"
    and exclusive: "won x \<Longrightarrow> \<not> lost x"
begin

lemma skip:
  "(\<And>j. j < k \<Longrightarrow> \<not> won (sel j) \<and> \<not> lost (sel j)) \<Longrightarrow> i \<le> k \<Longrightarrow> wait sel i = wait sel k"
proof (induction "k - i" arbitrary: i)
  case (Suc n)
  then have "wait sel (Suc i) = wait sel k" by (intro Suc.hyps(1)) simp_all
  with Suc show ?case using on_other [of sel i] by simp
qed simp

lemma never: "(\<And>k. \<not> won (sel k) \<and> \<not> lost (sel k)) \<Longrightarrow> wait sel 0 = None"
  using returns_only [of sel 0] by (cases "wait sel 0") auto

lemma first_round:
  assumes "won (sel k) \<or> lost (sel k)"
  shows "\<exists>l. (won (sel l) \<or> lost (sel l)) \<and> (\<forall>j < l. \<not> won (sel j) \<and> \<not> lost (sel j)) \<and>
    wait sel 0 = Some (if won (sel l) then good else bad)"
proof -
  let ?P = "\<lambda>j. won (sel j) \<or> lost (sel j)"
  obtain l where l: "?P l" "\<And>j. j < l \<Longrightarrow> \<not> ?P j"
    using assms LeastI [of ?P k] not_less_Least [of _ ?P] by blast
  then have "wait sel 0 = wait sel l" by (intro skip) auto
  then have "wait sel 0 = Some (if won (sel l) then good else bad)"
    using l(1) on_won [of sel l] on_lost [of sel l] by auto
  with l show ?thesis by (intro exI [of _ l]) auto
qed

lemma returns:
  assumes "won (sel k) \<or> lost (sel k)"
  shows "wait sel 0 = Some (if \<exists>i. won (sel i) \<and> (\<forall>j \<le> i. \<not> lost (sel j)) then good else bad)"
proof -
  obtain l where l: "won (sel l) \<or> lost (sel l)" "\<And>j. j < l \<Longrightarrow> \<not> won (sel j) \<and> \<not> lost (sel j)"
    "wait sel 0 = Some (if won (sel l) then good else bad)"
    using first_round [of sel k, OF assms] by blast
  have "won (sel l) \<longleftrightarrow> (\<exists>i. won (sel i) \<and> (\<forall>j \<le> i. \<not> lost (sel j)))"
  proof
    assume w: "won (sel l)"
    then have "\<not> lost (sel j)" if "j \<le> l" for j
      using that l(2) [of j] exclusive [of "sel l"] by (cases "j = l") auto
    with w show "\<exists>i. won (sel i) \<and> (\<forall>j \<le> i. \<not> lost (sel j))" by blast
  next
    assume "\<exists>i. won (sel i) \<and> (\<forall>j \<le> i. \<not> lost (sel j))"
    then obtain i where i: "won (sel i)" "\<And>j. j \<le> i \<Longrightarrow> \<not> lost (sel j)" by blast
    then have "l \<le> i" using l(2) [of i] by (force simp: not_less [symmetric])
    then show "won (sel l)" using l(1) i(2) [of l] by blast
  qed
  with l(3) show ?thesis by simp
qed

lemma result:
  "wait sel 0 =
     (if \<exists>k. won (sel k) \<or> lost (sel k)
      then Some (if \<exists>i. won (sel i) \<and> (\<forall>j \<le> i. \<not> lost (sel j)) then good else bad) else None)"
proof (cases "\<exists>k. won (sel k) \<or> lost (sel k)")
  case True
  then obtain k where "won (sel k) \<or> lost (sel k)" by blast
  from returns [of sel k, OF this] True show ?thesis by (simp only: if_True)
next
  case False
  then show ?thesis using never [of sel] by auto
qed

end

text \<open>How the fourth law is proved: by induction on the computation, whose step is this one.\<close>

lemma round_returns:
  assumes "\<And>r. f sel (Suc i) = Some r \<Longrightarrow> \<exists>k \<ge> Suc i. P (sel k)" "\<not> P (sel i) \<Longrightarrow> f sel (Suc i) = Some r"
  shows "\<exists>k \<ge> i. P (sel k)"
  using assms by (cases "P (sel i)") (auto dest: Suc_leD)

end
