(* ===== verification/Connectors.thy ===== *)
theory Connectors
  imports Go_Select Elector_Machine Zkstore_Races
begin

text \<open>
  The connectors of packages \<open>elector\<close> and \<open>zkstore\<close> (\<open>connector.go\<close>, \<open>connector_new.go\<close>,
  \<open>connector_existing.go\<close> of each), which are two copies of the same code: opening a connection,
  waiting for its session, and closing it once. The function \<open>zk.Connect\<close>, which starts the goroutines of the
  client, and the channels they serve are parameters; a connection is a number. An error of \<open>zk.Connect\<close> is
  its message.
\<close>

section \<open>Waiting for a session\<close>

definition defaultConnectTimeout :: duration where "defaultConnectTimeout = 5 * 1000000000"

definition defaultInitialSessionTimeout :: duration where "defaultInitialSessionTimeout = 5 * 1000000000"

definition durationOrDefault :: "duration \<Rightarrow> duration \<Rightarrow> duration" where
  "durationOrDefault d dflt = (if d \<noteq> 0 then d else dflt)"

text \<open>
  What the \<open>select\<close> of \<open>waitForSession\<close> chooses in its \<open>i\<close>-th round. The result \<open>None\<close> is a loop that does
  not end, which happens when the timer never fires.
\<close>

datatype select_outcome = GotEvent zk_event | TimerFired

partial_function (option) waitForSession ::
  "(nat \<Rightarrow> select_outcome) \<Rightarrow> nat \<Rightarrow> elector_error option option" where
  "waitForSession sel i =
     (case sel i of
        GotEvent e \<Rightarrow> if EventState e = StateHasSession then Some None else waitForSession sel (Suc i)
      | TimerFired \<Rightarrow> Some (Some (EErr ''timed out'')))"

fun has_session :: "select_outcome \<Rightarrow> bool" where
  "has_session (GotEvent e) \<longleftrightarrow> EventState e = StateHasSession"
| "has_session TimerFired \<longleftrightarrow> False"

lemma round_goes_on:
  "\<not> (has_session x \<or> x = TimerFired) \<Longrightarrow>
   (case x of GotEvent e \<Rightarrow> if EventState e = StateHasSession then a else b | TimerFired \<Rightarrow> c) = b"
  by (cases x) simp_all

lemma waitForSession_returns_only:
  "waitForSession sel i = Some r \<Longrightarrow> \<exists>k \<ge> i. has_session (sel k) \<or> sel k = TimerFired"
proof (erule waitForSession.raw_induct [of "\<lambda>sel i r. \<exists>k \<ge> i. has_session (sel k) \<or> sel k = TimerFired", rotated], goal_cases)
  case (1 f sel i r)
  then show ?case
    by (intro round_returns [of f sel i "\<lambda>x. has_session x \<or> x = TimerFired" r]) (simp_all add: round_goes_on)
qed

interpretation ew: first_of waitForSession has_session "\<lambda>x. x = TimerFired" None "Some (EErr ''timed out'')"
proof (unfold_locales, goal_cases)
  case (4 sel i r)
  then show ?case by (rule waitForSession_returns_only)
qed ((subst waitForSession.simps)?, auto split: select_outcome.splits)+

section \<open>Connections\<close>

record 's zk_library =
  zk_Connect :: "string list \<Rightarrow> duration \<Rightarrow> 's \<Rightarrow> (string + nat) \<times> 's"
  zk_AddAuth :: "nat \<Rightarrow> string \<Rightarrow> bytes \<Rightarrow> 's \<Rightarrow> zk_error option \<times> 's"
  zk_select :: "nat \<Rightarrow> duration \<Rightarrow> 's \<Rightarrow> (nat \<Rightarrow> select_outcome) \<times> 's"
  zk_Close :: "nat \<Rightarrow> 's \<Rightarrow> 's"

record ConnectionOpts =
  ConnectTimeout :: duration
  InitialSessionTimeout :: duration
  AuthSchema :: string
  AuthSecret :: bytes

record newConnection =
  nc_addrs :: "string list"
  nc_opts :: ConnectionOpts
  nc_conn :: "nat option"
  nc_once :: bool \<comment> \<open>\<open>once\<close> has run\<close>

definition NewConnection :: "string list \<Rightarrow> ConnectionOpts \<Rightarrow> newConnection" where
  "NewConnection addrs opts = \<lparr>nc_addrs = addrs, nc_opts = opts, nc_conn = None, nc_once = False\<rparr>"

definition newConnection_Connect ::
  "'s zk_library \<Rightarrow> newConnection \<Rightarrow> 's \<Rightarrow> ((elector_error + nat) \<times> newConnection \<times> 's) option" where
  "newConnection_Connect lib c s =
     (let connectTimeout = durationOrDefault (ConnectTimeout (nc_opts c)) defaultConnectTimeout in
      case zk_Connect lib (nc_addrs c) connectTimeout s of
        (Inl err, s1) \<Rightarrow> Some (Inl (EWrap ''connection failed'' (EErr err)), c, s1)
      | (Inr k, s1) \<Rightarrow>
          (case if AuthSchema (nc_opts c) \<noteq> [] \<or> length (AuthSchema (nc_opts c)) > 0
                then zk_AddAuth lib k (AuthSchema (nc_opts c)) (AuthSecret (nc_opts c)) s1 else (None, s1) of
             (Some err, s2) \<Rightarrow> Some (Inl (EWrap ''authentication failed'' (EZk err)), c, s2)
           | (None, s2) \<Rightarrow>
               let c1 = c\<lparr>nc_conn := Some k\<rparr>;
                   sessionWaitTimeout = durationOrDefault (InitialSessionTimeout (nc_opts c)) defaultInitialSessionTimeout
               in case zk_select lib k sessionWaitTimeout s2 of (sel, s3) \<Rightarrow>
                  (case waitForSession sel 0 of
                     None \<Rightarrow> None
                   | Some (Some err) \<Rightarrow> Some (Inl (EWrap ''session could not be established'' err), c1, s3)
                   | Some None \<Rightarrow> Some (Inr k, c1, s3))))"

text \<open>\<open>Close\<close> returns nil; the first component says whether it panics (the connection is nil).\<close>

definition newConnection_Close :: "'s zk_library \<Rightarrow> newConnection \<Rightarrow> 's \<Rightarrow> bool \<times> newConnection \<times> 's" where
  "newConnection_Close lib c s =
     (if nc_once c then (False, c, s)
      else case nc_conn c of
             None \<Rightarrow> (True, c\<lparr>nc_once := True\<rparr>, s)
           | Some k \<Rightarrow> (False, c\<lparr>nc_once := True\<rparr>, zk_Close lib k s))"

definition existingConnection :: "'s Conn \<Rightarrow> 's Elector_Machine.Connector" where
  "existingConnection c = \<lparr>Connector.Connect = (\<lambda>s. (Inr c, s)), Connector.Close = (\<lambda>s. (None, s))\<rparr>"

record 's ConnAdapter =
  GetF :: "string \<Rightarrow> 's \<Rightarrow> (bytes \<times> elector_error option) \<times> 's"
  ExistsF :: "string \<Rightarrow> 's \<Rightarrow> (bool \<times> elector_error option) \<times> 's"
  CreateF :: "string \<Rightarrow> bytes \<Rightarrow> int32 \<Rightarrow> ACL list \<Rightarrow> 's \<Rightarrow> (string \<times> elector_error option) \<times> 's"
  CreateProtectedEphemeralSequentialF :: "string \<Rightarrow> bytes \<Rightarrow> ACL list \<Rightarrow> 's \<Rightarrow> (string \<times> elector_error option) \<times> 's"
  ChildrenWF :: "string \<Rightarrow> 's \<Rightarrow> (string list \<times> elector_error option) \<times> 's"

definition ConnAdapter_Conn :: "'s ConnAdapter \<Rightarrow> 's Conn" where
  "ConnAdapter_Conn c =
     \<lparr>Conn.Get = (\<lambda>path. GetF c path), Exists = (\<lambda>path. ExistsF c path),
      Create = (\<lambda>path data flags acls. CreateF c path data flags acls),
      CreateProtectedEphemeralSequential = (\<lambda>path data acls. CreateProtectedEphemeralSequentialF c path data acls),
      ChildrenW = (\<lambda>path. ChildrenWF c path)\<rparr>"

section \<open>The connector of zkstore\<close>

definition zs_defaultConnectTimeout :: duration where "zs_defaultConnectTimeout = 5 * 1000000000"

definition zs_defaultInitialSessionTimeout :: duration where "zs_defaultInitialSessionTimeout = 5 * 1000000000"

definition zs_durationOrDefault :: "duration \<Rightarrow> duration \<Rightarrow> duration" where
  "zs_durationOrDefault d dflt = (if d \<noteq> 0 then d else dflt)"

partial_function (option) zs_waitForSession ::
  "(nat \<Rightarrow> select_outcome) \<Rightarrow> nat \<Rightarrow> store_error option option" where
  "zs_waitForSession sel i =
     (case sel i of
        GotEvent e \<Rightarrow> if EventState e = StateHasSession then Some None else zs_waitForSession sel (Suc i)
      | TimerFired \<Rightarrow> Some (Some (ErrNew ''timed out'')))"

definition zs_Connect ::
  "'s zk_library \<Rightarrow> newConnection \<Rightarrow> 's \<Rightarrow> ((store_error + nat) \<times> newConnection \<times> 's) option" where
  "zs_Connect lib c s =
     (let connectTimeout = zs_durationOrDefault (ConnectTimeout (nc_opts c)) zs_defaultConnectTimeout in
      case zk_Connect lib (nc_addrs c) connectTimeout s of
        (Inl err, s1) \<Rightarrow> Some (Inl (Wrapped ''connection failed'' (ErrNew err)), c, s1)
      | (Inr k, s1) \<Rightarrow>
          (case if AuthSchema (nc_opts c) \<noteq> [] \<or> length (AuthSchema (nc_opts c)) > 0
                then zk_AddAuth lib k (AuthSchema (nc_opts c)) (AuthSecret (nc_opts c)) s1 else (None, s1) of
             (Some err, s2) \<Rightarrow> Some (Inl (Wrapped ''authentication failed'' (ZkErr err)), c, s2)
           | (None, s2) \<Rightarrow>
               let c1 = c\<lparr>nc_conn := Some k\<rparr>;
                   sessionWaitTimeout = zs_durationOrDefault (InitialSessionTimeout (nc_opts c)) zs_defaultInitialSessionTimeout
               in case zk_select lib k sessionWaitTimeout s2 of (sel, s3) \<Rightarrow>
                  (case zs_waitForSession sel 0 of
                     None \<Rightarrow> None
                   | Some (Some err) \<Rightarrow> Some (Inl (Wrapped ''session could not be established'' err), c1, s3)
                   | Some None \<Rightarrow> Some (Inr k, c1, s3))))"

definition zs_Close :: "'s zk_library \<Rightarrow> newConnection \<Rightarrow> 's \<Rightarrow> bool \<times> newConnection \<times> 's" where
  "zs_Close lib c s =
     (if nc_once c then (False, c, s)
      else case nc_conn c of
             None \<Rightarrow> (True, c\<lparr>nc_once := True\<rparr>, s)
           | Some k \<Rightarrow> (False, c\<lparr>nc_once := True\<rparr>, zk_Close lib k s))"

definition zs_existingConnection :: "'s session \<Rightarrow> 's Zkstore_Store.Connector" where
  "zs_existingConnection c = \<lparr>Connector_Connect = (\<lambda>s. (Inr c, s)), Connector_Close = (\<lambda>s. (None, s))\<rparr>"

section \<open>Both copies\<close>

fun store_error_of :: "elector_error \<Rightarrow> store_error" where
  "store_error_of (EErr m) = ErrNew m"
| "store_error_of (EWrap m e) = Wrapped m (store_error_of e)"
| "store_error_of (EZk e) = ZkErr e"
| "store_error_of (EConnector m) = ErrNew m"

lemma zs_waitForSession_returns_only:
  "zs_waitForSession sel i = Some r \<Longrightarrow> \<exists>k \<ge> i. has_session (sel k) \<or> sel k = TimerFired"
proof (erule zs_waitForSession.raw_induct [of "\<lambda>sel i r. \<exists>k \<ge> i. has_session (sel k) \<or> sel k = TimerFired", rotated], goal_cases)
  case (1 f sel i r)
  then show ?case
    by (intro round_returns [of f sel i "\<lambda>x. has_session x \<or> x = TimerFired" r]) (simp_all add: round_goes_on)
qed

interpretation zw: first_of zs_waitForSession has_session "\<lambda>x. x = TimerFired" None "Some (ErrNew ''timed out'')"
proof (unfold_locales, goal_cases)
  case (4 sel i r)
  then show ?case by (rule zs_waitForSession_returns_only)
qed ((subst zs_waitForSession.simps)?, auto split: select_outcome.splits)+

lemma waits_agree: "zs_waitForSession sel 0 = map_option (map_option store_error_of) (waitForSession sel 0)"
  unfolding ew.result zw.result by (simp only: if_distrib [of "map_option _"] option.map store_error_of.simps)

section \<open>Properties\<close>

lemmas connect_defs = newConnection_Connect_def NewConnection_def Let_def

definition opens :: "'s zk_library \<Rightarrow> string list \<Rightarrow> ConnectionOpts \<Rightarrow> 's \<Rightarrow> nat \<Rightarrow> bool" where
  "opens lib addrs opts s k \<longleftrightarrow>
     fst (zk_Connect lib addrs (durationOrDefault (ConnectTimeout opts) defaultConnectTimeout) s) = Inr k"

text \<open>What \<open>Connect\<close> of a fresh connector can return, and what it leaves in the connector.\<close>

lemma Connect_cases:
  assumes "newConnection_Connect lib (NewConnection addrs opts) s = Some (r, c, s1)"
  obtains (refused) e where "r = Inl (EWrap ''connection failed'' e)" "c = NewConnection addrs opts"
  | (denied) e where "r = Inl (EWrap ''authentication failed'' e)" "c = NewConnection addrs opts"
  | (late) e k where "r = Inl (EWrap ''session could not be established'' e)"
      "c = (NewConnection addrs opts)\<lparr>nc_conn := Some k\<rparr>" "opens lib addrs opts s k"
  | (up) k where "r = Inr k" "c = (NewConnection addrs opts)\<lparr>nc_conn := Some k\<rparr>" "opens lib addrs opts s k"
  using assms
  by (auto simp: connect_defs opens_def split: sum.splits prod.splits option.splits if_splits)

definition close_ok :: "'s zk_library \<Rightarrow> newConnection \<Rightarrow> nat \<Rightarrow> bool" where
  "close_ok lib c k \<longleftrightarrow>
     (\<forall>s. newConnection_Close lib c s = (False, c\<lparr>nc_once := True\<rparr>, zk_Close lib k s) \<and>
          newConnection_Close lib (c\<lparr>nc_once := True\<rparr>) s = (False, c\<lparr>nc_once := True\<rparr>, s))"

lemma close_ok_held: "close_ok lib ((NewConnection addrs opts)\<lparr>nc_conn := Some k\<rparr>) k"
  by (simp add: close_ok_def newConnection_Close_def NewConnection_def)

lemma close_unset: "fst (newConnection_Close lib (NewConnection addrs opts) s)"
  by (simp add: newConnection_Close_def NewConnection_def)

text \<open>
  C24: the life of a new connection. After a successful \<open>Connect\<close> the connector holds the returned connection:
  \<open>Close\<close> closes it, and a second \<open>Close\<close> does nothing. After a session that did not come up it
  still holds one, and \<open>Close\<close> closes that. When the connection or its authentication failed it holds none, and
  \<open>Close\<close> panics on the nil connection.
\<close>

theorem newConnection_lifecycle:
  assumes "newConnection_Connect lib (NewConnection addrs opts) s = Some (r, c, s1)"
  shows "case r of
     Inr k \<Rightarrow> opens lib addrs opts s k \<and> close_ok lib c k
   | Inl err \<Rightarrow>
       (\<exists>e k. err = EWrap ''session could not be established'' e \<and> opens lib addrs opts s k \<and> close_ok lib c k)
     \<or> (\<exists>e. err \<in> {EWrap ''connection failed'' e, EWrap ''authentication failed'' e} \<and>
            (\<forall>s2. fst (newConnection_Close lib c s2)))"
  using assms by (cases rule: Connect_cases) (auto simp: close_unset intro: close_ok_held)

text \<open>A library for examples: its state is the list of the open connections.\<close>

definition example_library :: "zk_error option \<Rightarrow> select_outcome list \<Rightarrow> nat list zk_library" where
  "example_library auth outcomes =
     \<lparr>zk_Connect = (\<lambda>addrs d opened. (Inr (length opened), length opened # opened)),
      zk_AddAuth = (\<lambda>k scheme secret opened. (auth, opened)),
      zk_select = (\<lambda>k d opened. (\<lambda>i. if i < length outcomes then outcomes ! i else TimerFired, opened)),
      zk_Close = (\<lambda>k opened. remove1 k opened)\<rparr>"

definition example_opts :: ConnectionOpts where
  "example_opts = \<lparr>ConnectTimeout = 0, InitialSessionTimeout = 7, AuthSchema = ''digest'', AuthSecret = ''u:p''\<rparr>"

theorem newConnection_lifecycle_witness:
  "let lib = example_library (Some ErrAuthFailed) []; c = NewConnection [''zk''] example_opts;
       err = EWrap ''authentication failed'' (EZk ErrAuthFailed) in
   newConnection_Connect lib c [] = Some (Inl err, c, [0]) \<and> fst (newConnection_Close lib c [0])"
proof -
  let ?lib = "example_library (Some ErrAuthFailed) []" and ?c = "NewConnection [''zk''] example_opts"
  have run: "newConnection_Connect ?lib ?c [] =
      Some (Inl (EWrap ''authentication failed'' (EZk ErrAuthFailed)), ?c, [0])"
    by (simp add: connect_defs example_library_def example_opts_def)
  show ?thesis using run newConnection_lifecycle [OF run] by (simp add: Let_def)
qed

text \<open>
  C25: \<open>Connect\<close> of a new connection always returns when the timer of the session wait eventually fires, and it
  returns a connection exactly when \<open>zk.Connect\<close> and \<open>AddAuth\<close> succeed and an event with state
  \<open>StateHasSession\<close> is received before the timer fires.
\<close>

theorem newConnection_returns:
  assumes "sel n = TimerFired"
    and "zk_Connect lib addrs (durationOrDefault (ConnectTimeout opts) defaultConnectTimeout) s = (Inr k, s1)"
    and "(if AuthSchema opts = [] then (None, s1) else zk_AddAuth lib k (AuthSchema opts) (AuthSecret opts) s1) = (None, s2)"
    and "zk_select lib k (durationOrDefault (InitialSessionTimeout opts) defaultInitialSessionTimeout) s2 = (sel, s3)"
  shows "\<exists>r c. newConnection_Connect lib (NewConnection addrs opts) s = Some (r, c, s3) \<and>
     (r = Inr k \<longleftrightarrow> (\<exists>i. has_session (sel i) \<and> (\<forall>j \<le> i. sel j \<noteq> TimerFired)))"
proof -
  define up where "up \<longleftrightarrow> (\<exists>i. has_session (sel i) \<and> (\<forall>j \<le> i. sel j \<noteq> TimerFired))"
  have "waitForSession sel 0 = Some (if up then None else Some (EErr ''timed out''))"
    unfolding up_def using assms(1) by (intro ew.returns [of sel n]) simp
  then show ?thesis unfolding up_def [symmetric] using assms(2-4)
    by (cases "AuthSchema opts = []"; cases up) (simp_all add: connect_defs)
qed

definition session_event :: zk_event where
  "session_event = \<lparr>EventType = -1, EventState = StateHasSession, EventPath = [], EventErr = None, EventServer = []\<rparr>"

theorem newConnection_returns_witness:
  "\<exists>c. newConnection_Connect (example_library None [GotEvent session_event]) (NewConnection [''zk''] example_opts) []
     = Some (Inr 0, c, [0])"
proof -
  let ?sel = "\<lambda>i. if i < length [GotEvent session_event] then [GotEvent session_event] ! i else TimerFired"
  have at: "\<exists>i. has_session (?sel i) \<and> (\<forall>j \<le> i. ?sel j \<noteq> TimerFired)"
    by (rule exI [of _ 0]) (simp add: session_event_def)
  have run: "\<exists>r c. newConnection_Connect (example_library None [GotEvent session_event])
      (NewConnection [''zk''] example_opts) [] = Some (r, c, [0]) \<and>
      (r = Inr 0 \<longleftrightarrow> (\<exists>i. has_session (?sel i) \<and> (\<forall>j \<le> i. ?sel j \<noteq> TimerFired)))"
    by (rule newConnection_returns [of ?sel 1 _ _ _ _ 0 "[0]" "[0]"])
      (simp_all add: example_library_def example_opts_def)
  then show ?thesis using at by blast
qed

text \<open>
  C26: the connectors of the two packages are the same program: \<open>Connect\<close> of \<open>zkstore\<close> returns the
  connection, the connector and the world that \<open>Connect\<close> of \<open>elector\<close> does, with the same error
  messages, and does not return when that does not; so does \<open>Close\<close>.
\<close>

theorem connectors_agree:
  "zs_Connect lib c s = map_option (map_prod (map_sum store_error_of id) id) (newConnection_Connect lib c s) \<and>
   zs_Close lib c s = newConnection_Close lib c s"
proof
  have same: "zs_durationOrDefault = durationOrDefault" "zs_defaultConnectTimeout = defaultConnectTimeout"
    "zs_defaultInitialSessionTimeout = defaultInitialSessionTimeout"
    by (auto simp: fun_eq_iff zs_durationOrDefault_def durationOrDefault_def zs_defaultConnectTimeout_def
        defaultConnectTimeout_def zs_defaultInitialSessionTimeout_def defaultInitialSessionTimeout_def)
  show "zs_Connect lib c s = map_option (map_prod (map_sum store_error_of id) id) (newConnection_Connect lib c s)"
    by (auto simp: zs_Connect_def newConnection_Connect_def same waits_agree Let_def
        split: sum.splits prod.splits option.splits)
  show "zs_Close lib c s = newConnection_Close lib c s"
    by (simp add: zs_Close_def newConnection_Close_def)
qed

section \<open>The base path of an elector\<close>

text \<open>A connection of an elector whose \<open>Exists\<close> and \<open>Create\<close> are those of the client on a session.\<close>

definition client_of :: "'s session \<Rightarrow> 's Conn \<Rightarrow> bool" where
  "client_of S c \<longleftrightarrow>
     (\<forall>p s. Exists c p s = (case Conn_Exists S p s of ((x, _, e), s') \<Rightarrow> ((x, map_option EZk e), s'))) \<and>
     (\<forall>p d fl a s. Create c p d fl a s = (case Conn_Create S p d fl a s of ((q, e), s') \<Rightarrow> ((q, map_option EZk e), s')))"

lemma client_of_calls:
  assumes "client_of S c"
  shows "Conn_Exists S p s = ((x, st, e), s') \<Longrightarrow> Exists c p s = ((x, map_option EZk e), s')"
    and "Conn_Create S p d fl a s = ((q, e'), s') \<Longrightarrow> Create c p d fl a s = ((q, map_option EZk e'), s')"
  using assms by (simp_all add: client_of_def)

lemma join_root: "path_Join [''/'', []] = abs_path []"
  by code_simp

lemma join_elem:
  assumes "good_elems (pre @ [x])"
  shows "path_Join [abs_path pre, x] = abs_path (pre @ [x])"
  using assms path_Join_abs [of pre "[x]"] good_elems_plain [of pre] by simp

lemma initialize_loop_quiet:
  assumes "zk_quiet S view invar env" "client_of S (Elector.conn e)" "invar s" "good_elems (pre @ suf)" "pre \<in> dom (view s)"
    and "initialize_loop e (abs_path pre) suf s = (r, s')"
  shows "invar s' \<and> r = None \<and> view s' = fill (\<lambda>_. []) (pre @ suf) (view s)"
  using assms(3-6)
proof (induction suf arbitrary: pre s)
  case Nil
  then show ?case using zk_service.view_wf [OF zk_quiet.axioms(1) [OF assms(1)]] by auto
next
  case (Cons x suf)
  let ?p = "pre @ [x]" and ?t = "view s"
  have good: "good_elems ?p" "good_elems (?p @ suf)" using Cons.prems(2) by auto
  obtain ex st err s1 where q: "Conn_Exists S (abs_path ?p) s = ((ex, st, err), s1)" by (metis surj_pair)
  note E = zk_quiet.Conn_Exists_quiet [OF assms(1) Cons.prems(1) good(1) q]
  then have s1: "invar s1" "view s1 = ?t" "err = None" "ex \<longleftrightarrow> ?p \<in> dom ?t" by (auto split: option.splits)
  note exists = client_of_calls(1) [OF assms(2) q]
  show ?case
  proof (cases ex)
    case True
    then have "initialize_loop e (abs_path ?p) suf s1 = (r, s')"
      using Cons.prems(4) exists s1(3) by (simp add: join_elem [OF good(1)] Let_def del: path_Join.simps)
    from Cons.IH [OF s1(1) good(2) _ this] s1 True show ?thesis by simp
  next
    case False
    obtain n err' s2 where c: "Conn_Create S (abs_path ?p) [] 0 (acl e) s1 = ((n, err'), s2)" by (metis prod.exhaust)
    note C = zk_quiet.Conn_Create_quiet [OF assms(1) s1(1) good(1) c]
    then have s2: "invar s2" "err' = None" "view s2 = ?t(?p \<mapsto> ([], 0))"
      using s1 False Cons.prems(3) by auto
    have "initialize_loop e (abs_path ?p) suf s2 = (r, s')"
      using Cons.prems(4) exists s1(3) False client_of_calls(2) [OF assms(2) c] s2(2)
      by (simp add: join_elem [OF good(1)] Let_def del: path_Join.simps)
    moreover have "?p \<in> dom (view s2)" unfolding s2(3) by simp
    ultimately have "invar s' \<and> r = None \<and> view s' = fill (\<lambda>_. []) (?p @ suf) (view s2)"
      by (intro Cons.IH [OF s2(1) good(2)])
    moreover have "fill (\<lambda>_. []) (?p @ suf) (view s2) = fill (\<lambda>_. []) (?p @ suf) ?t"
      unfolding s2(3) using s1 False by (intro fill_step) auto
    ultimately show ?thesis by simp
  qed
qed

lemma initialize_quiet:
  assumes "zk_quiet S view invar env" "client_of S (Elector.conn e)" "invar s"
    and "Elector.basePath e = abs_path es" "good_elems es" "es \<noteq> []" "initialize e s = (err, s')"
  shows "err = None \<and> view s' = fill (\<lambda>_. []) es (view s)"
proof -
  obtain ex st er s1 where q: "Conn_Exists S (abs_path es) s = ((ex, st, er), s1)" by (metis surj_pair)
  note E = zk_quiet.Conn_Exists_quiet [OF assms(1,3,5) q]
  then have s1: "invar s1" "view s1 = view s" "er = None" "ex \<longleftrightarrow> es \<in> dom (view s)" by (auto split: option.splits)
  note wf = zk_service.view_wf [OF zk_quiet.axioms(1) [OF assms(1)]]
  show ?thesis
  proof (cases ex)
    case True
    then have "err = None" "s' = s1"
      using assms(4,7) client_of_calls(1) [OF assms(2) q] s1(3) by (simp_all add: initialize_def)
    then show ?thesis using True s1 wf [OF assms(3)] by auto
  next
    case False
    have split: "Split (abs_path es) CHR ''/'' = [] # es"
      using assms(5,6) by (simp add: Split_abs_path good_elems_plain)
    obtain ex' st' er' s2 where q': "Conn_Exists S (abs_path []) s1 = ((ex', st', er'), s2)" by (metis surj_pair)
    have root: "[] \<in> dom (view s1)" using wf [OF s1(1)] by (simp add: wf_tree_def)
    have s2: "invar s2" "view s2 = view s" "er' = None" "ex'"
      using zk_quiet.Conn_Exists_quiet [OF assms(1) s1(1) _ q'] root s1(2) by (auto split: option.splits)
    have "initialize_loop e (abs_path []) es s2 = (err, s')"
      using assms(4,7) client_of_calls(1) [OF assms(2) q] client_of_calls(1) [OF assms(2) q'] s1(3) s2(3,4) False split
      by (simp add: initialize_def join_root Let_def del: path_Join.simps)
    from initialize_loop_quiet [OF assms(1,2) s2(1) _ _ this] assms(5) root s1(2) s2(2)
    show ?thesis by simp
  qed
qed

text \<open>
  C31: \<open>initialize\<close> creates the base path. When nobody else writes, it returns nil, and afterwards the tree has the
  base path and all its ancestors: those that were missing have been created, empty, and nothing else has changed.
\<close>

theorem initialize_creates:
  assumes "zk_quiet S view invar env" "client_of S (Elector.conn e)" "invar s"
    and "Elector.basePath e = abs_path es" "good_elems es" "es \<noteq> []" "initialize e s = (err, s')"
  shows "err = None \<and> view s' = fill (\<lambda>_. []) es (view s) \<and> es \<in> dom (view s')"
  using initialize_quiet [OF assms] by (auto simp: fill_def)

text \<open>
  The connection to the scripted service. \<open>initialize\<close> calls \<open>Exists\<close> and \<open>Create\<close> only; the service has no
  ephemeral nodes, and the protected creation is a plain one here.
\<close>

definition server_conn :: "server Conn" where
  "server_conn = ConnAdapter_Conn
     \<lparr>GetF = (\<lambda>p s. case Conn_Get server_session p s of ((d, _, e), s') \<Rightarrow> ((d, map_option EZk e), s')),
      ExistsF = (\<lambda>p s. case Conn_Exists server_session p s of ((x, _, e), s') \<Rightarrow> ((x, map_option EZk e), s')),
      CreateF = (\<lambda>p d fl a s. case Conn_Create server_session p d fl a s of ((q, e), s') \<Rightarrow> ((q, map_option EZk e), s')),
      CreateProtectedEphemeralSequentialF =
        (\<lambda>p d a s. case Conn_Create server_session p d (or FlagEphemeral FlagSequence) a s of
                      ((q, e), s') \<Rightarrow> ((q, map_option EZk e), s')),
      ChildrenWF = (\<lambda>p s. case Conn_Children server_session p s of ((cs, _, e), s') \<Rightarrow> ((cs, map_option EZk e), s'))\<rparr>"

lemma server_conn_client: "client_of server_session server_conn"
  by (simp add: client_of_def server_conn_def ConnAdapter_Conn_def)

definition server_elector :: "string \<Rightarrow> server Elector" where
  "server_elector base =
     \<lparr>acl = WorldACL PermAll, conn = server_conn, ident = ''a'', basePath = base, closer = (\<lambda>s. (None, s))\<rparr>"

text \<open>It is the elector that \<open>Start\<close> makes of an existing connection.\<close>

lemma server_elector_Start:
  "Start ''a'' base None (existingConnection server_conn) s = (Inr (server_elector base), s)"
proof -
  have "TrimSpace ''a'' \<noteq> []" by code_simp
  then show ?thesis by (simp add: Start_def existingConnection_def server_elector_def Let_def)
qed

theorem initialize_creates_witness:
  "case initialize (server_elector ''/a/b'') empty_server of
     (err, s') \<Rightarrow> err = None \<and> [''a'', ''b''] \<in> dom (server_view s') \<and> server_view s' [''c''] = None"
proof -
  obtain err s' where run: "initialize (server_elector ''/a/b'') empty_server = (err, s')" by fastforce
  have es: "''/a/b'' = abs_path [''a'', ''b'']" "good_elems [''a'', ''b'']"
    by (code_simp, simp add: plain_def printable_def byte_def)
  have "err = None \<and> server_view s' = fill (\<lambda>_. []) [''a'', ''b''] (server_view empty_server) \<and> [''a'', ''b''] \<in> dom (server_view s')"
    by (rule initialize_creates [OF quiet.zk_quiet_axioms _ empty_server_invar _ es(2) _ run])
      (simp_all add: server_elector_def server_conn_client es(1))
  then show ?thesis using run by (auto simp: fill_def empty_server_view)
qed

section \<open>Two electors starting at once\<close>

lemma served_Exists:
  assumes "good_elems p"
  shows "\<exists>st. Conn_Exists server_session (abs_path p) \<lparr>table = tb, script = Serve # ds\<rparr> =
    ((map_of tb p \<noteq> None, st, None), \<lparr>table = tb, script = ds\<rparr>)"
  using good_elems_valid [OF assms] good_elems_plain [OF assms]
  by (cases "map_of tb p") (auto simp: Conn_Exists_def server_session_def answer_def tab_exists_def)

lemma initialize_loop_served:
  assumes "client_of server_session (Elector.conn e)" "good_elems (q @ pre @ x # suf)"
    and "\<And>p. prefix p (q @ pre) \<Longrightarrow> map_of tb p \<noteq> None" "map_of tb (q @ pre @ [x]) = None"
    and "map_of others (q @ pre @ [x]) \<noteq> None"
  shows "initialize_loop e (abs_path q) (pre @ x # suf)
      \<lparr>table = tb, script = replicate (length pre + 1) Serve @ [Others others]\<rparr> =
    (Some (EWrap (''could not create path '' @ quoted (abs_path (q @ pre @ [x]))) (EZk ErrNodeExists)),
     \<lparr>table = others, script = []\<rparr>)"
  using assms(2-5)
proof (induction pre arbitrary: q)
  case Nil
  have good: "good_elems (q @ [x])" using Nil(1) by simp
  obtain st where ex: "Conn_Exists server_session (abs_path (q @ [x])) \<lparr>table = tb, script = Serve # [Others others]\<rparr> =
      ((False, st, None), \<lparr>table = tb, script = [Others others]\<rparr>)"
    using served_Exists [OF good, of tb "[Others others]"] Nil(3) by auto
  have cr: "Conn_Create server_session (abs_path (q @ [x])) [] 0 (acl e) \<lparr>table = tb, script = [Others others]\<rparr> =
      (([], Some ErrNodeExists), \<lparr>table = others, script = []\<rparr>)"
    using Nil(4) good_elems_valid [OF good] good_elems_plain [OF good]
    by (auto simp: Conn_Create_def server_session_def answer_def tab_create_def map_of_eq_None_iff image_iff)
  show ?case
    using client_of_calls(1) [OF assms(1) ex] client_of_calls(2) [OF assms(1) cr] assms(1)
    by (simp add: join_elem [OF good] Let_def del: path_Join.simps)
next
  case (Cons y pre)
  have good: "good_elems (q @ [y])" using Cons.prems(1) by simp
  have "map_of tb (q @ [y]) \<noteq> None" using Cons.prems(2) [of "q @ [y]"] by simp
  then obtain st where ex: "Conn_Exists server_session (abs_path (q @ [y]))
      \<lparr>table = tb, script = Serve # replicate (length pre + 1) Serve @ [Others others]\<rparr> =
      ((True, st, None), \<lparr>table = tb, script = replicate (length pre + 1) Serve @ [Others others]\<rparr>)"
    using served_Exists [OF good, of tb "replicate (length pre + 1) Serve @ [Others others]"] by auto
  have "initialize_loop e (abs_path (q @ [y])) (pre @ x # suf)
      \<lparr>table = tb, script = replicate (length pre + 1) Serve @ [Others others]\<rparr> =
    (Some (EWrap (''could not create path '' @ quoted (abs_path ((q @ [y]) @ pre @ [x]))) (EZk ErrNodeExists)),
     \<lparr>table = others, script = []\<rparr>)"
    using Cons.prems by (intro Cons.IH) auto
  then show ?case using client_of_calls(1) [OF assms(1) ex] assms(1)
    by (simp add: join_elem [OF good] Let_def del: path_Join.simps)
qed

text \<open>
  C32: two electors that start at once. Let the base path have missing elements, the first of them \<open>x\<close>. If another
  elector creates the whole base path between this one's check of \<open>x\<close> and its creation, \<open>initialize\<close> returns
  \<open>ErrNodeExists\<close> and the elector ends with that error, although the base path exists by then, which is all that
  \<open>initialize\<close> is to ensure. The retry of \<open>setFully\<close> in \<open>zkstore\<close>, which ignores this error, is missing here.
\<close>

theorem initialize_race:
  assumes "Elector.basePath e = abs_path (pre @ x # suf)" "good_elems (pre @ x # suf)" "client_of server_session (Elector.conn e)"
    and "wf_table tb" "pre \<in> set (map fst tb)" "pre @ [x] \<notin> set (map fst tb)"
    and "wf_table others" "pre @ x # suf \<in> set (map fst others)"
  shows "\<exists>s'. initialize e \<lparr>table = tb, script = replicate (length pre + 3) Serve @ [Others others]\<rparr> =
      (Some (EWrap (''could not create path '' @ quoted (abs_path (pre @ [x]))) (EZk ErrNodeExists)), s') \<and>
    pre @ x # suf \<in> dom (server_view s') \<and> fst (initialize e s') = None"
proof -
  let ?es = "pre @ x # suf" and ?ds = "\<lambda>n. replicate n Serve @ [Others others]"
  have wf: "wf_tree (map_of tb)" "wf_tree (map_of others)"
    using quiet_service.view_wf [of "\<lparr>table = tb, script = []\<rparr>"] quiet_service.view_wf [of "\<lparr>table = others, script = []\<rparr>"] assms(4,7)
    by (simp_all add: quiet_invar_def server_view_def)
  have dom: "p \<in> dom (map_of t) \<longleftrightarrow> p \<in> set (map fst t)" for p and t :: ztable
    by (simp add: dom_map_of_conv_image_fst)
  have pre: "map_of tb p \<noteq> None" if "prefix p pre" for p
    using prefix_in_tree [OF wf(1) _ that] assms(5) dom [of pre tb] by auto
  have x: "map_of tb (pre @ [x]) = None" "map_of tb ?es = None"
    using assms(6) dom [of "pre @ [x]" tb] prefix_in_tree [OF wf(1), of ?es "pre @ [x]"] by (auto simp: domIff)
  have ox: "map_of others (pre @ [x]) \<noteq> None"
    using assms(8) dom [of ?es others] prefix_in_tree [OF wf(2), of ?es "pre @ [x]"] by (auto simp: domIff)
  have r3: "?ds (length pre + 3) = Serve # Serve # ?ds (length pre + 1)" by (simp add: eval_nat_numeral)
  obtain st where e1: "Conn_Exists server_session (abs_path ?es) \<lparr>table = tb, script = ?ds (length pre + 3)\<rparr> =
      ((False, st, None), \<lparr>table = tb, script = Serve # ?ds (length pre + 1)\<rparr>)"
    unfolding r3 using served_Exists [OF assms(2), of tb "Serve # ?ds (length pre + 1)"] x(2) by auto
  obtain st' where e2: "Conn_Exists server_session (abs_path []) \<lparr>table = tb, script = Serve # ?ds (length pre + 1)\<rparr> =
      ((True, st', None), \<lparr>table = tb, script = ?ds (length pre + 1)\<rparr>)"
    using served_Exists [of "[]" tb "?ds (length pre + 1)"] pre [of "[]"] by auto
  have split: "Split (abs_path ?es) CHR ''/'' = [] # ?es"
    using assms(2) by (simp add: Split_abs_path good_elems_plain)
  have "initialize e \<lparr>table = tb, script = ?ds (length pre + 3)\<rparr> =
      (Some (EWrap (''could not create path '' @ quoted (abs_path (pre @ [x]))) (EZk ErrNodeExists)), \<lparr>table = others, script = []\<rparr>)"
    using client_of_calls(1) [OF assms(3) e1] client_of_calls(1) [OF assms(3) e2] assms(1,3) split
      initialize_loop_served [OF assms(3), of "[]" pre x suf tb others] assms(2) pre x ox
    by (simp add: initialize_def join_root Let_def del: path_Join.simps replicate.simps)
  moreover have "?es \<in> dom (server_view \<lparr>table = others, script = []\<rparr>)" using assms(8) dom by (simp add: server_view_def)
  moreover have "fst (initialize e \<lparr>table = others, script = []\<rparr>) = None"
  proof -
    obtain err s' where run: "initialize e \<lparr>table = others, script = []\<rparr> = (err, s')" by fastforce
    have "quiet_invar \<lparr>table = others, script = []\<rparr>" using assms(7) by (simp add: quiet_invar_def)
    from initialize_quiet [OF quiet.zk_quiet_axioms _ this assms(1,2) _ run] run assms(3)
    show ?thesis by simp
  qed
  ultimately show ?thesis by blast
qed

theorem initialize_race_witness:
  "fst (initialize (server_elector ''/e'')
      (empty_server\<lparr>script := [Serve, Serve, Serve, Others [([''e''], ([], 0)), ([], ([], 0))]]\<rparr>)) =
   Some (EWrap (''could not create path '' @ quoted ''/e'') (EZk ErrNodeExists))"
proof -
  let ?o = "[([''e''], ([], 0)), ([], ([], 0))] :: ztable"
  have f: "wf_table (table empty_server)" "wf_table ?o" "''/e'' = abs_path [''e'']" "table empty_server = [([], ([], 0))]"
    by code_simp+
  have "good_elems [''e'']" by (simp add: plain_def printable_def byte_def)
  then have "\<exists>s'. initialize (server_elector ''/e'')
      \<lparr>table = table empty_server, script = replicate (length ([] :: string list) + 3) Serve @ [Others ?o]\<rparr> =
      (Some (EWrap (''could not create path '' @ quoted (abs_path ([] @ [''e'']))) (EZk ErrNodeExists)), s') \<and>
    [] @ ''e'' # [] \<in> dom (server_view s') \<and> fst (initialize (server_elector ''/e'') s') = None"
    using f by (intro initialize_race) (simp_all add: server_elector_def server_conn_client)
  then show ?thesis using f(3) by (auto simp: empty_server_def eval_nat_numeral)
qed

text \<open>The store of the examples is the one that \<open>NewStore\<close> makes of an existing connection.\<close>

lemma demo_store_existing:
  "NewStore first_byte (zs_existingConnection server_session) [OptBasePath ''/z''] empty_server =
     (Inr demo_store, empty_server)"
  using demo_store_NewStore by (simp add: zs_existingConnection_def demo_connector_def)

end
