(* ===== verification/Testutils.thy ===== *)
theory Testutils
  imports Go_Select Go_Strings
begin

text \<open>
  Package \<open>testutils\<close>: a ZooKeeper in a container for the tests (\<open>docker_utils.go\<close>, \<open>zk_utils.go\<close>,
  \<open>zk_control.go\<close>). The Docker client, the network and the operating system are parameters; logging and
  printing are left out.
\<close>

section \<open>The environment\<close>

record ZKConfig =
  StartupTimeout :: duration
  ImageName :: string
  Entrypoint :: "string list"
  Command :: "string list"
  ClientPort :: int

record container_Config =
  cc_Image :: string
  cc_Entrypoint :: "string list"
  cc_Cmd :: "string list"

text \<open>A port map: for each port the bindings, each a host address and a host port.\<close>

type_synonym PortMap = "(string \<times> (string \<times> string) list) list"

text \<open>
  What happens next to the waiting \<open>StartZookeeper\<close>: the dialling goroutine is refused and tries again, the
  \<open>select\<close> receives from \<open>connected\<close>, or it receives from \<open>time.After\<close>.
\<close>

datatype dial_outcome = Refused | Connected | TimeUp

text \<open>
  The calls of the Docker client, whose errors are their messages, with the handle of the client first. The flags of
  \<open>ContainerRemove\<close> are \<open>RemoveVolumes\<close> and \<open>Force\<close>; \<open>DisplayStream\<close> is
  \<open>DisplayJSONMessagesStream\<close> on the standard output; \<open>Dials\<close> is what the wait for a connection to an
  address meets.
\<close>

record 's docker =
  NewEnvClient :: "'s \<Rightarrow> (string + nat) \<times> 's"
  ContainerRemove :: "nat \<Rightarrow> string \<Rightarrow> bool \<Rightarrow> bool \<Rightarrow> 's \<Rightarrow> string option \<times> 's"
  ImageInspectWithRaw :: "nat \<Rightarrow> string \<Rightarrow> 's \<Rightarrow> string option \<times> 's"
  IsErrNotFound :: "string \<Rightarrow> bool"
  ImagePull :: "nat \<Rightarrow> string \<Rightarrow> 's \<Rightarrow> (string + nat) \<times> 's"
  DisplayStream :: "nat \<Rightarrow> 's \<Rightarrow> string option \<times> 's"
  ContainerCreate :: "nat \<Rightarrow> container_Config \<Rightarrow> PortMap \<Rightarrow> 's \<Rightarrow> (string + string) \<times> 's"
  ContainerStart :: "nat \<Rightarrow> string \<Rightarrow> 's \<Rightarrow> string option \<times> 's"
  ContainerInspect :: "nat \<Rightarrow> string \<Rightarrow> 's \<Rightarrow> (string + string) \<times> 's"
  Dials :: "string \<Rightarrow> duration \<Rightarrow> 's \<Rightarrow> (nat \<Rightarrow> dial_outcome) \<times> 's"
  GOOS :: string

datatype tu_error =
    TMsg string \<comment> \<open>an error of the Docker client, \<open>errors.New\<close>\<close>
  | TWrap string tu_error \<comment> \<open>\<open>errors.Wrap\<close>\<close>
  | TNotConnected duration \<comment> \<open>\<open>could not connect to zookeeper in\<close> the duration\<close>

section \<open>Docker helpers\<close>

definition DockerClient :: "'s docker \<Rightarrow> 's \<Rightarrow> (tu_error + nat) \<times> 's" where
  "DockerClient D s =
     (case NewEnvClient D s of
        (Inl err, s1) \<Rightarrow> (Inl (TWrap ''could not connect to docker'' (TMsg err)), s1)
      | (Inr dcli, s1) \<Rightarrow> (Inr dcli, s1))"

fun removeContainer_loop :: "'s docker \<Rightarrow> nat \<Rightarrow> string list \<Rightarrow> string list \<Rightarrow> 's \<Rightarrow> string list \<times> 's" where
  "removeContainer_loop D dcli [] errs s = (errs, s)"
| "removeContainer_loop D dcli (ctrID # ctrIDs) errs s =
     (case ContainerRemove D dcli ctrID True True s of
        (Some err, s1) \<Rightarrow> removeContainer_loop D dcli ctrIDs (errs @ [err]) s1
      | (None, s1) \<Rightarrow> removeContainer_loop D dcli ctrIDs errs s1)"

definition removeContainer :: "'s docker \<Rightarrow> nat \<Rightarrow> string list \<Rightarrow> 's \<Rightarrow> tu_error option \<times> 's" where
  "removeContainer D dcli ctrIDs s =
     (case removeContainer_loop D dcli ctrIDs [] s of
        (errs, s1) \<Rightarrow> (if length errs > 0 then Some (TMsg (Join errs '','')) else None, s1))"

definition imageExists :: "'s docker \<Rightarrow> nat \<Rightarrow> string \<Rightarrow> 's \<Rightarrow> (bool \<times> tu_error option) \<times> 's" where
  "imageExists D dcli img s =
     (case ImageInspectWithRaw D dcli img s of
        (None, s1) \<Rightarrow> ((True, None), s1)
      | (Some err, s1) \<Rightarrow>
          if IsErrNotFound D err then ((False, None), s1) else ((False, Some (TMsg err)), s1))"

definition pullDockerImage :: "'s docker \<Rightarrow> nat \<Rightarrow> string \<Rightarrow> 's \<Rightarrow> tu_error option \<times> 's" where
  "pullDockerImage D dcli img s =
     (case imageExists D dcli img s of
        ((_, Some err), s1) \<Rightarrow> (Some err, s1)
      | ((ex, None), s1) \<Rightarrow>
          if ex then (None, s1)
          else (case ImagePull D dcli img s1 of
                  (Inl err, s2) \<Rightarrow> (Some (TMsg err), s2)
                | (Inr resp, s2) \<Rightarrow>
                    (case DisplayStream D resp s2 of (err, s3) \<Rightarrow> (map_option TMsg err, s3))))"

section \<open>Starting ZooKeeper\<close>

definition DefaultZKConfig :: ZKConfig where
  "DefaultZKConfig =
     \<lparr>StartupTimeout = 10 * 1000000000, ImageName = ''docker.io/jplock/zookeeper:3.4.10'',
      Entrypoint = [''/opt/zookeeper/bin/zkServer.sh''], Command = [''start-foreground''], ClientPort = 2181\<rparr>"

fun apply_config :: "(ZKConfig \<Rightarrow> ZKConfig) option list \<Rightarrow> ZKConfig \<Rightarrow> ZKConfig" where
  "apply_config [] config = config"
| "apply_config (None # opts) config = apply_config opts config"
| "apply_config (Some f # opts) config = apply_config opts (f config)"

definition port_bindings :: "'s docker \<Rightarrow> ZKConfig \<Rightarrow> PortMap" where
  "port_bindings D config =
     (if GOOS D = ''darwin''
      then [(Itoa (ClientPort config) @ ''/tcp'', [(''0.0.0.0'', Itoa (ClientPort config))])] else [])"

text \<open>\<open>net.JoinHostPort\<close>: an IPv6 host is put in brackets.\<close>

definition JoinHostPort :: "string \<Rightarrow> string \<Rightarrow> string" where
  "JoinHostPort host port =
     (if CHR '':'' \<in> set host then ''['' @ host @ '']:'' @ port else host @ '':'' @ port)"

definition zk_addr :: "'s docker \<Rightarrow> ZKConfig \<Rightarrow> string \<Rightarrow> string" where
  "zk_addr D config ip =
     (if GOOS D = ''darwin'' then ''127.0.0.1:'' @ Itoa (ClientPort config)
      else JoinHostPort ip (Itoa (ClientPort config)))"

partial_function (option) await_connected :: "(nat \<Rightarrow> dial_outcome) \<Rightarrow> nat \<Rightarrow> bool option" where
  "await_connected sel i =
     (case sel i of
        Refused \<Rightarrow> await_connected sel (Suc i)
      | Connected \<Rightarrow> Some True
      | TimeUp \<Rightarrow> Some False)"

record ZkControl =
  dockerClient :: nat
  containerID :: string
  addr :: string
  teardownOnce :: bool \<comment> \<open>has run\<close>

text \<open>\<open>cleanup\<close> ignores the error of \<open>removeContainer\<close>. The result \<open>None\<close> is a call that does not return.\<close>

definition cleanup :: "'s docker \<Rightarrow> nat \<Rightarrow> string \<Rightarrow> 's \<Rightarrow> 's" where
  "cleanup D dcli ctr s = snd (removeContainer D dcli [ctr] s)"

definition wait_ready ::
  "'s docker \<Rightarrow> ZKConfig \<Rightarrow> nat \<Rightarrow> string \<Rightarrow> string \<Rightarrow> 's \<Rightarrow> ((tu_error + ZkControl) \<times> 's) option" where
  "wait_ready D config dcli ctr a s =
     (case Dials D a (StartupTimeout config) s of (sel, s1) \<Rightarrow>
        (case await_connected sel 0 of
           None \<Rightarrow> None
         | Some False \<Rightarrow> Some (Inl (TNotConnected (StartupTimeout config)), cleanup D dcli ctr s1)
         | Some True \<Rightarrow>
             Some (Inr \<lparr>dockerClient = dcli, containerID = ctr, addr = a, teardownOnce = False\<rparr>, s1)))"

definition StartZookeeper ::
  "'s docker \<Rightarrow> (ZKConfig \<Rightarrow> ZKConfig) option list \<Rightarrow> 's \<Rightarrow> ((tu_error + ZkControl) \<times> 's) option" where
  "StartZookeeper D opts s =
     (let config = apply_config opts DefaultZKConfig in
      case DockerClient D s of
        (Inl err, s1) \<Rightarrow> Some (Inl (TWrap ''could not get docker client'' err), s1)
      | (Inr dcli, s1) \<Rightarrow>
      (case pullDockerImage D dcli (ImageName config) s1 of
         (Some err, s2) \<Rightarrow> Some (Inl err, s2)
       | (None, s2) \<Rightarrow>
      (case ContainerCreate D dcli
              \<lparr>cc_Image = ImageName config, cc_Entrypoint = Entrypoint config, cc_Cmd = Command config\<rparr>
              (port_bindings D config) s2 of
         (Inl err, s3) \<Rightarrow> Some (Inl (TWrap ''could not create zk container'' (TMsg err)), s3)
       | (Inr ctr, s3) \<Rightarrow>
      (case ContainerStart D dcli ctr s3 of
         (Some err, s4) \<Rightarrow> Some (Inl (TWrap ''could not start zk container'' (TMsg err)), cleanup D dcli ctr s4)
       | (None, s4) \<Rightarrow>
      (case ContainerInspect D dcli ctr s4 of
         (Inl err, s5) \<Rightarrow> Some (Inl (TWrap ''could not inspect container'' (TMsg err)), cleanup D dcli ctr s5)
       | (Inr ip, s5) \<Rightarrow> wait_ready D config dcli ctr (zk_addr D config ip) s5)))))"

definition Teardown :: "'s docker \<Rightarrow> ZkControl \<Rightarrow> 's \<Rightarrow> tu_error option \<times> ZkControl \<times> 's" where
  "Teardown D z s =
     (if teardownOnce z then (None, z, s)
      else case removeContainer D (dockerClient z) [containerID z] s of
             (Some err, s1) \<Rightarrow> (Some (TWrap ''could not remove ZK container'' err), z\<lparr>teardownOnce := True\<rparr>, s1)
           | (None, s1) \<Rightarrow> (None, z\<lparr>teardownOnce := True\<rparr>, s1))"

text \<open>The first result is the value of the panic.\<close>

definition TeardownPanic :: "'s docker \<Rightarrow> ZkControl \<Rightarrow> 's \<Rightarrow> tu_error option \<times> ZkControl \<times> 's" where
  "TeardownPanic D z s =
     (case Teardown D z s of (Some err, z1, s1) \<Rightarrow> (Some err, z1, s1) | (None, z1, s1) \<Rightarrow> (None, z1, s1))"

definition ZkControl_Addr :: "ZkControl \<Rightarrow> string" where
  "ZkControl_Addr z = addr z"

section \<open>Waiting\<close>

lemma await_connected_returns_only:
  "await_connected sel i = Some r \<Longrightarrow> \<exists>k \<ge> i. sel k = Connected \<or> sel k = TimeUp"
proof (erule await_connected.raw_induct [of "\<lambda>sel i r. \<exists>k \<ge> i. sel k = Connected \<or> sel k = TimeUp", rotated], goal_cases)
  case (1 f sel i r)
  then show ?case
    by (intro round_returns [of f sel i "\<lambda>x. x = Connected \<or> x = TimeUp" r]) (simp_all split: dial_outcome.splits)
qed

declare await_connected.simps [code]

interpretation dialling: first_of await_connected "\<lambda>x. x = Connected" "\<lambda>x. x = TimeUp" True False
proof (unfold_locales, goal_cases)
  case (4 sel i r)
  then show ?case by (rule await_connected_returns_only)
qed ((subst await_connected.simps)?, auto split: dial_outcome.splits)+

section \<open>Containers\<close>

text \<open>
  What is relied on of the Docker engine, for a view of its state as the set of its containers: creating adds a
  new one, removing without an error takes that one away, and nothing else changes the set.
\<close>

definition tracks :: "'s docker \<Rightarrow> ('s \<Rightarrow> string set) \<Rightarrow> bool" where
  "tracks D view \<longleftrightarrow>
     (\<forall>s r s'. NewEnvClient D s = (r, s') \<longrightarrow> view s' = view s) \<and>
     (\<forall>c i s r s'. ImageInspectWithRaw D c i s = (r, s') \<longrightarrow> view s' = view s) \<and>
     (\<forall>c i s r s'. ImagePull D c i s = (r, s') \<longrightarrow> view s' = view s) \<and>
     (\<forall>k s r s'. DisplayStream D k s = (r, s') \<longrightarrow> view s' = view s) \<and>
     (\<forall>c i s r s'. ContainerStart D c i s = (r, s') \<longrightarrow> view s' = view s) \<and>
     (\<forall>c i s r s'. ContainerInspect D c i s = (r, s') \<longrightarrow> view s' = view s) \<and>
     (\<forall>a d s r s'. Dials D a d s = (r, s') \<longrightarrow> view s' = view s) \<and>
     (\<forall>c cfg pm s e s'. ContainerCreate D c cfg pm s = (Inl e, s') \<longrightarrow> view s' = view s) \<and>
     (\<forall>c cfg pm s i s'. ContainerCreate D c cfg pm s = (Inr i, s') \<longrightarrow> i \<notin> view s \<and> view s' = insert i (view s)) \<and>
     (\<forall>c i s s'. ContainerRemove D c i True True s = (None, s') \<longrightarrow> view s' = view s - {i}) \<and>
     (\<forall>c i s e s'. ContainerRemove D c i True True s = (Some e, s') \<longrightarrow> view s' = view s)"

lemma tracks_calls:
  assumes "tracks D view"
  shows "NewEnvClient D s = (r1, s') \<Longrightarrow> view s' = view s"
    and "ImageInspectWithRaw D c i s = (r2, s') \<Longrightarrow> view s' = view s"
    and "ImagePull D c i s = (r3, s') \<Longrightarrow> view s' = view s"
    and "DisplayStream D k s = (r4, s') \<Longrightarrow> view s' = view s"
    and "ContainerStart D c i s = (r5, s') \<Longrightarrow> view s' = view s"
    and "ContainerInspect D c i s = (r6, s') \<Longrightarrow> view s' = view s"
    and "Dials D a d s = (r7, s') \<Longrightarrow> view s' = view s"
    and "ContainerCreate D c cfg pm s = (Inl e, s') \<Longrightarrow> view s' = view s"
    and "ContainerCreate D c cfg pm s = (Inr i, s') \<Longrightarrow> i \<notin> view s \<and> view s' = insert i (view s)"
    and "ContainerRemove D c i True True s = (None, s') \<Longrightarrow> view s' = view s - {i}"
    and "ContainerRemove D c i True True s = (Some e', s') \<Longrightarrow> view s' = view s"
  using assms unfolding tracks_def by (elim conjE, metis)+

lemma DockerClient_keeps: "tracks D view \<Longrightarrow> DockerClient D s = (r, s') \<Longrightarrow> view s' = view s"
  by (auto simp: DockerClient_def dest: tracks_calls split: sum.splits prod.splits)

lemma pullDockerImage_keeps: "tracks D view \<Longrightarrow> pullDockerImage D c i s = (r, s') \<Longrightarrow> view s' = view s"
  by (auto simp: pullDockerImage_def imageExists_def dest: tracks_calls(2-4) [of D view]
      split: sum.splits prod.splits option.splits if_splits)

lemma removeContainer_one:
  "removeContainer D c [i] s =
     (case ContainerRemove D c i True True s of (err, s') \<Rightarrow> (map_option TMsg err, s'))"
  by (simp add: removeContainer_def split: prod.splits option.splits)

text \<open>A container whose removal was refused.\<close>

definition left_behind :: "'s docker \<Rightarrow> string \<Rightarrow> 's \<Rightarrow> bool" where
  "left_behind D i s \<longleftrightarrow> (\<exists>c t err. ContainerRemove D c i True True t = (Some err, s))"

lemma cleanup_view:
  assumes "tracks D view" "i \<notin> V" "view s = insert i V"
  shows "view (cleanup D c i s) = V \<or> left_behind D i (cleanup D c i s) \<and> view (cleanup D c i s) = insert i V"
proof (cases "ContainerRemove D c i True True s")
  case (Pair err s')
  then show ?thesis using assms tracks_calls(10,11) [OF assms(1), of c i s]
    by (cases err) (auto simp: cleanup_def removeContainer_one left_behind_def)
qed

definition accounted :: "'s docker \<Rightarrow> ('s \<Rightarrow> string set) \<Rightarrow> string set \<Rightarrow> tu_error + ZkControl \<Rightarrow> 's \<Rightarrow> bool" where
  "accounted D view V r s' \<longleftrightarrow>
     (case r of
        Inr z \<Rightarrow> containerID z \<notin> V \<and> view s' = insert (containerID z) V \<and> \<not> teardownOnce z
      | Inl _ \<Rightarrow> view s' = V \<or> (\<exists>i. i \<notin> V \<and> left_behind D i s' \<and> view s' = insert i V))"

lemma accounted_cleanup:
  "tracks D view \<Longrightarrow> i \<notin> V \<Longrightarrow> view s = insert i V \<Longrightarrow> accounted D view V (Inl e) (cleanup D c i s)"
  using cleanup_view [of D view i V s c] by (auto simp: accounted_def)

lemma wait_ready_accounted:
  assumes "tracks D view" "i \<notin> V" "view s = insert i V" "wait_ready D config c i a s = Some (r, s')"
  shows "accounted D view V r s'"
proof -
  obtain sel s1 where d: "Dials D a (StartupTimeout config) s = (sel, s1)" by fastforce
  have v: "view s1 = insert i V" using tracks_calls(7) [OF assms(1) d] assms(3) by simp
  show ?thesis using assms(4) accounted_cleanup [OF assms(1,2) v] assms(2) v
    by (auto simp: wait_ready_def d accounted_def split: option.splits bool.splits)
qed

lemma StartZookeeper_accounted:
  assumes D: "tracks D view" and run: "StartZookeeper D opts s = Some (r, s')"
  shows "accounted D view (view s) r s'"
proof -
  let ?config = "apply_config opts DefaultZKConfig"
  have none: "accounted D view (view s) (Inl e) t" if "view t = view s" for e t
    using that by (simp add: accounted_def)
  obtain rc s1 where 1: "DockerClient D s = (rc, s1)" by fastforce
  note v1 = DockerClient_keeps [OF D 1]
  show ?thesis
  proof (cases rc)
    case (Inr c)
    obtain rp s2 where 2: "pullDockerImage D c (ImageName ?config) s1 = (rp, s2)" by fastforce
    note v2 = pullDockerImage_keeps [OF D 2]
    obtain rr s3 where 3: "ContainerCreate D c
        \<lparr>cc_Image = ImageName ?config, cc_Entrypoint = Entrypoint ?config, cc_Cmd = Command ?config\<rparr>
        (port_bindings D ?config) s2 = (rr, s3)" by fastforce
    show ?thesis
    proof (cases "rp = None \<and> (\<exists>i. rr = Inr i)")
      case True
      then obtain i where i: "rr = Inr i" by blast
      note v3 = tracks_calls(9) [OF D 3 [unfolded i]]
      obtain re s4 where 4: "ContainerStart D c i s3 = (re, s4)" by fastforce
      note v4 = tracks_calls(5) [OF D 4]
      obtain ri s5 where 5: "ContainerInspect D c i s4 = (ri, s5)" by fastforce
      note v5 = tracks_calls(6) [OF D 5]
      have fresh: "i \<notin> view s" "view s4 = insert i (view s)" "view s5 = insert i (view s)"
        using v1 v2 v3 v4 v5 by simp_all
      show ?thesis using run True Inr i fresh
        by (auto simp: StartZookeeper_def Let_def 1 2 3 4 5 split: option.splits sum.splits
            intro: accounted_cleanup [OF D] wait_ready_accounted [OF D])
    next
      case False
      have "view s3 = view s" if "rr = Inl e" for e
        using tracks_calls(8) [OF D 3 [unfolded that]] v1 v2 by simp
      then show ?thesis using run False Inr v1 v2
        by (cases rp; cases rr) (auto simp: StartZookeeper_def Let_def 1 2 3 intro: none)
    qed
  next
    case (Inl e)
    then show ?thesis using run v1 by (auto simp: StartZookeeper_def Let_def 1 intro: none)
  qed
qed

lemma Teardown_once:
  assumes "\<not> teardownOnce z" "tracks D view"
  shows "case Teardown D z t of
          (err, z', t') \<Rightarrow> (err = None \<longrightarrow> view t' = view t - {containerID z}) \<and>
            (\<forall>u. Teardown D z' u = (None, z', u))"
proof -
  obtain err t' where rm: "ContainerRemove D (dockerClient z) (containerID z) True True t = (err, t')" by fastforce
  show ?thesis
  proof (cases err)
    case None
    then show ?thesis using assms(1) tracks_calls(10) [OF assms(2), of _ _ t t'] rm
      by (simp add: Teardown_def removeContainer_one)
  next
    case (Some e)
    then show ?thesis using assms(1) rm by (simp add: Teardown_def removeContainer_one)
  qed
qed

text \<open>
  C27: \<open>StartZookeeper\<close> accounts for its container. When it returns a control, exactly the control's container is
  new; when it returns an error, no container is new, unless the engine refused to remove it (an error that
  is dropped). \<open>Teardown\<close> of the control removes that container when it reports no error, and a second
  \<open>Teardown\<close> does nothing and reports no error, even if the first one failed.
\<close>

theorem StartZookeeper_cleans_up:
  assumes "tracks D view" "StartZookeeper D opts s = Some (r, s')"
  shows "case r of
     Inl _ \<Rightarrow> view s' = view s \<or> (\<exists>i. i \<notin> view s \<and> left_behind D i s' \<and> view s' = insert i (view s))
   | Inr z \<Rightarrow> containerID z \<notin> view s \<and> view s' = insert (containerID z) (view s) \<and>
       (\<forall>t. case Teardown D z t of
          (err, z', t') \<Rightarrow> (err = None \<longrightarrow> view t' = view t - {containerID z}) \<and>
            (\<forall>u. Teardown D z' u = (None, z', u)))"
proof (cases r)
  case (Inl e)
  then show ?thesis using StartZookeeper_accounted [OF assms] by (simp add: accounted_def)
next
  case (Inr z)
  then have fresh: "\<not> teardownOnce z" using StartZookeeper_accounted [OF assms] by (simp add: accounted_def)
  have "case Teardown D z t of
          (err, z', t') \<Rightarrow> (err = None \<longrightarrow> view t' = view t - {containerID z}) \<and>
            (\<forall>u. Teardown D z' u = (None, z', u))" for t
    using fresh assms(1) by (rule Teardown_once)
  with Inr show ?thesis using StartZookeeper_accounted [OF assms] by (simp add: accounted_def)
qed

text \<open>
  \<open>StartZookeeper\<close> returns, whatever the engine answers, if at every address a connection is accepted or the
  time runs out.
\<close>

lemma StartZookeeper_returns:
  assumes "\<And>a d s. \<exists>k. fst (Dials D a d s) k = Connected \<or> fst (Dials D a d s) k = TimeUp"
  shows "\<exists>r s'. StartZookeeper D opts s = Some (r, s')"
proof -
  have "\<exists>b. await_connected (fst (Dials D a d s)) 0 = Some b" for a d s
  proof -
    obtain k where "fst (Dials D a d s) k = Connected \<or> fst (Dials D a d s) k = TimeUp" using assms by blast
    from dialling.returns [of "fst (Dials D a d s)" k, OF this] show ?thesis by blast
  qed
  note waits = this
  have "\<exists>r s'. wait_ready D config c i a t = Some (r, s')" for config c i a t
  proof -
    obtain b where "await_connected (fst (Dials D a (StartupTimeout config) t)) 0 = Some b" using waits by blast
    then show ?thesis by (cases b) (simp_all add: wait_ready_def case_prod_beta)
  qed
  then show ?thesis
    by (auto simp: StartZookeeper_def Let_def split: prod.splits sum.splits option.splits)
qed

text \<open>An engine for examples: its state is the list of the containers.\<close>

definition example_engine :: "dial_outcome list \<Rightarrow> string list docker" where
  "example_engine dials =
     \<lparr>NewEnvClient = (\<lambda>s. (Inr 0, s)),
      ContainerRemove = (\<lambda>c i v f s. (None, filter (\<lambda>x. x \<noteq> i) s)),
      ImageInspectWithRaw = (\<lambda>c i s. (Some ''no such image'', s)),
      IsErrNotFound = (\<lambda>e. e = ''no such image''),
      ImagePull = (\<lambda>c i s. (Inr 0, s)), DisplayStream = (\<lambda>k s. (None, s)),
      ContainerCreate = (\<lambda>c cfg pm s. (Inr (concat (''c'' # s)), concat (''c'' # s) # s)),
      ContainerStart = (\<lambda>c i s. (None, s)), ContainerInspect = (\<lambda>c i s. (Inr ''172.17.0.2'', s)),
      Dials = (\<lambda>a d s. (\<lambda>i. if i < length dials then dials ! i else TimeUp, s)), GOOS = ''linux''\<rparr>"

lemma length_le_concat: "x \<in> set s \<Longrightarrow> length x \<le> length (concat s)"
  by (induction s) auto

lemma fresh_name: "concat (''c'' # s) \<notin> set s"
  using length_le_concat [of "concat (''c'' # s)" s] by auto

lemma example_tracks: "tracks (example_engine dials) set"
  using fresh_name by (auto simp: tracks_def example_engine_def)

theorem StartZookeeper_cleans_up_witness:
  "case StartZookeeper (example_engine [Refused, Connected]) [None] [] of
     Some (Inr z, s') \<Rightarrow> set s' = {containerID z} \<and> ZkControl_Addr z = ''172.17.0.2:2181''
   | _ \<Rightarrow> False"
proof -
  let ?D = "example_engine [Refused, Connected]"
  have run: "StartZookeeper ?D [None] [] =
      Some (Inr \<lparr>dockerClient = 0, containerID = ''c'', addr = ''172.17.0.2:2181'', teardownOnce = False\<rparr>, [''c''])"
    by code_simp
  show ?thesis using run StartZookeeper_cleans_up [OF example_tracks run] by (simp add: ZkControl_Addr_def)
qed

end
