(* ===== verification/Formats.thy ===== *)
theory Formats
  imports Zkstore_Paths Elector_Machine
begin

text \<open>
  What the packages print: the \<open>String\<close> methods of \<open>zkstore\<close> (\<open>location.go\<close>, \<open>ident.go\<close>,
  \<open>item.go\<close>) and of \<open>elector\<close> (\<open>event.go\<close>), with the messages of the errors; and the order of locations
  that \<open>LocationsByName\<close> passes to \<open>sort.Slice\<close>.
\<close>

section \<open>String methods of zkstore\<close>

text \<open>The verb \<open>v\<close> of \<open>fmt\<close>: a bool, and a struct without a method \<open>String\<close>.\<close>

definition Sprintf_bool :: "bool \<Rightarrow> string" where
  "Sprintf_bool b = (if b then ''true'' else ''false'')"

definition Sprintf_Version :: "Version \<Rightarrow> string" where
  "Sprintf_Version v = ''{'' @ Itoa (sint (version_int32 v)) @ '' '' @ Sprintf_bool (hasVersion v) @ ''}''"

definition Location_String :: "Location \<Rightarrow> string" where
  "Location_String l = ''{cat='' @ Category l @ '' name='' @ Name l @ ''}''"

definition Ident_String :: "Ident \<Rightarrow> string" where
  "Ident_String i =
     ''{loc='' @ Location_String (IdentLocation i) @ '' var='' @ Variant i @ '' ver='' @
     Sprintf_Version (IdentVersion i) @ ''}''"

definition Item_String :: "Item \<Rightarrow> string" where
  "Item_String i =
     ''{ident='' @ Ident_String (ItemIdent i) @ '' datalen='' @ Itoa (int (length (Data i))) @ ''B}''"

text \<open>Two texts with a separator that is in neither first part agree part by part.\<close>

lemma split_at_separator:
  "sep \<notin> set a \<Longrightarrow> sep \<notin> set b \<Longrightarrow> a @ sep # x = b @ sep # y \<longleftrightarrow> a = b \<and> x = y"
proof (induction a arbitrary: b)
  case Nil
  then show ?case by (cases b) auto
next
  case (Cons c a)
  then show ?case by (cases b) auto
qed

lemma separators_special:
  "\<not> category_char CHR '' ''" "\<not> category_char CHR ''}''"
  by (simp_all add: category_char_def is_word_def is_digit_def is_upper_def is_lower_def byte_def)

lemma unseparated:
  assumes "list_all category_char s"
  shows "CHR '' '' \<notin> set s" "CHR ''}'' \<notin> set s"
  using assms separators_special by (auto simp: list_all_iff)

lemma name_unseparated:
  assumes "list_all name_char s"
  shows "CHR '' '' \<notin> set s" "CHR ''}'' \<notin> set s"
proof -
  have "list_all category_char s" using assms by (auto simp: list_all_iff category_char_iff)
  then show "CHR '' '' \<notin> set s" "CHR ''}'' \<notin> set s" by (rule unseparated)+
qed

lemma Sprintf_Version_inject: "Sprintf_Version v @ x = Sprintf_Version w @ y \<longleftrightarrow> v = w \<and> x = y"
proof -
  have "Sprintf_Version v @ x = Sprintf_Version w @ y \<longleftrightarrow>
      Itoa (sint (version_int32 v)) = Itoa (sint (version_int32 w)) \<and> hasVersion v = hasVersion w \<and> x = y"
    by (auto simp: Sprintf_Version_def Sprintf_bool_def split_at_separator name_unseparated Itoa_name_chars)
  also have "\<dots> \<longleftrightarrow> v = w \<and> x = y"
    by (cases v; cases w) (auto simp: Itoa_inject signed_word_eqI)
  finally show ?thesis .
qed

text \<open>
  The texts of valid idents are different for different idents, the version included, so a log line identifies the
  item it is about.
\<close>

lemma Location_String_inject:
  assumes "Location_Validate l = None" "Location_Validate l' = None"
  shows "Location_String l @ x = Location_String l' @ y \<longleftrightarrow> l = l' \<and> x = y"
proof -
  note parts = valid_location_parts [OF assms(1)] valid_location_parts [OF assms(2)]
  have "list_all category_char (Category l)" "list_all category_char (Category l')"
    using parts by (simp_all add: ValidateCategory_None)
  then have "Location_String l @ x = Location_String l' @ y \<longleftrightarrow>
      Category l = Category l' \<and> Name l = Name l' \<and> x = y"
    using parts by (simp add: Location_String_def split_at_separator unseparated name_unseparated)
  then show ?thesis by (cases l; cases l') auto
qed

theorem Ident_String_inject:
  assumes "Ident_Validate i = None" "Ident_Validate j = None"
  shows "Ident_String i = Ident_String j \<longleftrightarrow> i = j"
proof -
  note parts = valid_ident_parts(4) [OF assms(1)] valid_ident_parts(4) [OF assms(2)]
  have "Ident_String i = Ident_String j \<longleftrightarrow>
      IdentLocation i = IdentLocation j \<and> Variant i = Variant j \<and> IdentVersion i = IdentVersion j"
    using parts by (simp add: Ident_String_def Location_String_inject valid_ident_location assms
        split_at_separator name_unseparated Sprintf_Version_inject [of _ "[]" _ "[]", simplified])
  then show ?thesis by (cases i; cases j) auto
qed

section \<open>Order of locations\<close>

text \<open>Go compares strings byte by byte. The result \<open>None\<close> is an index out of range, which panics.\<close>

fun string_less :: "string \<Rightarrow> string \<Rightarrow> bool" where
  "string_less _ [] \<longleftrightarrow> False"
| "string_less [] (d # ds) \<longleftrightarrow> True"
| "string_less (c # cs) (d # ds) \<longleftrightarrow> byte c < byte d \<or> byte c = byte d \<and> string_less cs ds"

definition LocationsByName :: "Location list \<Rightarrow> nat \<Rightarrow> nat \<Rightarrow> bool option" where
  "LocationsByName locations i j =
     (if i < length locations \<and> j < length locations
      then Some (string_less (Name (locations ! i)) (Name (locations ! j))) else None)"

lemma string_less_irrefl: "\<not> string_less s s"
  by (induction s) auto

lemma string_less_trans: "string_less s t \<Longrightarrow> string_less t u \<Longrightarrow> string_less s u"
proof (induction s t arbitrary: u rule: string_less.induct)
  case (2 d ds)
  then show ?case by (cases u) auto
next
  case (3 c cs d ds)
  then show ?case by (cases u) auto
qed simp

lemma string_less_total: "s = t \<or> string_less s t \<or> string_less t s"
proof (induction s t rule: string_less.induct)
  case (1 s)
  then show ?case by (cases s) auto
next
  case (3 c cs d ds)
  then show ?case by (auto simp: byte_inject)
qed simp

text \<open>
  The function is the strict weak order that \<open>sort.Slice\<close> needs: it is defined for all indices of the
  slice, and locations it does not order have the same name.
\<close>

theorem LocationsByName_order:
  assumes "i < length ls" "j < length ls" "k < length ls"
  shows "LocationsByName ls i i = Some False"
    and "LocationsByName ls i j = Some True \<Longrightarrow> LocationsByName ls j k = Some True \<Longrightarrow> LocationsByName ls i k = Some True"
    and "LocationsByName ls i j = Some False \<Longrightarrow> LocationsByName ls j i = Some False \<Longrightarrow> Name (ls ! i) = Name (ls ! j)"
  using assms string_less_total by (auto simp: LocationsByName_def string_less_irrefl intro: string_less_trans)

section \<open>Events of the elector\<close>

fun zk_error_Error :: "zk_error \<Rightarrow> string" where
  "zk_error_Error ErrConnectionClosed = ''zk: connection closed''"
| "zk_error_Error ErrUnknown = ''zk: unknown error''"
| "zk_error_Error ErrAPIError = ''zk: api error''"
| "zk_error_Error ErrNoNode = ''zk: node does not exist''"
| "zk_error_Error ErrNoAuth = ''zk: not authenticated''"
| "zk_error_Error ErrBadVersion = ''zk: version conflict''"
| "zk_error_Error ErrNoChildrenForEphemerals = ''zk: ephemeral nodes may not have children''"
| "zk_error_Error ErrNodeExists = ''zk: node already exists''"
| "zk_error_Error ErrNotEmpty = ''zk: node has children''"
| "zk_error_Error ErrSessionExpired = ''zk: session has been expired by the server''"
| "zk_error_Error ErrInvalidACL = ''zk: invalid ACL specified''"
| "zk_error_Error ErrAuthFailed = ''zk: client authentication failed''"
| "zk_error_Error ErrClosing = ''zk: zookeeper is closing''"
| "zk_error_Error ErrNothing = ''zk: no server responsees to process''"
| "zk_error_Error ErrSessionMoved = ''zk: session moved to another server, so operation is ignored''"
| "zk_error_Error ErrNoServer = ''zk: could not connect to a server''"
| "zk_error_Error ErrInvalidPath = ''zk: invalid path''"
| "zk_error_Error (ErrIO m) = m"

text \<open>An error of \<open>pkg/errors\<close> prints its message, a colon and its cause.\<close>

fun elector_error_Error :: "elector_error \<Rightarrow> string" where
  "elector_error_Error (EErr m) = m"
| "elector_error_Error (EWrap m e) = m @ '': '' @ elector_error_Error e"
| "elector_error_Error (EZk e) = zk_error_Error e"
| "elector_error_Error (EConnector m) = m"

text \<open>The verb \<open>s\<close> of a nil error prints a complaint.\<close>

definition Event_String :: "event \<Rightarrow> string" where
  "Event_String e =
     ''{leader:'' @ Sprintf_bool (Leader e) @ '' err:'' @
     (case Err e of Some err \<Rightarrow> elector_error_Error err | None \<Rightarrow> ''%!s(<nil>)'') @ ''}''"

text \<open>Every event without an error carries the complaint.\<close>

theorem Event_String_no_error:
  "Event_String \<lparr>Leader = b, Err = None\<rparr> = ''{leader:'' @ Sprintf_bool b @ '' err:%!s(<nil>)}''"
  by (simp add: Event_String_def)

end
