(* ===== verification/Spec2Isabelle.thy ===== *)
theory Spec2Isabelle
  imports Zkstore_Theorems Zkstore_Races Elector_Machine Mem_Store Nodeutil_Theorems Transport_Theorems Connectors Testutils
    Formats
begin

text \<open>
  Verification of \<open>dcos-go\<close>, the Go libraries of DC/OS.

  \<^bold>\<open>The program.\<close> Independent packages: \<open>zkstore\<close>, a store of versioned items in ZooKeeper; \<open>elector\<close>, leader
  election over ZooKeeper; \<open>store\<close>, an in-memory store shared by goroutines; \<open>exec\<close>, which runs commands and
  streams their output; \<open>dcos/nodeutil\<close>, which finds out the address, the leadership, the Mesos id and
  the cluster id of a node (its address by a script it runs through \<open>exec\<close>); and \<open>dcos/http/transport\<close>, an
  HTTP transport that logs in. \<open>testutils\<close> runs a ZooKeeper for the tests of the first two. \<open>zkstore\<close> and
  \<open>elector\<close> call the vendored ZooKeeper client.

  \<^bold>\<open>Conventions.\<close> A Go string and a byte slice are HOL strings of bytes; a nil error or pointer is \<open>None\<close>;
  \<open>int32\<close>, \<open>int64\<close> and \<open>uint64\<close> are words, read with \<open>sint\<close> where Go's are signed; a function with an error
  returns an error option beside its other results, or a sum. Panics are values of their own. State
  outside the process is an explicit argument, passed along.

  \<^bold>\<open>Foundations.\<close> \<open>Go_Prelude\<close> (names of types, collections, the contract \<open>ranked\<close> of step relations that
  end), \<open>Go_Strings\<close>, \<open>Go_Path\<close>, \<open>Go_Regexp\<close> and \<open>Go_Net\<close> model what the source uses of Go's libraries \<open>strings\<close>,
  \<open>strconv\<close>, \<open>path\<close>, \<open>regexp\<close> (matching by derivatives, proved to decide the language) and \<open>net\<close>. \<open>Go_Select\<close> states the
  contract \<open>first_of\<close> of a \<open>select\<close> loop with a deadline, which three loops of the packages satisfy.

  \<^bold>\<open>ZooKeeper.\<close> \<open>Zk_Client\<close> models the methods of \<open>zk.Conn\<close> (\<open>vendor/.../zk/conn.go\<close>) up to the requests they send:
  path validation, error codes, the recovery of protected nodes. The servers are the parameter
  \<open>session\<close>. \<open>Zk_Service\<close> states what is relied on: \<open>zk_service\<close> (each request takes effect atomically
  on a tree of nodes that others may change before it, or fails without a known effect) and
  \<open>zk_quiet\<close> (no failures, nobody else writes), and gives a scripted server that satisfies them.

  \<^bold>\<open>zkstore.\<close> \<open>Zkstore_Types\<close> (\<open>validate.go\<close>, \<open>location.go\<close>, \<open>ident.go\<close>, \<open>item.go\<close>, \<open>errors.go\<close>, \<open>hash.go\<close>) and
  \<open>Zkstore_Store\<close> (\<open>store.go\<close>, \<open>options.go\<close>) are the model, one definition per function. \<open>Zkstore_Paths\<close> shows
  that the configuration invariant holds of every store the options build and that the paths
  of idents are well-formed and tell keys apart; \<open>Zkstore_Quiet\<close> evaluates every operation exactly when nobody
  interferes; \<open>Zkstore_Abstract\<close> gives the abstract specification, a map from keys to versioned data
  (\<open>versioned_store\<close>), and proves that the operations refine it; \<open>Zkstore_Theorems\<close> holds the properties.
  \<open>Zkstore_Races\<close> treats interference and failures: what a versioned \<open>Put\<close> still guarantees, and
  what races and partial failures break.

  \<^bold>\<open>elector.\<close> \<open>Elector_Leader\<close> models \<open>determineLeader\<close> and its helpers, \<open>Elector_Machine\<close> the running elector
  (\<open>Start\<close>, \<open>initialize\<close>, \<open>start\<close>): a step relation with one rule per channel operation or call of its two
  goroutines and of \<open>start\<close>, so that every interleaving is a run (\<open>initialize\<close> is one step). Invariants by rule
  induction give the events a client sees; a rank bounds the winding down.

  \<^bold>\<open>connectors.\<close> \<open>Connectors\<close> models \<open>connector_new.go\<close> and \<open>connector_existing.go\<close> of \<open>elector\<close> and of \<open>zkstore\<close> (names
  with \<open>zs_\<close>) and \<open>ConnAdapter\<close>: what a connector holds after each outcome of \<open>Connect\<close> and what \<open>Close\<close> does
  then, when \<open>Connect\<close> returns and that the two copies agree. It also holds what \<open>initialize\<close> does over the client:
  that it creates the base path, and how two starting electors collide.

  \<^bold>\<open>store.\<close> \<open>Mem_Store\<close> models \<open>store/store.go\<close>. Its lock makes each call atomic, so a concurrent use is a
  sequence of calls, which is shown to act as a map. The order of Go's map iteration is a
  parameter that enumerates the keys.

  \<^bold>\<open>exec.\<close> \<open>Exec\<close> models exit codes, \<open>FullOutput\<close> and \<open>Run\<close>: a step relation over the process, the pipe, the
  context and the two goroutines, with an invariant and a rank. A schedule (\<open>plays\<close>) executes one run; every one
  is a run of the relation.

  \<^bold>\<open>nodeutil.\<close> \<open>Nodeutil\<close> models \<open>util.go\<close>, \<open>mesos.go\<close>, \<open>options.go\<close>, \<open>helper.go\<close> and the constants of package \<open>dcos\<close>;
  the script is run by the model of \<open>exec\<close>, on a schedule that the environment chooses. A call of \<open>IsLeader\<close> or \<open>MesosID\<close>
  releases the lock on the way, so its sections are definitions, and \<open>node_step\<close> interleaves the sections of
  any number of goroutines. \<open>Nodeutil_Theorems\<close> shows what the caches promise then (the contract \<open>memo\<close>,
  interpreted four times), that an address comes from a successful run of the script, and what each lookup
  returns.

  \<^bold>\<open>transport.\<close> \<open>Transport\<close> models \<open>option.go\<close>, \<open>transport.go\<close> and \<open>roundtripper.go\<close>; \<open>Transport_Theorems\<close> reads the
  protocol of a round trip off a log of what is sent, and shows what the constructors guarantee.

  \<^bold>\<open>testutils.\<close> \<open>Testutils\<close> models \<open>StartZookeeper\<close>, \<open>Teardown\<close> and the Docker helpers over a record of the calls of the
  Docker client, and accounts for the container on every path.

  \<^bold>\<open>Printing.\<close> \<open>Formats\<close> models the \<open>String\<close> methods, which tell valid idents apart, and \<open>LocationsByName\<close>, a strict weak
  order.

  \<^bold>\<open>Bounds.\<close> There is no fuel: loops are structural or have a termination proof. The waits for a session and for
  a connection may go on forever when their timer never fires, which is the result \<open>None\<close>; they are
  proved to return when it fires. The one loop of the client
  that retries is bounded by the source (three attempts). Steps of goroutines are unbounded; the
  bounds proved (\<open>rank\<close>, \<open>run_rank\<close>) hold for every run.

  \<^bold>\<open>Not modelled.\<close> The wire protocol of ZooKeeper and the servers (parameter \<open>session\<close>); the network, the
  file system, the clock and processes (parameters, or actors of a step relation); the decoders
  of JSON, PEM, PKCS8 and URLs and the JWT library (parameters: reflection and third-party code);
  \<open>zk.Connect\<close> with the goroutines it starts, and the Docker client (parameters); the example commands
  (flags, printing and logging around calls of the packages above); logging; the constants of package \<open>dcos\<close>
  that no function uses.
\<close>

end
